(* ===== verification/Mux_Prelude.thy ===== *)
theory Mux_Prelude
  imports Main "HOL-Library.Word"
begin

text \<open>
  The prelude of the development: the machine types of the modelled platform (a 64-bit
  host, on which \<^verbatim>\<open>size_t\<close>, \<^verbatim>\<open>uintptr_t\<close> and every pointer are 64 bits wide), the
  collections of simplification rules that the component theories fill, and the facts on
  words, lists and byte memory that more than one component uses.
\<close>

section \<open>Machine types\<close>

type_synonym u8 = "8 word"
type_synonym u32 = "32 word"
type_synonym u64 = "64 word"

text \<open>A pointer is its address; the null pointer is address 0.\<close>

type_synonym ptr = "64 word"

text \<open>
  Byte-addressed memory, and memory seen as cells that hold one 64-bit value (a handle or a
  \<^verbatim>\<open>size_t\<close> variable that the program passes by address).
\<close>

type_synonym byte_memory = "ptr \<Rightarrow> u8"
type_synonym cell_memory = "ptr \<Rightarrow> u64"

named_theorems mux_ids \<open>values of the object identifiers and other constants of mux.h\<close>
named_theorems mux_valid \<open>definitions of the validity checks of the Mux entry points\<close>
named_theorems mux_api \<open>definitions of the Mux entry points\<close>
named_theorems host_ops \<open>definitions of the operations of the host target\<close>

section \<open>Words\<close>

lemma unat_plus_no_wrap:
  fixes a b :: "'a :: len word"
  assumes "unat a + unat b < 2 ^ LENGTH('a)"
  shows "unat (a + b) = unat a + unat b"
  using assms by (simp add: unat_word_ariths)

lemma unat_times_no_wrap:
  fixes a b :: "'a :: len word"
  assumes "unat a * unat b < 2 ^ LENGTH('a)"
  shows "unat (a * b) = unat a * unat b"
  using assms by (simp add: unat_word_ariths)

lemma unat_minus_no_wrap:
  fixes a b :: "'a :: len word"
  assumes "unat b \<le> unat a"
  shows "unat (a - b) = unat a - unat b"
  using assms by (simp add: unat_sub word_le_nat_alt)

lemma word_plus_le_iff_unat:
  fixes a b c :: "'a :: len word"
  assumes "unat a + unat b < 2 ^ LENGTH('a)"
  shows "c < a + b \<longleftrightarrow> unat c < unat a + unat b"
  using unat_plus_no_wrap [OF assms] by (simp add: word_less_nat_alt)

lemma unat_pos_iff [simp]: "0 < unat w \<longleftrightarrow> w \<noteq> 0"
  by (metis unat_eq_zero neq0_conv)

lemma unat_ucast_32_64 [simp]: "unat (ucast (w :: u32) :: u64) = unat w"
proof -
  have "unat w < 2 ^ 64"
    using unsigned_less [of w] by (rule less_le_trans) simp
  then show ?thesis
    by (simp add: unsigned_ucast_eq take_bit_nat_eq_self)
qed

lemma ucast_of_nat_small:
  "n < 2 ^ 32 \<Longrightarrow> ucast (of_nat n :: u64) = (of_nat n :: u32)"
  "n < 2 ^ 32 \<Longrightarrow> ucast (of_nat n :: u32) = (of_nat n :: u64)"
  by (simp_all only: unsigned_of_nat) (simp_all add: take_bit_nat_eq_self)

lemma bit_of_small:
  fixes a :: "'a :: len word"
  assumes "take_bit k a = a" and "bit a n"
  shows "n < k"
  using assms by (metis bit_take_bit_iff)

lemma take_bit_of_nat_small: "n < 2 ^ k \<Longrightarrow> take_bit k (of_nat n :: 'a :: len word) = of_nat n"
  by (metis take_bit_nat_eq_self take_bit_of_nat)

lemma of_nat_eq_small_iff:
  assumes "m < 2 ^ LENGTH('a)" and "n < 2 ^ LENGTH('a)"
  shows "(of_nat m :: 'a :: len word) = of_nat n \<longleftrightarrow> m = n"
  using assms by (metis mod_less unat_of_nat)

text \<open>Two different elements of a short array of 64-bit values have different addresses.\<close>

lemma array_slot_eq_iff:
  assumes "m < 2 ^ 32" and "n < 2 ^ 32"
  shows "(8 * of_nat m :: ptr) = 8 * of_nat n \<longleftrightarrow> m = n"
  using assms of_nat_eq_small_iff [of "8 * m" "8 * n", where 'a = 64] by simp

lemma unat_minus_1: "(x :: 'a :: len word) \<noteq> 0 \<Longrightarrow> unat (x - 1) = unat x - 1"
  by (simp add: unat_minus_no_wrap word_le_nat_alt unat_pos_iff Suc_le_eq)

lemma unat_plus_1_less:
  fixes x y :: "'a :: len word"
  assumes "unat x < unat y"
  shows "unat (x + 1) = Suc (unat x)"
proof -
  have "unat x + 1 < 2 ^ LENGTH('a)"
    using assms unsigned_less [of y, where 'a = nat] by linarith
  then show ?thesis
    by (simp add: unat_plus_no_wrap)
qed

lemma distinct_singleton: "distinct xs \<Longrightarrow> set xs = {a} \<Longrightarrow> xs = [a]"
  by (cases xs; cases "tl xs") auto

section \<open>Byte memory\<close>

text \<open>
  \<^verbatim>\<open>memcpy\<close>: the bytes of the destination range, recognised by their distance from its
  start, are read from the source. For ranges that do not overlap this is what C promises.
\<close>

definition memcpy :: "ptr \<Rightarrow> ptr \<Rightarrow> u64 \<Rightarrow> byte_memory \<Rightarrow> byte_memory" where
  "memcpy dst src n m = (\<lambda>a. if a - dst < n then m (src + (a - dst)) else m a)"

text \<open>Byte \<open>j\<close> of a value on a little-endian machine.\<close>

definition byte_of :: "u64 \<Rightarrow> nat \<Rightarrow> u8" where
  "byte_of v j = ucast (drop_bit (8 * j) v)"

definition le_bytes :: "nat \<Rightarrow> u64 \<Rightarrow> u8 list" where
  "le_bytes n v = map (byte_of v) [0..<n]"

lemma length_le_bytes [simp]: "length (le_bytes n v) = n"
  by (simp add: le_bytes_def)

lemma unat_of_nat_small: "n < 2 ^ LENGTH('a) \<Longrightarrow> unat (of_nat n :: 'a :: len word) = n"
  by (simp add: unat_of_nat)

text \<open>\<^verbatim>\<open>memcpy\<close> of the eight bytes of a value to the address \<open>p\<close>, as the host stores it.\<close>

definition store64 :: "ptr \<Rightarrow> u64 \<Rightarrow> byte_memory \<Rightarrow> byte_memory" where
  "store64 p v m = (\<lambda>a. if a - p < 8 then byte_of v (unat (a - p)) else m a)"

text \<open>
  \<^verbatim>\<open>std::string(name, length)\<close>, and \<^verbatim>\<open>std::string(name)\<close> for a string of fewer than \<open>n\<close> characters.
\<close>

definition string_at :: "byte_memory \<Rightarrow> ptr \<Rightarrow> u64 \<Rightarrow> string" where
  "string_at m p len = map (\<lambda>i. char_of (unat (m (p + of_nat i)))) [0..<unat len]"

fun c_string_at :: "nat \<Rightarrow> byte_memory \<Rightarrow> ptr \<Rightarrow> string option" where
  "c_string_at 0 m p = None"
| "c_string_at (Suc n) m p =
     (if m p = 0 then Some []
      else map_option ((#) (char_of (unat (m p)))) (c_string_at n m (p + 1)))"

lemma memcpy_inside: "i < n \<Longrightarrow> memcpy dst src n m (dst + i) = m (src + i)"
  by (simp add: memcpy_def)

lemma memcpy_outside: "\<not> a - dst < n \<Longrightarrow> memcpy dst src n m a = m a"
  by (simp add: memcpy_def)

section \<open>Lists\<close>

lemma set_upt_Ball: "(\<forall>i \<in> set [0..<n]. P i) \<longleftrightarrow> (\<forall>i < n. P i)"
  by auto

end
