(* ===== verification/Mux_Types.thy ===== *)
theory Mux_Types
  imports Mux_Prelude
begin

unbundle bit_operations_syntax

text \<open>
  The data of the Mux API (\<^verbatim>\<open>modules/mux/include/mux/mux.h\<close>): result codes, object
  identifiers, enumerations, the objects behind the handles, and the world the entry
  points run in. An object handle is the address of the object. The world has one heap per
  object type; a heap is a total function from addresses, as memory is, so that reading the
  identifier of an object through a non-null handle reads whatever is stored there.

  C++ enumerations that the entry points compare against, and that callers can fill with
  any value, are 32-bit words; their enumerators are constants.
\<close>

section \<open>Result codes\<close>

datatype mux_result_t =
    mux_success
  | mux_error_failure
  | mux_error_null_out_parameter
  | mux_error_invalid_value
  | mux_error_out_of_memory
  | mux_error_null_allocator_callback
  | mux_error_device_entry_hook_failed
  | mux_error_invalid_binary
  | mux_error_feature_unsupported
  | mux_error_missing_kernel
  | mux_error_internal
  | mux_error_fence_failure
  | mux_fence_not_ready

section \<open>Identifiers and enumerations\<close>

type_synonym mux_id_t = u32

definition mux_object_id_buffer :: u32 where
  [mux_ids]: "mux_object_id_buffer = 0x00010000"

definition mux_object_id_command_buffer :: u32 where
  [mux_ids]: "mux_object_id_command_buffer = 0x00020000"

definition mux_object_id_device :: u32 where
  [mux_ids]: "mux_object_id_device = 0x00030000"

definition mux_object_id_executable :: u32 where
  [mux_ids]: "mux_object_id_executable = 0x00040000"

definition mux_object_id_image :: u32 where
  [mux_ids]: "mux_object_id_image = 0x00050000"

definition mux_object_id_kernel :: u32 where
  [mux_ids]: "mux_object_id_kernel = 0x00060000"

definition mux_object_id_memory :: u32 where
  [mux_ids]: "mux_object_id_memory = 0x00070000"

definition mux_object_id_queue :: u32 where
  [mux_ids]: "mux_object_id_queue = 0x00080000"

abbreviation (input) mux_object_id_sampler :: u32 where "mux_object_id_sampler \<equiv> 0x00090000"

definition mux_object_id_semaphore :: u32 where
  [mux_ids]: "mux_object_id_semaphore = 0x000A0000"

definition mux_object_id_query_pool :: u32 where
  [mux_ids]: "mux_object_id_query_pool = 0x000B0000"

definition mux_object_id_sync_point :: u32 where
  [mux_ids]: "mux_object_id_sync_point = 0x000C0000"

definition mux_object_id_fence :: u32 where
  [mux_ids]: "mux_object_id_fence = 0x000D0000"

definition mux_object_id_mask :: u32 where
  [mux_ids]: "mux_object_id_mask = 0xFFFF0000"

text \<open>Queue, allocation, image and query types, capabilities and memory properties.\<close>

abbreviation (input) mux_device_type_all :: u32 where "mux_device_type_all \<equiv> 0xFFFFFFFF"
abbreviation (input) mux_queue_type_compute :: u32 where "mux_queue_type_compute \<equiv> 0"
abbreviation (input) mux_queue_type_total :: u32 where "mux_queue_type_total \<equiv> 1"
abbreviation (input) mux_allocation_type_alloc_host :: u32 where "mux_allocation_type_alloc_host \<equiv> 0"
abbreviation (input) mux_allocation_type_alloc_device :: u32 where "mux_allocation_type_alloc_device \<equiv> 1"
abbreviation (input) mux_allocation_capabilities_cached_host :: u32 where "mux_allocation_capabilities_cached_host \<equiv> 2"
abbreviation (input) mux_memory_property_device_local :: u32 where "mux_memory_property_device_local \<equiv> 2"
abbreviation (input) mux_memory_property_host_visible :: u32 where "mux_memory_property_host_visible \<equiv> 4"
abbreviation (input) mux_memory_property_host_coherent :: u32 where "mux_memory_property_host_coherent \<equiv> 8"
abbreviation (input) mux_memory_property_host_cached :: u32 where "mux_memory_property_host_cached \<equiv> 16"
abbreviation (input) mux_image_type_1d :: u32 where "mux_image_type_1d \<equiv> 0"
abbreviation (input) mux_image_type_2d :: u32 where "mux_image_type_2d \<equiv> 1"
abbreviation (input) mux_image_type_3d :: u32 where "mux_image_type_3d \<equiv> 2"
abbreviation (input) mux_query_type_duration :: u32 where "mux_query_type_duration \<equiv> 0"
abbreviation (input) mux_query_type_counter :: u32 where "mux_query_type_counter \<equiv> 1"

section \<open>Structures passed by value\<close>

record mux_offset_3d_s =
  off_x :: u32
  off_y :: u32
  off_z :: u32

record mux_extent_3d_s =
  ext_x :: u64
  ext_y :: u64
  ext_z :: u64

record mux_extent_2d_s =
  ext2_x :: u64
  ext2_y :: u64

record mux_buffer_region_info_s =
  region :: mux_extent_3d_s
  src_origin :: mux_extent_3d_s
  dst_origin :: mux_extent_3d_s
  src_desc :: mux_extent_2d_s
  dst_desc :: mux_extent_2d_s

record mux_memory_requirements_s =
  req_size :: u64
  req_alignment :: u32
  req_supported_heaps :: u32

text \<open>
  Kernel argument descriptors: the tag and the union of \<^verbatim>\<open>mux_descriptor_info_s\<close> are one
  datatype. The arrays of \<^verbatim>\<open>mux_ndrange_options_s\<close> are lists; a null array is \<^term>\<open>None\<close>.
\<close>

record mux_sampler_s =
  sampler_id :: u32
  address_mode :: u32
  filter_mode :: u32
  normalize_coords :: bool

datatype mux_descriptor_info_s =
    Descriptor_buffer ptr u64
  | Descriptor_image ptr
  | Descriptor_sampler mux_sampler_s
  | Descriptor_plain_old_data ptr u64
  | Descriptor_shared_local_buffer u64
  | Descriptor_null_buffer
  | Descriptor_custom_buffer ptr u64 u32

record mux_ndrange_options_s =
  nd_descriptors :: "mux_descriptor_info_s list"
  nd_local_size :: "u64 list"
  nd_global_offset :: "u64 list option"
  nd_global_size :: "u64 list option"
  nd_dimensions :: u64

text \<open>
  An allocator is a pair of callbacks over the allocator's own state, which is the set of
  live blocks with their sizes. A request is for a number of bytes at an alignment, or for
  the storage of one C++ object or of an array of them, whose size and alignment the
  compiler fixes; the request then names the object's type. A null callback is \<^term>\<open>None\<close>.
\<close>

datatype cpp_object =
    Obj_fence | Obj_semaphore | Obj_command_buffer | Obj_sync_point | Obj_buffer
  | Obj_memory | Obj_kernel | Obj_executable | Obj_image | Obj_query_pool
  | Obj_command_info | Obj_ndrange_info_ptr | Obj_handle | Obj_descriptor_info
  | Obj_size_t | Obj_byte_ptr | Obj_signal_info | Obj_kernel_variant | Obj_device

datatype alloc_request =
    Request_bytes u64 u64
  | Request_object cpp_object
  | Request_array cpp_object nat

type_synonym blocks = "ptr \<rightharpoonup> alloc_request"

record mux_allocator_info_s =
  alloc_fn :: "(ptr \<Rightarrow> alloc_request \<Rightarrow> blocks \<Rightarrow> ptr \<times> blocks) option"
  free_fn :: "(ptr \<Rightarrow> ptr \<Rightarrow> blocks \<Rightarrow> blocks) option"
  alloc_user_data :: ptr

section \<open>Objects\<close>

text \<open>The fields of \<^verbatim>\<open>mux_device_info_s\<close> that the modelled code reads or writes.\<close>

record mux_device_info_s =
  info_id :: mux_id_t
  allocation_capabilities :: u32
  max_concurrent_work_items :: u32
  max_work_group_size_x :: u32
  max_work_group_size_y :: u32
  max_work_group_size_z :: u32
  allocation_size :: u64
  shared_local_memory_size :: u64
  image_support :: bool
  max_image_dimension_1d :: u32
  max_image_dimension_2d :: u32
  max_image_dimension_3d :: u32
  max_image_array_layers :: u32
  max_storage_images :: u32
  max_sampled_images :: u32
  max_samplers :: u32
  queue_types :: "u32 \<Rightarrow> u32"
  query_counter_support :: bool

record mux_device_s =
  device_id :: mux_id_t
  device_info :: ptr

record mux_memory_s =
  memory_id :: mux_id_t
  memory_size :: u64
  memory_properties :: u32
  memory_handle :: u64

record mux_buffer_s =
  buffer_id :: mux_id_t
  buffer_requirements :: mux_memory_requirements_s

record mux_image_s =
  image_id :: mux_id_t
  image_requirements :: mux_memory_requirements_s
  image_type :: u32
  image_format :: u32
  image_pixel_size :: u32
  image_size :: mux_extent_3d_s
  image_array_layers :: u32
  image_row_size :: u64
  image_slice_size :: u64

record mux_queue_s =
  queue_id :: mux_id_t
  queue_device :: ptr

record mux_semaphore_s =
  semaphore_id :: mux_id_t
  semaphore_device :: ptr

record mux_fence_s =
  fence_id :: mux_id_t
  fence_device :: ptr

record mux_sync_point_s =
  sync_point_id :: mux_id_t
  sync_point_command_buffer :: ptr

record mux_executable_s =
  executable_id :: mux_id_t
  executable_device :: ptr

record mux_kernel_s =
  kernel_id :: mux_id_t
  kernel_device :: ptr
  preferred_local_size_x :: u64
  preferred_local_size_y :: u64
  preferred_local_size_z :: u64
  local_memory_size :: u64

record mux_command_buffer_s =
  command_buffer_id :: mux_id_t
  command_buffer_device :: ptr

record mux_query_pool_s =
  query_pool_id :: mux_id_t
  query_pool_type :: u32
  query_pool_count :: u32

section \<open>The world\<close>

text \<open>
  One heap per object type; \<open>cells\<close> are the 64-bit variables (handles, counts) that callers
  pass by address; \<open>mem\<close> is byte memory; \<open>live_blocks\<close> is what the allocator handed out and
  did not get back. A target extends this record with its own part of every object.
\<close>

record mux_world =
  device_infos :: "ptr \<Rightarrow> mux_device_info_s"
  devices :: "ptr \<Rightarrow> mux_device_s"
  memories :: "ptr \<Rightarrow> mux_memory_s"
  buffers :: "ptr \<Rightarrow> mux_buffer_s"
  images :: "ptr \<Rightarrow> mux_image_s"
  queues :: "ptr \<Rightarrow> mux_queue_s"
  semaphores :: "ptr \<Rightarrow> mux_semaphore_s"
  fences :: "ptr \<Rightarrow> mux_fence_s"
  sync_points :: "ptr \<Rightarrow> mux_sync_point_s"
  executables :: "ptr \<Rightarrow> mux_executable_s"
  kernels :: "ptr \<Rightarrow> mux_kernel_s"
  command_buffers :: "ptr \<Rightarrow> mux_command_buffer_s"
  query_pools :: "ptr \<Rightarrow> mux_query_pool_s"
  cells :: cell_memory
  mem :: byte_memory
  live_blocks :: blocks
  device_infos_initialized :: bool

text \<open>The i-th element of an array of handles that starts at \<open>p\<close>.\<close>

definition handle_at :: "'a mux_world_scheme \<Rightarrow> ptr \<Rightarrow> nat \<Rightarrow> ptr" where
  "handle_at w p i = cells w (p + 8 * of_nat i)"

text \<open>\<^verbatim>\<open>device->info->id\<close> and other reads through \<^verbatim>\<open>device->info\<close>.\<close>

definition info_of :: "'a mux_world_scheme \<Rightarrow> ptr \<Rightarrow> mux_device_info_s" where
  "info_of w device = device_infos w (device_info (devices w device))"

end
