(* ===== verification/Mux_Id.thy ===== *)
theory Mux_Id
  imports Mux_Types
begin

unbundle bit_operations_syntax

text \<open>
  Object identifiers (\<^verbatim>\<open>modules/mux/utils/include/mux/utils/id.h\<close>). Every Mux object carries
  a 32-bit identifier whose upper half is the type of the object and whose lower half names
  the target that made it. The entry points use the upper half to reject handles of the
  wrong type and the generated dispatcher uses the lower half to find the target.

  \<^item> \<open>makeId\<close>, \<open>getTargetId\<close>, \<open>getObjectId\<close>, \<open>objectIsInvalid\<close>, \<open>allocatorInfoIsInvalid\<close> are
    the functions of the header;
  \<^item> the function template \<^verbatim>\<open>setId\<close> and the template \<^verbatim>\<open>objectIsInvalid\<close> are instantiated
    once per object type, \<open>setId_buffer\<close>, \<open>buffer_is_invalid\<close> and so on;
  \<^item> the locale \<open>mux_object\<close> is the contract of one object type: what its identifier field
    holds after \<^verbatim>\<open>setId\<close>. It is interpreted for each of the eleven types.
\<close>

section \<open>Identifiers\<close>

definition makeId :: "u32 \<Rightarrow> u32 \<Rightarrow> mux_id_t" where
  "makeId target_id object_id = target_id OR object_id"

definition getTargetId :: "mux_id_t \<Rightarrow> u32" where
  "getTargetId oid = NOT mux_object_id_mask AND oid"

definition getObjectId :: "mux_id_t \<Rightarrow> u32" where
  "getObjectId oid = mux_object_id_mask AND oid"

definition objectIsInvalid :: "u32 \<Rightarrow> mux_id_t \<Rightarrow> ptr \<Rightarrow> bool" where
  "objectIsInvalid expected oid p \<longleftrightarrow> p = 0 \<or> expected \<noteq> getObjectId oid"

definition allocatorInfoIsInvalid :: "mux_allocator_info_s \<Rightarrow> bool" where
  "allocatorInfoIsInvalid allocator_info \<longleftrightarrow>
     alloc_fn allocator_info = None \<or> free_fn allocator_info = None"

text \<open>An identifier splits into its two halves and is rebuilt from them.\<close>

lemma makeId_getTargetId_getObjectId: "makeId (getTargetId oid) (getObjectId oid) = oid"
  by (auto simp: makeId_def getTargetId_def getObjectId_def bit_simps intro!: bit_word_eqI)

lemma getObjectId_makeId:
  assumes "getObjectId target_id = 0" and "getTargetId object_id = 0"
  shows "getObjectId (makeId target_id object_id) = object_id"
proof -
  have "getObjectId (makeId target_id object_id)
      = getObjectId target_id OR getObjectId object_id"
    by (simp add: makeId_def getObjectId_def bit.conj_disj_distrib)
  also have "\<dots> = makeId (getTargetId object_id) (getObjectId object_id)"
    using assms by (simp add: makeId_def)
  finally show ?thesis
    by (simp add: makeId_getTargetId_getObjectId)
qed

lemma getTargetId_makeId:
  assumes "getObjectId target_id = 0" and "getTargetId object_id = 0"
  shows "getTargetId (makeId target_id object_id) = target_id"
proof -
  have "getTargetId (makeId target_id object_id)
      = getTargetId target_id OR getTargetId object_id"
    by (simp add: makeId_def getTargetId_def bit.conj_disj_distrib)
  also have "\<dots> = makeId (getTargetId target_id) (getObjectId target_id)"
    using assms by (simp add: makeId_def)
  finally show ?thesis
    by (simp add: makeId_getTargetId_getObjectId)
qed

lemma getObjectId_getTargetId [simp]: "getObjectId (getTargetId oid) = 0"
  by (auto simp: getTargetId_def getObjectId_def bit_simps intro!: bit_word_eqI)

lemma getTargetId_getTargetId [simp]: "getTargetId (getTargetId oid) = getTargetId oid"
  by (auto simp: getTargetId_def bit_simps intro!: bit_word_eqI)

text \<open>The type identifiers of \<^verbatim>\<open>mux_object_id_e\<close> live in the upper half.\<close>

lemma getTargetId_object_ids [simp]:
  "getTargetId mux_object_id_buffer = 0"
  "getTargetId mux_object_id_command_buffer = 0"
  "getTargetId mux_object_id_device = 0"
  "getTargetId mux_object_id_executable = 0"
  "getTargetId mux_object_id_image = 0"
  "getTargetId mux_object_id_kernel = 0"
  "getTargetId mux_object_id_memory = 0"
  "getTargetId mux_object_id_queue = 0"
  "getTargetId mux_object_id_semaphore = 0"
  "getTargetId mux_object_id_query_pool = 0"
  "getTargetId mux_object_id_sync_point = 0"
  "getTargetId mux_object_id_fence = 0"
  by (simp_all add: getTargetId_def mux_ids)

section \<open>The contract of an object type\<close>

locale mux_object =
  fixes get_id :: "'w \<Rightarrow> ptr \<Rightarrow> mux_id_t"
    and set_id :: "mux_id_t \<Rightarrow> ptr \<Rightarrow> 'w \<Rightarrow> 'w"
    and object_id :: u32
  assumes get_set: "get_id (set_id parent_id p w) p = makeId (getTargetId parent_id) object_id"
    and get_set_other: "q \<noteq> p \<Longrightarrow> get_id (set_id parent_id p w) q = get_id w q"
    and object_id_upper: "getTargetId object_id = 0"
begin

lemma valid_after_set:
  "p \<noteq> 0 \<Longrightarrow> \<not> objectIsInvalid object_id (get_id (set_id parent_id p w) p) p"
  by (simp add: objectIsInvalid_def get_set getObjectId_makeId object_id_upper)

lemma target_after_set:
  "getTargetId (get_id (set_id parent_id p w) p) = getTargetId parent_id"
  by (simp add: get_set getTargetId_makeId object_id_upper)

lemma other_after_set:
  "q \<noteq> p \<Longrightarrow> objectIsInvalid object_id (get_id (set_id parent_id p w) q) q
    \<longleftrightarrow> objectIsInvalid object_id (get_id w q) q"
  by (simp add: get_set_other)

end

section \<open>Instances for the object types\<close>

definition device_is_invalid :: "'a mux_world_scheme \<Rightarrow> ptr \<Rightarrow> bool" where
  [mux_valid]: "device_is_invalid w p \<longleftrightarrow>
     objectIsInvalid mux_object_id_device (device_id (devices w p)) p"

definition memory_is_invalid :: "'a mux_world_scheme \<Rightarrow> ptr \<Rightarrow> bool" where
  [mux_valid]: "memory_is_invalid w p \<longleftrightarrow>
     objectIsInvalid mux_object_id_memory (memory_id (memories w p)) p"

definition buffer_is_invalid :: "'a mux_world_scheme \<Rightarrow> ptr \<Rightarrow> bool" where
  [mux_valid]: "buffer_is_invalid w p \<longleftrightarrow>
     objectIsInvalid mux_object_id_buffer (buffer_id (buffers w p)) p"

definition image_is_invalid :: "'a mux_world_scheme \<Rightarrow> ptr \<Rightarrow> bool" where
  [mux_valid]: "image_is_invalid w p \<longleftrightarrow>
     objectIsInvalid mux_object_id_image (image_id (images w p)) p"

definition queue_is_invalid :: "'a mux_world_scheme \<Rightarrow> ptr \<Rightarrow> bool" where
  [mux_valid]: "queue_is_invalid w p \<longleftrightarrow>
     objectIsInvalid mux_object_id_queue (queue_id (queues w p)) p"

definition command_buffer_is_invalid :: "'a mux_world_scheme \<Rightarrow> ptr \<Rightarrow> bool" where
  [mux_valid]: "command_buffer_is_invalid w p \<longleftrightarrow>
     objectIsInvalid mux_object_id_command_buffer (command_buffer_id (command_buffers w p)) p"

definition semaphore_is_invalid :: "'a mux_world_scheme \<Rightarrow> ptr \<Rightarrow> bool" where
  [mux_valid]: "semaphore_is_invalid w p \<longleftrightarrow>
     objectIsInvalid mux_object_id_semaphore (semaphore_id (semaphores w p)) p"

definition fence_is_invalid :: "'a mux_world_scheme \<Rightarrow> ptr \<Rightarrow> bool" where
  [mux_valid]: "fence_is_invalid w p \<longleftrightarrow>
     objectIsInvalid mux_object_id_fence (fence_id (fences w p)) p"

definition sync_point_is_invalid :: "'a mux_world_scheme \<Rightarrow> ptr \<Rightarrow> bool" where
  [mux_valid]: "sync_point_is_invalid w p \<longleftrightarrow>
     objectIsInvalid mux_object_id_sync_point (sync_point_id (sync_points w p)) p"

definition executable_is_invalid :: "'a mux_world_scheme \<Rightarrow> ptr \<Rightarrow> bool" where
  [mux_valid]: "executable_is_invalid w p \<longleftrightarrow>
     objectIsInvalid mux_object_id_executable (executable_id (executables w p)) p"

definition kernel_is_invalid :: "'a mux_world_scheme \<Rightarrow> ptr \<Rightarrow> bool" where
  [mux_valid]: "kernel_is_invalid w p \<longleftrightarrow>
     objectIsInvalid mux_object_id_kernel (kernel_id (kernels w p)) p"

definition query_pool_is_invalid :: "'a mux_world_scheme \<Rightarrow> ptr \<Rightarrow> bool" where
  [mux_valid]: "query_pool_is_invalid w p \<longleftrightarrow>
     objectIsInvalid mux_object_id_query_pool (query_pool_id (query_pools w p)) p"

definition setId_memory :: "mux_id_t \<Rightarrow> ptr \<Rightarrow> 'a mux_world_scheme \<Rightarrow> 'a mux_world_scheme" where
  "setId_memory parent_id p w =
     w\<lparr>memories := (memories w)(p := (memories w p)
         \<lparr>memory_id := makeId (getTargetId parent_id) mux_object_id_memory\<rparr>)\<rparr>"

definition setId_buffer :: "mux_id_t \<Rightarrow> ptr \<Rightarrow> 'a mux_world_scheme \<Rightarrow> 'a mux_world_scheme" where
  "setId_buffer parent_id p w =
     w\<lparr>buffers := (buffers w)(p := (buffers w p)
         \<lparr>buffer_id := makeId (getTargetId parent_id) mux_object_id_buffer\<rparr>)\<rparr>"

definition setId_image :: "mux_id_t \<Rightarrow> ptr \<Rightarrow> 'a mux_world_scheme \<Rightarrow> 'a mux_world_scheme" where
  "setId_image parent_id p w =
     w\<lparr>images := (images w)(p := (images w p)
         \<lparr>image_id := makeId (getTargetId parent_id) mux_object_id_image\<rparr>)\<rparr>"

definition setId_queue :: "mux_id_t \<Rightarrow> ptr \<Rightarrow> 'a mux_world_scheme \<Rightarrow> 'a mux_world_scheme" where
  "setId_queue parent_id p w =
     w\<lparr>queues := (queues w)(p := (queues w p)
         \<lparr>queue_id := makeId (getTargetId parent_id) mux_object_id_queue\<rparr>)\<rparr>"

definition setId_command_buffer :: "mux_id_t \<Rightarrow> ptr \<Rightarrow> 'a mux_world_scheme \<Rightarrow> 'a mux_world_scheme" where
  "setId_command_buffer parent_id p w =
     w\<lparr>command_buffers := (command_buffers w)(p := (command_buffers w p)
         \<lparr>command_buffer_id := makeId (getTargetId parent_id) mux_object_id_command_buffer\<rparr>)\<rparr>"

definition setId_semaphore :: "mux_id_t \<Rightarrow> ptr \<Rightarrow> 'a mux_world_scheme \<Rightarrow> 'a mux_world_scheme" where
  "setId_semaphore parent_id p w =
     w\<lparr>semaphores := (semaphores w)(p := (semaphores w p)
         \<lparr>semaphore_id := makeId (getTargetId parent_id) mux_object_id_semaphore\<rparr>)\<rparr>"

definition setId_fence :: "mux_id_t \<Rightarrow> ptr \<Rightarrow> 'a mux_world_scheme \<Rightarrow> 'a mux_world_scheme" where
  "setId_fence parent_id p w =
     w\<lparr>fences := (fences w)(p := (fences w p)
         \<lparr>fence_id := makeId (getTargetId parent_id) mux_object_id_fence\<rparr>)\<rparr>"

definition setId_sync_point :: "mux_id_t \<Rightarrow> ptr \<Rightarrow> 'a mux_world_scheme \<Rightarrow> 'a mux_world_scheme" where
  "setId_sync_point parent_id p w =
     w\<lparr>sync_points := (sync_points w)(p := (sync_points w p)
         \<lparr>sync_point_id := makeId (getTargetId parent_id) mux_object_id_sync_point\<rparr>)\<rparr>"

definition setId_executable :: "mux_id_t \<Rightarrow> ptr \<Rightarrow> 'a mux_world_scheme \<Rightarrow> 'a mux_world_scheme" where
  "setId_executable parent_id p w =
     w\<lparr>executables := (executables w)(p := (executables w p)
         \<lparr>executable_id := makeId (getTargetId parent_id) mux_object_id_executable\<rparr>)\<rparr>"

definition setId_kernel :: "mux_id_t \<Rightarrow> ptr \<Rightarrow> 'a mux_world_scheme \<Rightarrow> 'a mux_world_scheme" where
  "setId_kernel parent_id p w =
     w\<lparr>kernels := (kernels w)(p := (kernels w p)
         \<lparr>kernel_id := makeId (getTargetId parent_id) mux_object_id_kernel\<rparr>)\<rparr>"

definition setId_query_pool :: "mux_id_t \<Rightarrow> ptr \<Rightarrow> 'a mux_world_scheme \<Rightarrow> 'a mux_world_scheme" where
  "setId_query_pool parent_id p w =
     w\<lparr>query_pools := (query_pools w)(p := (query_pools w p)
         \<lparr>query_pool_id := makeId (getTargetId parent_id) mux_object_id_query_pool\<rparr>)\<rparr>"

text \<open>The contract holds for every object type.\<close>

interpretation memory_object: mux_object
  "\<lambda>w p. memory_id (memories w p)" setId_memory mux_object_id_memory
  by unfold_locales (simp_all add: setId_memory_def)

interpretation buffer_object: mux_object
  "\<lambda>w p. buffer_id (buffers w p)" setId_buffer mux_object_id_buffer
  by unfold_locales (simp_all add: setId_buffer_def)

interpretation image_object: mux_object
  "\<lambda>w p. image_id (images w p)" setId_image mux_object_id_image
  by unfold_locales (simp_all add: setId_image_def)

interpretation queue_object: mux_object
  "\<lambda>w p. queue_id (queues w p)" setId_queue mux_object_id_queue
  by unfold_locales (simp_all add: setId_queue_def)

interpretation command_buffer_object: mux_object
  "\<lambda>w p. command_buffer_id (command_buffers w p)" setId_command_buffer mux_object_id_command_buffer
  by unfold_locales (simp_all add: setId_command_buffer_def)

interpretation semaphore_object: mux_object
  "\<lambda>w p. semaphore_id (semaphores w p)" setId_semaphore mux_object_id_semaphore
  by unfold_locales (simp_all add: setId_semaphore_def)

interpretation fence_object: mux_object
  "\<lambda>w p. fence_id (fences w p)" setId_fence mux_object_id_fence
  by unfold_locales (simp_all add: setId_fence_def)

interpretation sync_point_object: mux_object
  "\<lambda>w p. sync_point_id (sync_points w p)" setId_sync_point mux_object_id_sync_point
  by unfold_locales (simp_all add: setId_sync_point_def)

interpretation executable_object: mux_object
  "\<lambda>w p. executable_id (executables w p)" setId_executable mux_object_id_executable
  by unfold_locales (simp_all add: setId_executable_def)

interpretation kernel_object: mux_object
  "\<lambda>w p. kernel_id (kernels w p)" setId_kernel mux_object_id_kernel
  by unfold_locales (simp_all add: setId_kernel_def)

interpretation query_pool_object: mux_object
  "\<lambda>w p. query_pool_id (query_pools w p)" setId_query_pool mux_object_id_query_pool
  by unfold_locales (simp_all add: setId_query_pool_def)

end
