(* ===== verification/Mux_Allocator.thy ===== *)
theory Mux_Allocator
  imports Mux_Types
begin

text \<open>
  The allocator helper (\<^verbatim>\<open>modules/mux/utils/include/mux/utils/allocator.h\<close>): a thin wrapper
  of the two callbacks of \<^verbatim>\<open>mux_allocator_info_t\<close>. The callbacks belong to the caller of
  the API, so they are part of the arguments; \<open>allocator_ok\<close> states the documented contract
  of such a pair (an allocation returns null and changes nothing, or returns the address of a
  block that was not live; a free releases the block). Calling a null callback is undefined
  behaviour: the model reads it with \<^const>\<open>the\<close>, about which nothing can be proved.
\<close>

definition allocator_alloc ::
  "mux_allocator_info_s \<Rightarrow> alloc_request \<Rightarrow> 'a mux_world_scheme \<Rightarrow> ptr \<times> 'a mux_world_scheme" where
  "allocator_alloc allocator request w =
     (case the (alloc_fn allocator) (alloc_user_data allocator) request (live_blocks w) of
        (p, bs) \<Rightarrow> (p, w\<lparr>live_blocks := bs\<rparr>))"

definition allocator_free ::
  "mux_allocator_info_s \<Rightarrow> ptr \<Rightarrow> 'a mux_world_scheme \<Rightarrow> 'a mux_world_scheme" where
  "allocator_free allocator p w =
     w\<lparr>live_blocks := the (free_fn allocator) (alloc_user_data allocator) p (live_blocks w)\<rparr>"

text \<open>
  \<^verbatim>\<open>create<T>\<close> allocates the storage of one object and runs its constructor; the model
  passes the constructor as the state change it makes at the new address.
\<close>

definition allocator_create ::
  "mux_allocator_info_s \<Rightarrow> cpp_object \<Rightarrow> (ptr \<Rightarrow> 'a mux_world_scheme \<Rightarrow> 'a mux_world_scheme)
    \<Rightarrow> 'a mux_world_scheme \<Rightarrow> ptr \<times> 'a mux_world_scheme" where
  "allocator_create allocator obj construct w =
     (case allocator_alloc allocator (Request_object obj) w of
        (p, w') \<Rightarrow> if p = 0 then (0, w') else (p, construct p w'))"

text \<open>\<^verbatim>\<open>destroy<T>\<close> runs the destructor and frees the storage.\<close>

definition allocator_destroy ::
  "mux_allocator_info_s \<Rightarrow> (ptr \<Rightarrow> 'a mux_world_scheme \<Rightarrow> 'a mux_world_scheme) \<Rightarrow> ptr
    \<Rightarrow> 'a mux_world_scheme \<Rightarrow> 'a mux_world_scheme" where
  "allocator_destroy allocator destruct p w = allocator_free allocator p (destruct p w)"

definition allocator_ok :: "mux_allocator_info_s \<Rightarrow> bool" where
  "allocator_ok allocator \<longleftrightarrow>
     (\<exists>f g. alloc_fn allocator = Some f \<and> free_fn allocator = Some g \<and>
       (\<forall>u r bs. (case f u r bs of (p, bs') \<Rightarrow>
          (p = 0 \<and> bs' = bs) \<or> (p \<noteq> 0 \<and> bs p = None \<and> bs' = bs(p \<mapsto> r)))) \<and>
       (\<forall>u p bs. g u p bs = bs(p := None)))"

lemma allocator_okE:
  assumes "allocator_ok a"
  obtains f g where "alloc_fn a = Some f" and "free_fn a = Some g"
    and "\<And>u r bs. (case f u r bs of (p, bs') \<Rightarrow>
          (p = 0 \<and> bs' = bs) \<or> (p \<noteq> 0 \<and> bs p = None \<and> bs' = bs(p \<mapsto> r)))"
    and "\<And>u p bs. g u p bs = bs(p := None)"
  using assms unfolding allocator_ok_def by blast

lemma allocator_alloc_cases:
  assumes "allocator_ok a" and "allocator_alloc a r w = (p, w')"
  obtains (null) "p = 0" and "w' = w"
    | (fresh) "p \<noteq> 0" and "live_blocks w p = None"
        and "w' = w\<lparr>live_blocks := (live_blocks w)(p \<mapsto> r)\<rparr>"
proof -
  obtain f where f: "alloc_fn a = Some f"
    and ok: "\<And>u r bs. (case f u r bs of (p, bs') \<Rightarrow>
          (p = 0 \<and> bs' = bs) \<or> (p \<noteq> 0 \<and> bs p = None \<and> bs' = bs(p \<mapsto> r)))"
    using assms(1) unfolding allocator_ok_def by blast
  obtain q bs where call: "f (alloc_user_data a) r (live_blocks w) = (q, bs)"
    by fastforce
  have eq: "p = q" "w' = w\<lparr>live_blocks := bs\<rparr>"
    using assms(2) f call by (simp_all add: allocator_alloc_def)
  from ok [where u = "alloc_user_data a" and r = r and bs = "live_blocks w"] call
  have "(q = 0 \<and> bs = live_blocks w) \<or>
        (q \<noteq> 0 \<and> live_blocks w q = None \<and> bs = (live_blocks w)(q \<mapsto> r))"
    by simp
  then show thesis
    using eq null fresh by auto
qed

lemma allocator_free_eq:
  assumes "allocator_ok a"
  shows "allocator_free a p w = w\<lparr>live_blocks := (live_blocks w)(p := None)\<rparr>"
  using assms by (elim allocator_okE) (simp add: allocator_free_def)

text \<open>Freeing what was just allocated gives back the blocks from before.\<close>

lemma free_after_alloc:
  assumes "allocator_ok a" and "allocator_alloc a r w = (p, w')" and "p \<noteq> 0"
  shows "allocator_free a p w' = w"
  using assms by (cases rule: allocator_alloc_cases [OF assms(1,2)])
    (auto simp: allocator_free_eq fun_upd_idem)

text \<open>An operation that only allocates and frees leaves the rest of the world as it was.\<close>

definition only_blocks :: "'a mux_world_scheme \<Rightarrow> 'a mux_world_scheme \<Rightarrow> bool" where
  "only_blocks w w' \<longleftrightarrow> (\<exists>bs. w' = w\<lparr>live_blocks := bs\<rparr>)"

lemma only_blocks_refl [intro, simp]: "only_blocks w w"
  unfolding only_blocks_def by (rule exI [of _ "live_blocks w"]) simp

lemma only_blocks_update [intro, simp]: "only_blocks w (w\<lparr>live_blocks := bs\<rparr>)"
  unfolding only_blocks_def by blast

lemma only_blocks_trans [trans]: "only_blocks w w1 \<Longrightarrow> only_blocks w1 w2 \<Longrightarrow> only_blocks w w2"
  unfolding only_blocks_def by auto

lemma only_blocks_alloc: "allocator_alloc a r w = (p, w') \<Longrightarrow> only_blocks w w'"
  by (auto simp: allocator_alloc_def split: prod.splits)

lemma only_blocks_free: "only_blocks w (allocator_free a p w)"
  by (simp add: allocator_free_def)

lemma only_blocksD:
  assumes "only_blocks w w'"
  shows "cells w' = cells w" and "mem w' = mem w" and "buffers w' = buffers w"
    and "command_buffers w' = command_buffers w" and "devices w' = devices w"
    and "device_infos w' = device_infos w" and "semaphores w' = semaphores w"
    and "mux_world.more w' = mux_world.more w"
  using assms by (auto simp: only_blocks_def)

text \<open>
  A concrete allocator, for evaluating the model: two slots, at \<^verbatim>\<open>0x1000\<close> and \<^verbatim>\<open>0x2000\<close>.
\<close>

definition two_slot_allocator :: mux_allocator_info_s where
  "two_slot_allocator =
     \<lparr>alloc_fn = Some (\<lambda>u r bs.
        if bs 0x1000 = None then (0x1000, bs(0x1000 \<mapsto> r))
        else if bs 0x2000 = None then (0x2000, bs(0x2000 \<mapsto> r))
        else (0, bs)),
      free_fn = Some (\<lambda>u p bs. bs(p := None)),
      alloc_user_data = 0\<rparr>"

lemma two_slot_allocator_ok: "allocator_ok two_slot_allocator"
  unfolding allocator_ok_def two_slot_allocator_def
  by (intro exI conjI) (rule refl | simp)+

text \<open>A world with no object and no live block, from which concrete worlds are built.\<close>

definition empty_world :: mux_world where
  "empty_world = \<lparr>
     device_infos = (\<lambda>_. \<lparr>info_id = 0, allocation_capabilities = 0, max_concurrent_work_items = 0,
       max_work_group_size_x = 0, max_work_group_size_y = 0, max_work_group_size_z = 0,
       allocation_size = 0, shared_local_memory_size = 0, image_support = False,
       max_image_dimension_1d = 0, max_image_dimension_2d = 0, max_image_dimension_3d = 0,
       max_image_array_layers = 0, max_storage_images = 0, max_sampled_images = 0,
       max_samplers = 0, queue_types = (\<lambda>_. 1), query_counter_support = False\<rparr>),
     devices = (\<lambda>_. \<lparr>device_id = 0, device_info = 0\<rparr>),
     memories = (\<lambda>_. \<lparr>memory_id = 0, memory_size = 0, memory_properties = 0, memory_handle = 0\<rparr>),
     buffers = (\<lambda>_. \<lparr>buffer_id = 0, buffer_requirements =
       \<lparr>req_size = 0, req_alignment = 0, req_supported_heaps = 0\<rparr>\<rparr>),
     images = (\<lambda>_. \<lparr>image_id = 0, image_requirements =
       \<lparr>req_size = 0, req_alignment = 0, req_supported_heaps = 0\<rparr>,
       image_type = 0, image_format = 0, image_pixel_size = 0,
       image_size = \<lparr>ext_x = 0, ext_y = 0, ext_z = 0\<rparr>, image_array_layers = 0,
       image_row_size = 0, image_slice_size = 0\<rparr>),
     queues = (\<lambda>_. \<lparr>queue_id = 0, queue_device = 0\<rparr>),
     semaphores = (\<lambda>_. \<lparr>semaphore_id = 0, semaphore_device = 0\<rparr>),
     fences = (\<lambda>_. \<lparr>fence_id = 0, fence_device = 0\<rparr>),
     sync_points = (\<lambda>_. \<lparr>sync_point_id = 0, sync_point_command_buffer = 0\<rparr>),
     executables = (\<lambda>_. \<lparr>executable_id = 0, executable_device = 0\<rparr>),
     kernels = (\<lambda>_. \<lparr>kernel_id = 0, kernel_device = 0, preferred_local_size_x = 0,
       preferred_local_size_y = 0, preferred_local_size_z = 0, local_memory_size = 0\<rparr>),
     command_buffers = (\<lambda>_. \<lparr>command_buffer_id = 0, command_buffer_device = 0\<rparr>),
     query_pools = (\<lambda>_. \<lparr>query_pool_id = 0, query_pool_type = 0, query_pool_count = 0\<rparr>),
     cells = (\<lambda>_. 0), mem = (\<lambda>_. 0), live_blocks = Map.empty,
     device_infos_initialized = False\<rparr>"

end
