(* ===== verification/Mux_Api.thy ===== *)
theory Mux_Api
  imports Mux_Id Mux_Allocator
begin

unbundle bit_operations_syntax

text \<open>
  The object entry points of the Mux API (\<^verbatim>\<open>modules/mux/source/\<close>: \<^verbatim>\<open>buffer.cpp\<close>, \<^verbatim>\<open>fence.cpp\<close>,
  \<^verbatim>\<open>semaphore.cpp\<close>, \<^verbatim>\<open>queue.cpp\<close>, \<^verbatim>\<open>memory.cpp\<close>, \<^verbatim>\<open>executable.cpp\<close>, \<^verbatim>\<open>kernel.cpp\<close>, \<^verbatim>\<open>image.cpp\<close>,
  \<^verbatim>\<open>query_pool.cpp\<close>). An entry point checks its arguments in a fixed order, calls the
  generated dispatcher \<^verbatim>\<open>muxSelect*\<close>, and tags the object it got back with its identifier.
  The dispatcher is generated by the build, so every entry point takes it as its first
  argument. An entry point is a state transformer: it returns its result code and the world
  after the call; a \<^verbatim>\<open>void\<close> entry point returns the world only. Tracing is left out.
\<close>

type_synonym 'a mux_call = "'a mux_world_scheme \<Rightarrow> mux_result_t \<times> 'a mux_world_scheme"

type_synonym 'a mux_proc = "'a mux_world_scheme \<Rightarrow> 'a mux_world_scheme"

text \<open>The assignment \<^verbatim>\<open>*p = v\<close> to a 64-bit variable.\<close>

definition set_cell :: "ptr \<Rightarrow> u64 \<Rightarrow> 'a mux_proc" where
  "set_cell p v w = w\<lparr>cells := (cells w)(p := v)\<rparr>"

section \<open>Buffers\<close>

definition muxCreateBuffer ::
  "(ptr \<Rightarrow> u64 \<Rightarrow> mux_allocator_info_s \<Rightarrow> ptr \<Rightarrow> 'a mux_call)
    \<Rightarrow> ptr \<Rightarrow> u64 \<Rightarrow> mux_allocator_info_s \<Rightarrow> ptr \<Rightarrow> 'a mux_call" where
  [mux_api]: "muxCreateBuffer muxSelectCreateBuffer device sz allocator_info out_memory w =
     (if device_is_invalid w device then (mux_error_invalid_value, w)
      else if sz = 0 then (mux_error_invalid_value, w)
      else if allocatorInfoIsInvalid allocator_info then (mux_error_null_allocator_callback, w)
      else if out_memory = 0 then (mux_error_null_out_parameter, w)
      else case muxSelectCreateBuffer device sz allocator_info out_memory w of (error, w') \<Rightarrow>
        if error = mux_success
        then (error, setId_buffer (info_id (info_of w' device)) (cells w' out_memory) w')
        else (error, w'))"

definition muxDestroyBuffer ::
  "(ptr \<Rightarrow> ptr \<Rightarrow> mux_allocator_info_s \<Rightarrow> 'a mux_proc)
    \<Rightarrow> ptr \<Rightarrow> ptr \<Rightarrow> mux_allocator_info_s \<Rightarrow> 'a mux_proc" where
  [mux_api]: "muxDestroyBuffer muxSelectDestroyBuffer device memory allocator_info w =
     (if device_is_invalid w device then w
      else if buffer_is_invalid w memory then w
      else if allocatorInfoIsInvalid allocator_info then w
      else muxSelectDestroyBuffer device memory allocator_info w)"

definition muxBindBufferMemory ::
  "(ptr \<Rightarrow> ptr \<Rightarrow> ptr \<Rightarrow> u64 \<Rightarrow> 'a mux_call)
    \<Rightarrow> ptr \<Rightarrow> ptr \<Rightarrow> ptr \<Rightarrow> u64 \<Rightarrow> 'a mux_call" where
  [mux_api]: "muxBindBufferMemory muxSelectBindBufferMemory device memory buffer offset w =
     (if device_is_invalid w device then (mux_error_invalid_value, w)
      else if memory_is_invalid w memory then (mux_error_invalid_value, w)
      else if buffer_is_invalid w buffer then (mux_error_invalid_value, w)
      else if memory_size (memories w memory) < offset then (mux_error_invalid_value, w)
      else if memory_size (memories w memory)
                < req_size (buffer_requirements (buffers w buffer)) + offset
      then (mux_error_invalid_value, w)
      else muxSelectBindBufferMemory device memory buffer offset w)"

section \<open>Fences and semaphores\<close>

definition muxCreateFence ::
  "(ptr \<Rightarrow> mux_allocator_info_s \<Rightarrow> ptr \<Rightarrow> 'a mux_call)
    \<Rightarrow> ptr \<Rightarrow> mux_allocator_info_s \<Rightarrow> ptr \<Rightarrow> 'a mux_call" where
  [mux_api]: "muxCreateFence muxSelectCreateFence device allocator_info out_fence w =
     (if device_is_invalid w device then (mux_error_invalid_value, w)
      else if allocatorInfoIsInvalid allocator_info then (mux_error_null_allocator_callback, w)
      else if out_fence = 0 then (mux_error_null_out_parameter, w)
      else case muxSelectCreateFence device allocator_info out_fence w of (error, w') \<Rightarrow>
        if error = mux_success
        then (error, setId_fence (info_id (info_of w' device)) (cells w' out_fence) w')
        else (error, w'))"

definition muxDestroyFence ::
  "(ptr \<Rightarrow> ptr \<Rightarrow> mux_allocator_info_s \<Rightarrow> 'a mux_proc)
    \<Rightarrow> ptr \<Rightarrow> ptr \<Rightarrow> mux_allocator_info_s \<Rightarrow> 'a mux_proc" where
  [mux_api]: "muxDestroyFence muxSelectDestroyFence device fence allocator_info w =
     (if device_is_invalid w device then w
      else if fence_is_invalid w fence then w
      else if allocatorInfoIsInvalid allocator_info then w
      else muxSelectDestroyFence device fence allocator_info w)"

definition muxResetFence :: "(ptr \<Rightarrow> 'a mux_call) \<Rightarrow> ptr \<Rightarrow> 'a mux_call" where
  [mux_api]: "muxResetFence muxSelectResetFence fence w =
     (if fence_is_invalid w fence then (mux_error_invalid_value, w)
      else muxSelectResetFence fence w)"

definition muxCreateSemaphore ::
  "(ptr \<Rightarrow> mux_allocator_info_s \<Rightarrow> ptr \<Rightarrow> 'a mux_call)
    \<Rightarrow> ptr \<Rightarrow> mux_allocator_info_s \<Rightarrow> ptr \<Rightarrow> 'a mux_call" where
  [mux_api]: "muxCreateSemaphore muxSelectCreateSemaphore device allocator_info out_semaphore w =
     (if device_is_invalid w device then (mux_error_invalid_value, w)
      else if allocatorInfoIsInvalid allocator_info then (mux_error_null_allocator_callback, w)
      else if out_semaphore = 0 then (mux_error_null_out_parameter, w)
      else case muxSelectCreateSemaphore device allocator_info out_semaphore w of (error, w') \<Rightarrow>
        if error = mux_success
        then (error, setId_semaphore (info_id (info_of w' device)) (cells w' out_semaphore) w')
        else (error, w'))"

definition muxDestroySemaphore ::
  "(ptr \<Rightarrow> ptr \<Rightarrow> mux_allocator_info_s \<Rightarrow> 'a mux_proc)
    \<Rightarrow> ptr \<Rightarrow> ptr \<Rightarrow> mux_allocator_info_s \<Rightarrow> 'a mux_proc" where
  [mux_api]: "muxDestroySemaphore muxSelectDestroySemaphore device semaphore allocator_info w =
     (if device_is_invalid w device then w
      else if semaphore_is_invalid w semaphore then w
      else if allocatorInfoIsInvalid allocator_info then w
      else muxSelectDestroySemaphore device semaphore allocator_info w)"

definition muxResetSemaphore :: "(ptr \<Rightarrow> 'a mux_call) \<Rightarrow> ptr \<Rightarrow> 'a mux_call" where
  [mux_api]: "muxResetSemaphore muxSelectResetSemaphore semaphore w =
     (if semaphore_is_invalid w semaphore then (mux_error_invalid_value, w)
      else muxSelectResetSemaphore semaphore w)"

section \<open>Queues\<close>

definition muxGetQueue ::
  "(ptr \<Rightarrow> u32 \<Rightarrow> u32 \<Rightarrow> ptr \<Rightarrow> 'a mux_call) \<Rightarrow> ptr \<Rightarrow> u32 \<Rightarrow> u32 \<Rightarrow> ptr \<Rightarrow> 'a mux_call" where
  [mux_api]: "muxGetQueue muxSelectGetQueue device queue_type queue_index out_queue w =
     (if device_is_invalid w device then (mux_error_invalid_value, w)
      else if queue_type \<noteq> mux_queue_type_compute then (mux_error_invalid_value, w)
      else if queue_types (info_of w device) queue_type \<le> queue_index
      then (mux_error_invalid_value, w)
      else if out_queue = 0 then (mux_error_null_out_parameter, w)
      else muxSelectGetQueue device queue_type queue_index out_queue w)"

text \<open>The loops over the handles of a semaphore list.\<close>

definition semaphore_list_is_invalid :: "'a mux_world_scheme \<Rightarrow> ptr \<Rightarrow> u32 \<Rightarrow> bool" where
  "semaphore_list_is_invalid w list n \<longleftrightarrow>
     (\<exists>i \<in> set [0..<unat n]. semaphore_is_invalid w (handle_at w list i))"

text \<open>
  The callback of a dispatch is a function pointer and a user data pointer; both are passed
  on as they are, so the model carries them as addresses.
\<close>

definition muxDispatch ::
  "(ptr \<Rightarrow> ptr \<Rightarrow> ptr \<Rightarrow> ptr \<Rightarrow> u32 \<Rightarrow> ptr \<Rightarrow> u32 \<Rightarrow> ptr \<Rightarrow> ptr \<Rightarrow> 'a mux_call)
    \<Rightarrow> ptr \<Rightarrow> ptr \<Rightarrow> ptr \<Rightarrow> ptr \<Rightarrow> u32 \<Rightarrow> ptr \<Rightarrow> u32 \<Rightarrow> ptr \<Rightarrow> ptr \<Rightarrow> 'a mux_call" where
  [mux_api]: "muxDispatch muxSelectDispatch queue command_buffer fence wait_semaphores
       wait_semaphores_length signal_semaphores signal_semaphores_length user_function user_data w =
     (if queue_is_invalid w queue then (mux_error_invalid_value, w)
      else if command_buffer_is_invalid w command_buffer then (mux_error_invalid_value, w)
      else if fence \<noteq> 0 \<and> fence_is_invalid w fence then (mux_error_invalid_value, w)
      else if (wait_semaphores = 0) \<noteq> (wait_semaphores_length = 0)
      then (mux_error_invalid_value, w)
      else if semaphore_list_is_invalid w wait_semaphores wait_semaphores_length
      then (mux_error_invalid_value, w)
      else if (signal_semaphores = 0) \<noteq> (signal_semaphores_length = 0)
      then (mux_error_invalid_value, w)
      else if semaphore_list_is_invalid w signal_semaphores signal_semaphores_length
      then (mux_error_invalid_value, w)
      else if user_function = 0 \<and> user_data \<noteq> 0 then (mux_error_invalid_value, w)
      else muxSelectDispatch queue command_buffer fence wait_semaphores wait_semaphores_length
             signal_semaphores signal_semaphores_length user_function user_data w)"

definition muxTryWait ::
  "(ptr \<Rightarrow> u64 \<Rightarrow> ptr \<Rightarrow> 'a mux_call) \<Rightarrow> ptr \<Rightarrow> u64 \<Rightarrow> ptr \<Rightarrow> 'a mux_call" where
  [mux_api]: "muxTryWait muxSelectTryWait queue timeout fence w =
     (if queue_is_invalid w queue then (mux_error_invalid_value, w)
      else if fence_is_invalid w fence then (mux_error_invalid_value, w)
      else muxSelectTryWait queue timeout fence w)"

definition muxWaitAll :: "(ptr \<Rightarrow> 'a mux_call) \<Rightarrow> ptr \<Rightarrow> 'a mux_call" where
  [mux_api]: "muxWaitAll muxSelectWaitAll queue w =
     (if queue_is_invalid w queue then (mux_error_invalid_value, w)
      else muxSelectWaitAll queue w)"

section \<open>Memory\<close>

definition muxAllocateMemory ::
  "(ptr \<Rightarrow> u64 \<Rightarrow> u32 \<Rightarrow> u32 \<Rightarrow> u32 \<Rightarrow> u32 \<Rightarrow> mux_allocator_info_s \<Rightarrow> ptr \<Rightarrow> 'a mux_call)
    \<Rightarrow> ptr \<Rightarrow> u64 \<Rightarrow> u32 \<Rightarrow> u32 \<Rightarrow> u32 \<Rightarrow> u32 \<Rightarrow> mux_allocator_info_s \<Rightarrow> ptr \<Rightarrow> 'a mux_call" where
  [mux_api]: "muxAllocateMemory muxSelectAllocateMemory device sz heap properties
       allocation_type alignment allocator_info out_memory w =
     (if device_is_invalid w device then (mux_error_invalid_value, w)
      else if sz = 0 then (mux_error_invalid_value, w)
      else if properties AND
          NOT (mux_memory_property_device_local OR mux_memory_property_host_visible OR
               mux_memory_property_host_coherent OR mux_memory_property_host_cached) \<noteq> 0
      then (mux_error_invalid_value, w)
      else if properties = 0 then (mux_error_invalid_value, w)
      else if allocation_type \<noteq> mux_allocation_type_alloc_host
            \<and> allocation_type \<noteq> mux_allocation_type_alloc_device
      then (mux_error_invalid_value, w)
      else if alignment AND (alignment - 1) \<noteq> 0 then (mux_error_invalid_value, w)
      else if allocatorInfoIsInvalid allocator_info then (mux_error_null_allocator_callback, w)
      else if out_memory = 0 then (mux_error_null_out_parameter, w)
      else case muxSelectAllocateMemory device sz heap properties allocation_type alignment
                  allocator_info out_memory w of (error, w') \<Rightarrow>
        if error = mux_success
        then (error, setId_memory (info_id (info_of w' device)) (cells w' out_memory) w')
        else (error, w'))"

definition muxCreateMemoryFromHost ::
  "(ptr \<Rightarrow> u64 \<Rightarrow> ptr \<Rightarrow> mux_allocator_info_s \<Rightarrow> ptr \<Rightarrow> 'a mux_call)
    \<Rightarrow> ptr \<Rightarrow> u64 \<Rightarrow> ptr \<Rightarrow> mux_allocator_info_s \<Rightarrow> ptr \<Rightarrow> 'a mux_call" where
  [mux_api]: "muxCreateMemoryFromHost muxSelectCreateMemoryFromHost device sz host_pointer
       allocator_info out_memory w =
     (if device_is_invalid w device then (mux_error_invalid_value, w)
      else if out_memory = 0 then (mux_error_null_out_parameter, w)
      else if host_pointer = 0 then (mux_error_invalid_value, w)
      else if sz = 0 then (mux_error_invalid_value, w)
      else if allocatorInfoIsInvalid allocator_info then (mux_error_null_allocator_callback, w)
      else if allocation_capabilities (info_of w device)
                AND mux_allocation_capabilities_cached_host = 0
      then (mux_error_feature_unsupported, w)
      else case muxSelectCreateMemoryFromHost device sz host_pointer allocator_info out_memory w
           of (error, w') \<Rightarrow>
        if error = mux_success
        then (error, setId_memory (info_id (info_of w' device)) (cells w' out_memory) w')
        else (error, w'))"

definition muxFreeMemory ::
  "(ptr \<Rightarrow> ptr \<Rightarrow> mux_allocator_info_s \<Rightarrow> 'a mux_proc)
    \<Rightarrow> ptr \<Rightarrow> ptr \<Rightarrow> mux_allocator_info_s \<Rightarrow> 'a mux_proc" where
  [mux_api]: "muxFreeMemory muxSelectFreeMemory device memory allocator_info w =
     (if device_is_invalid w device then w
      else if memory_is_invalid w memory then w
      else if allocatorInfoIsInvalid allocator_info then w
      else muxSelectFreeMemory device memory allocator_info w)"

definition muxMapMemory ::
  "(ptr \<Rightarrow> ptr \<Rightarrow> u64 \<Rightarrow> u64 \<Rightarrow> ptr \<Rightarrow> 'a mux_call)
    \<Rightarrow> ptr \<Rightarrow> ptr \<Rightarrow> u64 \<Rightarrow> u64 \<Rightarrow> ptr \<Rightarrow> 'a mux_call" where
  [mux_api]: "muxMapMemory muxSelectMapMemory device memory offset sz out_data w =
     (if device_is_invalid w device then (mux_error_invalid_value, w)
      else if memory_is_invalid w memory then (mux_error_invalid_value, w)
      else if memory_size (memories w memory) < offset + sz then (mux_error_invalid_value, w)
      else if memory_properties (memories w memory) AND mux_memory_property_device_local \<noteq> 0
      then (mux_error_invalid_value, w)
      else if sz = 0 then (mux_error_invalid_value, w)
      else if out_data = 0 then (mux_error_null_out_parameter, w)
      else muxSelectMapMemory device memory offset sz out_data w)"

definition muxFlushMappedMemoryToDevice ::
  "(ptr \<Rightarrow> ptr \<Rightarrow> u64 \<Rightarrow> u64 \<Rightarrow> 'a mux_call) \<Rightarrow> ptr \<Rightarrow> ptr \<Rightarrow> u64 \<Rightarrow> u64 \<Rightarrow> 'a mux_call" where
  [mux_api]: "muxFlushMappedMemoryToDevice muxSelectFlushMappedMemoryToDevice device memory
       offset sz w =
     (if device_is_invalid w device then (mux_error_invalid_value, w)
      else if memory_is_invalid w memory then (mux_error_invalid_value, w)
      else if memory_size (memories w memory) < offset + sz then (mux_error_invalid_value, w)
      else muxSelectFlushMappedMemoryToDevice device memory offset sz w)"

definition muxFlushMappedMemoryFromDevice ::
  "(ptr \<Rightarrow> ptr \<Rightarrow> u64 \<Rightarrow> u64 \<Rightarrow> 'a mux_call) \<Rightarrow> ptr \<Rightarrow> ptr \<Rightarrow> u64 \<Rightarrow> u64 \<Rightarrow> 'a mux_call" where
  [mux_api]: "muxFlushMappedMemoryFromDevice muxSelectFlushMappedMemoryFromDevice device memory
       offset sz w =
     (if device_is_invalid w device then (mux_error_invalid_value, w)
      else if memory_is_invalid w memory then (mux_error_invalid_value, w)
      else if memory_size (memories w memory) < offset + sz then (mux_error_invalid_value, w)
      else muxSelectFlushMappedMemoryFromDevice device memory offset sz w)"

definition muxUnmapMemory :: "(ptr \<Rightarrow> ptr \<Rightarrow> 'a mux_call) \<Rightarrow> ptr \<Rightarrow> ptr \<Rightarrow> 'a mux_call" where
  [mux_api]: "muxUnmapMemory muxSelectUnmapMemory device memory w =
     (if device_is_invalid w device then (mux_error_invalid_value, w)
      else if memory_is_invalid w memory then (mux_error_invalid_value, w)
      else muxSelectUnmapMemory device memory w)"

section \<open>Executables and kernels\<close>

definition muxCreateExecutable ::
  "(ptr \<Rightarrow> ptr \<Rightarrow> u64 \<Rightarrow> mux_allocator_info_s \<Rightarrow> ptr \<Rightarrow> 'a mux_call)
    \<Rightarrow> ptr \<Rightarrow> ptr \<Rightarrow> u64 \<Rightarrow> mux_allocator_info_s \<Rightarrow> ptr \<Rightarrow> 'a mux_call" where
  [mux_api]: "muxCreateExecutable muxSelectCreateExecutable device binary binary_length
       allocator_info out_executable w =
     (if device_is_invalid w device then (mux_error_invalid_value, w)
      else if binary = 0 then (mux_error_invalid_value, w)
      else if binary_length = 0 then (mux_error_invalid_value, w)
      else if allocatorInfoIsInvalid allocator_info then (mux_error_null_allocator_callback, w)
      else if out_executable = 0 then (mux_error_null_out_parameter, w)
      else case muxSelectCreateExecutable device binary binary_length allocator_info
                  out_executable w of (error, w') \<Rightarrow>
        if error = mux_success
        then (error, setId_executable (device_id (devices w' device)) (cells w' out_executable) w')
        else (error, w'))"

definition muxDestroyExecutable ::
  "(ptr \<Rightarrow> ptr \<Rightarrow> mux_allocator_info_s \<Rightarrow> 'a mux_proc)
    \<Rightarrow> ptr \<Rightarrow> ptr \<Rightarrow> mux_allocator_info_s \<Rightarrow> 'a mux_proc" where
  [mux_api]: "muxDestroyExecutable muxSelectDestroyExecutable device executable allocator_info w =
     (if device_is_invalid w device then w
      else if executable_is_invalid w executable then w
      else if allocatorInfoIsInvalid allocator_info then w
      else muxSelectDestroyExecutable device executable allocator_info w)"

definition muxCreateKernel ::
  "(ptr \<Rightarrow> ptr \<Rightarrow> ptr \<Rightarrow> u64 \<Rightarrow> mux_allocator_info_s \<Rightarrow> ptr \<Rightarrow> 'a mux_call)
    \<Rightarrow> ptr \<Rightarrow> ptr \<Rightarrow> ptr \<Rightarrow> u64 \<Rightarrow> mux_allocator_info_s \<Rightarrow> ptr \<Rightarrow> 'a mux_call" where
  [mux_api]: "muxCreateKernel muxSelectCreateKernel device executable name name_length
       allocator_info out_kernel w =
     (if device_is_invalid w device then (mux_error_invalid_value, w)
      else if executable_is_invalid w executable then (mux_error_invalid_value, w)
      else if name = 0 then (mux_error_invalid_value, w)
      else if name_length = 0 then (mux_error_invalid_value, w)
      else if allocatorInfoIsInvalid allocator_info then (mux_error_null_allocator_callback, w)
      else if out_kernel = 0 then (mux_error_null_out_parameter, w)
      else case muxSelectCreateKernel device executable name name_length allocator_info
                  out_kernel w of (error, w') \<Rightarrow>
        if error = mux_success
        then (error, setId_kernel (device_id (devices w' device)) (cells w' out_kernel) w')
        else (error, w'))"

definition muxCreateBuiltInKernel ::
  "(ptr \<Rightarrow> ptr \<Rightarrow> u64 \<Rightarrow> mux_allocator_info_s \<Rightarrow> ptr \<Rightarrow> 'a mux_call)
    \<Rightarrow> ptr \<Rightarrow> ptr \<Rightarrow> u64 \<Rightarrow> mux_allocator_info_s \<Rightarrow> ptr \<Rightarrow> 'a mux_call" where
  [mux_api]: "muxCreateBuiltInKernel muxSelectCreateBuiltInKernel device name name_length
       allocator_info out_kernel w =
     (if device_is_invalid w device then (mux_error_invalid_value, w)
      else if name = 0 then (mux_error_invalid_value, w)
      else if name_length = 0 then (mux_error_invalid_value, w)
      else if allocatorInfoIsInvalid allocator_info then (mux_error_null_allocator_callback, w)
      else if out_kernel = 0 then (mux_error_null_out_parameter, w)
      else case muxSelectCreateBuiltInKernel device name name_length allocator_info
                  out_kernel w of (error, w') \<Rightarrow>
        if error = mux_success
        then (error, setId_kernel (device_id (devices w' device)) (cells w' out_kernel) w')
        else (error, w'))"

definition muxQuerySubGroupSizeForLocalSize ::
  "(ptr \<Rightarrow> u64 \<Rightarrow> u64 \<Rightarrow> u64 \<Rightarrow> ptr \<Rightarrow> 'a mux_call)
    \<Rightarrow> ptr \<Rightarrow> u64 \<Rightarrow> u64 \<Rightarrow> u64 \<Rightarrow> ptr \<Rightarrow> 'a mux_call" where
  [mux_api]: "muxQuerySubGroupSizeForLocalSize muxSelectQuerySubGroupSizeForLocalSize knl
       local_size_x local_size_y local_size_z out_sub_group_size w =
     (if kernel_is_invalid w knl then (mux_error_invalid_value, w)
      else if local_size_x = 0 \<or> local_size_y = 0 \<or> local_size_z = 0
      then (mux_error_invalid_value, w)
      else if out_sub_group_size = 0 then (mux_error_null_out_parameter, w)
      else muxSelectQuerySubGroupSizeForLocalSize knl local_size_x local_size_y local_size_z
             out_sub_group_size w)"

definition muxQueryWFVInfoForLocalSize ::
  "(ptr \<Rightarrow> u64 \<Rightarrow> u64 \<Rightarrow> u64 \<Rightarrow> ptr \<Rightarrow> ptr \<Rightarrow> ptr \<Rightarrow> ptr \<Rightarrow> 'a mux_call)
    \<Rightarrow> ptr \<Rightarrow> u64 \<Rightarrow> u64 \<Rightarrow> u64 \<Rightarrow> ptr \<Rightarrow> ptr \<Rightarrow> ptr \<Rightarrow> ptr \<Rightarrow> 'a mux_call" where
  [mux_api]: "muxQueryWFVInfoForLocalSize muxSelectQueryWFVInfoForLocalSize knl
       local_size_x local_size_y local_size_z out_wfv_status
       out_work_width_x out_work_width_y out_work_width_z w =
     (if kernel_is_invalid w knl then (mux_error_invalid_value, w)
      else if local_size_x = 0 \<or> local_size_y = 0 \<or> local_size_z = 0
      then (mux_error_invalid_value, w)
      else if out_wfv_status = 0 \<and>
          \<not> (out_work_width_x \<noteq> 0 \<and> out_work_width_y \<noteq> 0 \<and> out_work_width_z \<noteq> 0)
      then (mux_error_null_out_parameter, w)
      else muxSelectQueryWFVInfoForLocalSize knl local_size_x local_size_y local_size_z
             out_wfv_status out_work_width_x out_work_width_y out_work_width_z w)"

definition muxQueryMaxNumSubGroups ::
  "(ptr \<Rightarrow> ptr \<Rightarrow> 'a mux_call) \<Rightarrow> ptr \<Rightarrow> ptr \<Rightarrow> 'a mux_call" where
  [mux_api]: "muxQueryMaxNumSubGroups muxSelectQueryMaxNumSubGroups knl
       out_max_sub_group_size w =
     (if kernel_is_invalid w knl then (mux_error_invalid_value, w)
      else if out_max_sub_group_size = 0 then (mux_error_invalid_value, w)
      else muxSelectQueryMaxNumSubGroups knl out_max_sub_group_size w)"

definition muxQueryLocalSizeForSubGroupCount ::
  "(ptr \<Rightarrow> u64 \<Rightarrow> ptr \<Rightarrow> ptr \<Rightarrow> ptr \<Rightarrow> 'a mux_call)
    \<Rightarrow> ptr \<Rightarrow> u64 \<Rightarrow> ptr \<Rightarrow> ptr \<Rightarrow> ptr \<Rightarrow> 'a mux_call" where
  [mux_api]: "muxQueryLocalSizeForSubGroupCount muxSelectQueryLocalSizeForSubGroupCount knl
       sub_group_count out_local_size_x out_local_size_y out_local_size_z w =
     (if kernel_is_invalid w knl then (mux_error_invalid_value, w)
      else if sub_group_count = 0 then (mux_error_invalid_value, w)
      else if out_local_size_x = 0 then (mux_error_null_out_parameter, w)
      else if out_local_size_y = 0 then (mux_error_null_out_parameter, w)
      else if out_local_size_z = 0 then (mux_error_null_out_parameter, w)
      else muxSelectQueryLocalSizeForSubGroupCount knl sub_group_count
             out_local_size_x out_local_size_y out_local_size_z w)"

definition muxDestroyKernel ::
  "(ptr \<Rightarrow> ptr \<Rightarrow> mux_allocator_info_s \<Rightarrow> 'a mux_proc)
    \<Rightarrow> ptr \<Rightarrow> ptr \<Rightarrow> mux_allocator_info_s \<Rightarrow> 'a mux_proc" where
  [mux_api]: "muxDestroyKernel muxSelectDestroyKernel device knl allocator_info w =
     (if device_is_invalid w device then w
      else if kernel_is_invalid w knl then w
      else if allocatorInfoIsInvalid allocator_info then w
      else muxSelectDestroyKernel device knl allocator_info w)"

section \<open>Images\<close>

definition checkMinMax :: "u32 \<Rightarrow> u32 \<Rightarrow> bool" where
  "checkMinMax value mx \<longleftrightarrow> value = 0 \<or> value > mx"

text \<open>The \<^verbatim>\<open>switch\<close> on the image type in \<^verbatim>\<open>muxCreateImage\<close>; true when the case rejects.\<close>

definition image_extent_is_invalid :: "mux_device_info_s \<Rightarrow> u32 \<Rightarrow> u32 \<Rightarrow> u32 \<Rightarrow> u32 \<Rightarrow> bool" where
  "image_extent_is_invalid info type width height depth \<longleftrightarrow>
     (if type = mux_image_type_1d
      then checkMinMax width (max_image_dimension_1d info) \<or> height \<noteq> 1 \<or> depth \<noteq> 1
      else if type = mux_image_type_2d
      then checkMinMax width (max_image_dimension_2d info)
         \<or> checkMinMax height (max_image_dimension_2d info) \<or> depth \<noteq> 1
      else if type = mux_image_type_3d
      then checkMinMax width (max_image_dimension_3d info)
         \<or> checkMinMax height (max_image_dimension_3d info)
         \<or> checkMinMax depth (max_image_dimension_3d info)
      else True)"

definition muxCreateImage ::
  "(ptr \<Rightarrow> u32 \<Rightarrow> u32 \<Rightarrow> u32 \<Rightarrow> u32 \<Rightarrow> u32 \<Rightarrow> u32 \<Rightarrow> u64 \<Rightarrow> u64
      \<Rightarrow> mux_allocator_info_s \<Rightarrow> ptr \<Rightarrow> 'a mux_call)
    \<Rightarrow> ptr \<Rightarrow> u32 \<Rightarrow> u32 \<Rightarrow> u32 \<Rightarrow> u32 \<Rightarrow> u32 \<Rightarrow> u32 \<Rightarrow> u64 \<Rightarrow> u64
    \<Rightarrow> mux_allocator_info_s \<Rightarrow> ptr \<Rightarrow> 'a mux_call" where
  [mux_api]: "muxCreateImage muxSelectCreateImage device type format width height depth
       array_layers row_size slice_size allocator_info out_image w =
     (if device_is_invalid w device then (mux_error_invalid_value, w)
      else if image_extent_is_invalid (info_of w device) type width height depth
      then (mux_error_invalid_value, w)
      else if array_layers \<noteq> 0 \<and> max_image_array_layers (info_of w device) < array_layers
      then (mux_error_invalid_value, w)
      else if allocatorInfoIsInvalid allocator_info then (mux_error_null_allocator_callback, w)
      else if out_image = 0 then (mux_error_null_out_parameter, w)
      else case muxSelectCreateImage device type format width height depth array_layers
                  row_size slice_size allocator_info out_image w of (error, w') \<Rightarrow>
        if error = mux_success
        then (error, setId_image (info_id (info_of w' device)) (cells w' out_image) w')
        else (error, w'))"

definition muxDestroyImage ::
  "(ptr \<Rightarrow> ptr \<Rightarrow> mux_allocator_info_s \<Rightarrow> 'a mux_proc)
    \<Rightarrow> ptr \<Rightarrow> ptr \<Rightarrow> mux_allocator_info_s \<Rightarrow> 'a mux_proc" where
  [mux_api]: "muxDestroyImage muxSelectDestroyImage device img allocator_info w =
     (if device_is_invalid w device then w
      else if image_is_invalid w img then w
      else if allocatorInfoIsInvalid allocator_info then w
      else muxSelectDestroyImage device img allocator_info w)"

definition muxBindImageMemory ::
  "(ptr \<Rightarrow> ptr \<Rightarrow> ptr \<Rightarrow> u64 \<Rightarrow> 'a mux_call)
    \<Rightarrow> ptr \<Rightarrow> ptr \<Rightarrow> ptr \<Rightarrow> u64 \<Rightarrow> 'a mux_call" where
  [mux_api]: "muxBindImageMemory muxSelectBindImageMemory device memory img offset w =
     (if device_is_invalid w device then (mux_error_invalid_value, w)
      else if memory_is_invalid w memory then (mux_error_invalid_value, w)
      else if image_is_invalid w img then (mux_error_invalid_value, w)
      else if memory_size (memories w memory) < offset then (mux_error_invalid_value, w)
      else if memory_size (memories w memory)
                < req_size (image_requirements (images w img)) + offset
      then (mux_error_invalid_value, w)
      else muxSelectBindImageMemory device memory img offset w)"

definition muxGetSupportedImageFormats ::
  "(ptr \<Rightarrow> u32 \<Rightarrow> u32 \<Rightarrow> u32 \<Rightarrow> ptr \<Rightarrow> ptr \<Rightarrow> 'a mux_call)
    \<Rightarrow> ptr \<Rightarrow> u32 \<Rightarrow> u32 \<Rightarrow> u32 \<Rightarrow> ptr \<Rightarrow> ptr \<Rightarrow> 'a mux_call" where
  [mux_api]: "muxGetSupportedImageFormats muxSelectGetSupportedImageFormats device img_type
       allocation_type count out_formats out_count w =
     (if device_is_invalid w device then (mux_error_invalid_value, w)
      else if img_type \<noteq> mux_image_type_1d \<and> img_type \<noteq> mux_image_type_2d
            \<and> img_type \<noteq> mux_image_type_3d
      then (mux_error_invalid_value, w)
      else if allocation_type \<noteq> mux_allocation_type_alloc_host
            \<and> allocation_type \<noteq> mux_allocation_type_alloc_device
      then (mux_error_invalid_value, w)
      else if count = 0 \<and> out_formats \<noteq> 0 then (mux_error_invalid_value, w)
      else muxSelectGetSupportedImageFormats device img_type allocation_type count
             out_formats out_count w)"

section \<open>Query pools\<close>

definition muxGetSupportedQueryCounters ::
  "(ptr \<Rightarrow> u32 \<Rightarrow> u32 \<Rightarrow> ptr \<Rightarrow> ptr \<Rightarrow> ptr \<Rightarrow> 'a mux_call)
    \<Rightarrow> ptr \<Rightarrow> u32 \<Rightarrow> u32 \<Rightarrow> ptr \<Rightarrow> ptr \<Rightarrow> ptr \<Rightarrow> 'a mux_call" where
  [mux_api]: "muxGetSupportedQueryCounters muxSelectGetSupportedQueryCounters device queue_type
       count out_counters out_descriptions out_count w =
     (if device_is_invalid w device then (mux_error_invalid_value, w)
      else if \<not> query_counter_support (info_of w device) then (mux_error_feature_unsupported, w)
      else if queue_type \<ge> mux_queue_type_total then (mux_error_invalid_value, w)
      else if count = 0 \<and> (out_counters \<noteq> 0 \<or> out_descriptions \<noteq> 0)
      then (mux_error_null_out_parameter, w)
      else if count \<noteq> 0 \<and> (out_counters = 0 \<and> out_descriptions = 0)
      then (mux_error_null_out_parameter, w)
      else if out_counters = 0 \<and> out_descriptions = 0 \<and> out_count = 0
      then (mux_error_null_out_parameter, w)
      else muxSelectGetSupportedQueryCounters device queue_type count out_counters
             out_descriptions out_count w)"

definition muxCreateQueryPool ::
  "(ptr \<Rightarrow> u32 \<Rightarrow> u32 \<Rightarrow> ptr \<Rightarrow> mux_allocator_info_s \<Rightarrow> ptr \<Rightarrow> 'a mux_call)
    \<Rightarrow> ptr \<Rightarrow> u32 \<Rightarrow> u32 \<Rightarrow> ptr \<Rightarrow> mux_allocator_info_s \<Rightarrow> ptr \<Rightarrow> 'a mux_call" where
  [mux_api]: "muxCreateQueryPool muxSelectCreateQueryPool queue query_type query_count
       query_counter_configs allocator_info out_query_pool w =
     (if queue_is_invalid w queue then (mux_error_invalid_value, w)
      else if query_count = 0 then (mux_error_invalid_value, w)
      else if query_type \<noteq> mux_query_type_duration \<and> query_type \<noteq> mux_query_type_counter
      then (mux_error_invalid_value, w)
      else if query_type = mux_query_type_duration \<and> query_counter_configs \<noteq> 0
      then (mux_error_invalid_value, w)
      else if query_type = mux_query_type_counter
            \<and> \<not> query_counter_support (info_of w (queue_device (queues w queue)))
      then (mux_error_feature_unsupported, w)
      else if query_type = mux_query_type_counter \<and> query_counter_configs = 0
      then (mux_error_invalid_value, w)
      else if out_query_pool = 0 then (mux_error_null_out_parameter, w)
      else case muxSelectCreateQueryPool queue query_type query_count query_counter_configs
                  allocator_info out_query_pool w of (error, w') \<Rightarrow>
        if error = mux_success
        then (error, setId_query_pool (device_id (devices w' (queue_device (queues w' queue))))
                       (cells w' out_query_pool) w')
        else (error, w'))"

definition muxDestroyQueryPool ::
  "(ptr \<Rightarrow> ptr \<Rightarrow> mux_allocator_info_s \<Rightarrow> 'a mux_proc)
    \<Rightarrow> ptr \<Rightarrow> ptr \<Rightarrow> mux_allocator_info_s \<Rightarrow> 'a mux_proc" where
  [mux_api]: "muxDestroyQueryPool muxSelectDestroyQueryPool queue query_pool allocator_info w =
     (if queue_is_invalid w queue then w
      else if query_pool_is_invalid w query_pool then w
      else muxSelectDestroyQueryPool queue query_pool allocator_info w)"

definition muxGetQueryCounterRequiredPasses ::
  "(ptr \<Rightarrow> u32 \<Rightarrow> ptr \<Rightarrow> ptr \<Rightarrow> 'a mux_call) \<Rightarrow> ptr \<Rightarrow> u32 \<Rightarrow> ptr \<Rightarrow> ptr \<Rightarrow> 'a mux_call" where
  [mux_api]: "muxGetQueryCounterRequiredPasses muxSelectGetQueryCounterRequiredPasses queue
       query_count query_counter_configs out_pass_count w =
     (if queue_is_invalid w queue then (mux_error_invalid_value, w)
      else if \<not> query_counter_support (info_of w (queue_device (queues w queue)))
      then (mux_error_feature_unsupported, w)
      else if query_count = 0 \<or> query_counter_configs = 0 then (mux_error_invalid_value, w)
      else if out_pass_count = 0 then (mux_error_null_out_parameter, w)
      else muxSelectGetQueryCounterRequiredPasses queue query_count query_counter_configs
             out_pass_count w)"

text \<open>Sizes of \<^verbatim>\<open>mux_query_duration_result_s\<close> and \<^verbatim>\<open>mux_query_counter_result_s\<close>.\<close>

abbreviation (input) sizeof_duration_result :: u64 where "sizeof_duration_result \<equiv> 16"

abbreviation (input) sizeof_counter_result :: u64 where "sizeof_counter_result \<equiv> 8"

definition muxGetQueryPoolResults ::
  "(ptr \<Rightarrow> ptr \<Rightarrow> u32 \<Rightarrow> u32 \<Rightarrow> u64 \<Rightarrow> ptr \<Rightarrow> u64 \<Rightarrow> 'a mux_call)
    \<Rightarrow> ptr \<Rightarrow> ptr \<Rightarrow> u32 \<Rightarrow> u32 \<Rightarrow> u64 \<Rightarrow> ptr \<Rightarrow> u64 \<Rightarrow> 'a mux_call" where
  [mux_api]: "muxGetQueryPoolResults muxSelectGetQueryPoolResults queue query_pool query_index
       query_count sz data stride w =
     (let pool = query_pools w query_pool in
      if queue_is_invalid w queue then (mux_error_invalid_value, w)
      else if query_pool_is_invalid w query_pool then (mux_error_invalid_value, w)
      else if query_index \<ge> query_pool_count pool
            \<or> query_count + query_index > query_pool_count pool
      then (mux_error_invalid_value, w)
      else if query_pool_type pool = mux_query_type_duration
            \<and> (sz < sizeof_duration_result * ucast query_count \<or> stride < sizeof_duration_result)
      then (mux_error_invalid_value, w)
      else if query_pool_type pool \<noteq> mux_query_type_duration
            \<and> query_pool_type pool = mux_query_type_counter
            \<and> (sz < sizeof_counter_result * ucast query_count \<or> stride < sizeof_counter_result)
      then (mux_error_invalid_value, w)
      else if data = 0 then (mux_error_invalid_value, w)
      else muxSelectGetQueryPoolResults queue query_pool query_index query_count sz data stride w)"

end
