(* ===== verification/Mux_Commands.thy ===== *)
theory Mux_Commands
  imports Mux_Api
begin

text \<open>
  The command buffer entry points of the Mux API
  (\<^verbatim>\<open>modules/mux/source/command_buffer.cpp\<close>). Arrays of region descriptions are lists, so a
  loop over \<^verbatim>\<open>regions_length\<close> elements is a condition on the elements of the list. All
  arithmetic is on 64-bit words and wraps as \<^verbatim>\<open>size_t\<close> does. The blocks that the source
  repeats (the shape check of a region, the overlap check, the image extent check, the
  identifier of a sync-point) are helper definitions here.
\<close>

section \<open>Command buffers\<close>

definition waitlistIsInvalid :: "'a mux_world_scheme \<Rightarrow> u32 \<Rightarrow> ptr \<Rightarrow> bool" where
  "waitlistIsInvalid w num_sync_points_in_wait_list sync_point_wait_list \<longleftrightarrow>
     (num_sync_points_in_wait_list = 0) \<noteq> (sync_point_wait_list = 0) \<or>
     (\<exists>i \<in> set [0..<unat num_sync_points_in_wait_list].
        sync_point_is_invalid w (handle_at w sync_point_wait_list i))"

definition muxCreateCommandBuffer ::
  "(ptr \<Rightarrow> ptr \<Rightarrow> mux_allocator_info_s \<Rightarrow> ptr \<Rightarrow> 'a mux_call)
    \<Rightarrow> ptr \<Rightarrow> ptr \<Rightarrow> mux_allocator_info_s \<Rightarrow> ptr \<Rightarrow> 'a mux_call" where
  [mux_api]: "muxCreateCommandBuffer muxSelectCreateCommandBuffer device callback_info
       allocator_info out_command_buffer w =
     (if device_is_invalid w device then (mux_error_invalid_value, w)
      else if allocatorInfoIsInvalid allocator_info then (mux_error_null_allocator_callback, w)
      else if out_command_buffer = 0 then (mux_error_null_out_parameter, w)
      else case muxSelectCreateCommandBuffer device callback_info allocator_info
                  out_command_buffer w of (error, w') \<Rightarrow>
        if error = mux_success
        then (error, setId_command_buffer (info_id (info_of w' device))
                       (cells w' out_command_buffer) w')
        else (error, w'))"

definition muxFinalizeCommandBuffer :: "(ptr \<Rightarrow> 'a mux_call) \<Rightarrow> ptr \<Rightarrow> 'a mux_call" where
  [mux_api]: "muxFinalizeCommandBuffer muxSelectFinalizeCommandBuffer command_buffer w =
     (if command_buffer = 0 then (mux_error_null_out_parameter, w)
      else if command_buffer_is_invalid w command_buffer then (mux_error_invalid_value, w)
      else muxSelectFinalizeCommandBuffer command_buffer w)"

definition muxCloneCommandBuffer ::
  "(ptr \<Rightarrow> mux_allocator_info_s \<Rightarrow> ptr \<Rightarrow> ptr \<Rightarrow> 'a mux_call)
    \<Rightarrow> ptr \<Rightarrow> mux_allocator_info_s \<Rightarrow> ptr \<Rightarrow> ptr \<Rightarrow> 'a mux_call" where
  [mux_api]: "muxCloneCommandBuffer muxSelectCloneCommandBuffer device allocator_info
       command_buffer out_command_buffer w =
     (if device_is_invalid w device then (mux_error_invalid_value, w)
      else if allocatorInfoIsInvalid allocator_info then (mux_error_null_allocator_callback, w)
      else if command_buffer_is_invalid w command_buffer then (mux_error_invalid_value, w)
      else if out_command_buffer = 0 then (mux_error_null_out_parameter, w)
      else case muxSelectCloneCommandBuffer device allocator_info command_buffer
                  out_command_buffer w of (error, w') \<Rightarrow>
        if error = mux_success
        then (error, setId_command_buffer (info_id (info_of w' device))
                       (cells w' out_command_buffer) w')
        else (error, w'))"

definition muxDestroyCommandBuffer ::
  "(ptr \<Rightarrow> ptr \<Rightarrow> mux_allocator_info_s \<Rightarrow> 'a mux_proc)
    \<Rightarrow> ptr \<Rightarrow> ptr \<Rightarrow> mux_allocator_info_s \<Rightarrow> 'a mux_proc" where
  [mux_api]: "muxDestroyCommandBuffer muxSelectDestroyCommandBuffer device command_buffer
       allocator_info w =
     (if device_is_invalid w device then w
      else if command_buffer_is_invalid w command_buffer then w
      else if allocatorInfoIsInvalid allocator_info then w
      else muxSelectDestroyCommandBuffer device command_buffer allocator_info w)"

definition muxResetCommandBuffer :: "(ptr \<Rightarrow> 'a mux_call) \<Rightarrow> ptr \<Rightarrow> 'a mux_call" where
  [mux_api]: "muxResetCommandBuffer muxSelectResetCommandBuffer command_buffer w =
     (if command_buffer_is_invalid w command_buffer then (mux_error_invalid_value, w)
      else muxSelectResetCommandBuffer command_buffer w)"

text \<open>
  What every command entry point does with the result of the dispatcher: a sync-point that
  was asked for gets its identifier.
\<close>

definition tag_sync_point ::
  "ptr \<Rightarrow> ptr \<Rightarrow> mux_result_t \<times> 'a mux_world_scheme \<Rightarrow> mux_result_t \<times> 'a mux_world_scheme" where
  "tag_sync_point command_buffer sync_point r =
     (case r of (error, w') \<Rightarrow>
        if error = mux_success \<and> sync_point \<noteq> 0
        then (error, setId_sync_point
               (info_id (info_of w' (command_buffer_device (command_buffers w' command_buffer))))
               (cells w' sync_point) w')
        else (error, w'))"

section \<open>Buffer commands\<close>

definition muxCommandCopyBuffer ::
  "(ptr \<Rightarrow> ptr \<Rightarrow> u64 \<Rightarrow> ptr \<Rightarrow> u64 \<Rightarrow> u64 \<Rightarrow> u32 \<Rightarrow> ptr \<Rightarrow> ptr \<Rightarrow> 'a mux_call)
    \<Rightarrow> ptr \<Rightarrow> ptr \<Rightarrow> u64 \<Rightarrow> ptr \<Rightarrow> u64 \<Rightarrow> u64 \<Rightarrow> u32 \<Rightarrow> ptr \<Rightarrow> ptr \<Rightarrow> 'a mux_call" where
  [mux_api]: "muxCommandCopyBuffer muxSelectCommandCopyBuffer command_buffer src_buffer src_offset
       dst_buffer dst_offset sz num_sync_points_in_wait_list sync_point_wait_list sync_point w =
     (if command_buffer_is_invalid w command_buffer then (mux_error_invalid_value, w)
      else if buffer_is_invalid w src_buffer then (mux_error_invalid_value, w)
      else if buffer_is_invalid w dst_buffer then (mux_error_invalid_value, w)
      else if sz = 0 then (mux_error_invalid_value, w)
      else if sz + src_offset > req_size (buffer_requirements (buffers w src_buffer))
      then (mux_error_invalid_value, w)
      else if sz + dst_offset > req_size (buffer_requirements (buffers w dst_buffer))
      then (mux_error_invalid_value, w)
      else if waitlistIsInvalid w num_sync_points_in_wait_list sync_point_wait_list
      then (mux_error_invalid_value, w)
      else tag_sync_point command_buffer sync_point
             (muxSelectCommandCopyBuffer command_buffer src_buffer src_offset dst_buffer
                dst_offset sz num_sync_points_in_wait_list sync_point_wait_list sync_point w))"

text \<open>The shape checks on one region, which the three region commands share.\<close>

definition region_shape_is_invalid :: "mux_buffer_region_info_s \<Rightarrow> bool" where
  "region_shape_is_invalid r \<longleftrightarrow>
     ext_x (region r) = 0 \<or> ext_y (region r) = 0 \<or> ext_z (region r) = 0
     \<or> ext_x (region r) > ext2_x (src_desc r) \<or> ext_x (region r) > ext2_x (dst_desc r)
     \<or> ext_y (region r) > ext2_y (src_desc r) \<or> ext_y (region r) > ext2_y (dst_desc r)"

text \<open>
  The offset of row \<open>y\<close> of slice \<open>z\<close> of a region that starts at \<open>origin\<close> in a buffer laid
  out as \<open>desc\<close>, the expression \<^verbatim>\<open>slice_offset + row_offset + origin.x\<close> of the source.
\<close>

definition row_offset :: "mux_extent_3d_s \<Rightarrow> mux_extent_2d_s \<Rightarrow> u64 \<Rightarrow> u64 \<Rightarrow> u64" where
  "row_offset origin desc z y =
     (ext_z origin + z) * ext2_y desc + (ext_y origin + y) * ext2_x desc + ext_x origin"

text \<open>The check of the last row of the last slice.\<close>

definition last_row_is_outside ::
  "mux_extent_3d_s \<Rightarrow> mux_extent_2d_s \<Rightarrow> mux_extent_3d_s \<Rightarrow> u64 \<Rightarrow> bool" where
  "last_row_is_outside origin desc reg buffer_size \<longleftrightarrow>
     row_offset origin desc (ext_z reg - 1) (ext_y reg - 1) + ext_x reg > buffer_size"

text \<open>
  The overlap check of two regions by their projections on the axes; the subtraction is on
  unsigned words.
\<close>

definition projections_meet ::
  "mux_extent_3d_s \<Rightarrow> mux_extent_3d_s \<Rightarrow> mux_extent_3d_s \<Rightarrow> bool" where
  "projections_meet a_origin b_origin a_region \<longleftrightarrow>
     \<not> ext_x b_origin - ext_x a_origin > ext_x a_region \<and>
     \<not> ext_y b_origin - ext_y a_origin > ext_y a_region \<and>
     \<not> ext_z b_origin - ext_z a_origin > ext_z a_region"

text \<open>The double loop over two different positions of the array of regions.\<close>

definition some_regions_meet ::
  "(mux_buffer_region_info_s \<Rightarrow> mux_extent_3d_s) \<Rightarrow> (mux_buffer_region_info_s \<Rightarrow> mux_extent_3d_s)
    \<Rightarrow> mux_buffer_region_info_s list \<Rightarrow> bool" where
  "some_regions_meet a_origin b_origin regions \<longleftrightarrow>
     (\<exists>i \<in> set [0..<length regions]. \<exists>j \<in> set [0..<length regions]. i \<noteq> j \<and>
        projections_meet (a_origin (regions ! i)) (b_origin (regions ! j)) (region (regions ! i)))"

definition muxCommandCopyBufferRegions ::
  "(ptr \<Rightarrow> ptr \<Rightarrow> ptr \<Rightarrow> mux_buffer_region_info_s list \<Rightarrow> u32 \<Rightarrow> ptr \<Rightarrow> ptr \<Rightarrow> 'a mux_call)
    \<Rightarrow> ptr \<Rightarrow> ptr \<Rightarrow> ptr \<Rightarrow> mux_buffer_region_info_s list \<Rightarrow> u32 \<Rightarrow> ptr \<Rightarrow> ptr \<Rightarrow> 'a mux_call" where
  [mux_api]: "muxCommandCopyBufferRegions muxSelectCommandCopyBufferRegions command_buffer
       src_buffer dst_buffer regions num_sync_points_in_wait_list sync_point_wait_list
       sync_point w =
     (if command_buffer_is_invalid w command_buffer then (mux_error_invalid_value, w)
      else if buffer_is_invalid w src_buffer then (mux_error_invalid_value, w)
      else if buffer_is_invalid w dst_buffer then (mux_error_invalid_value, w)
      else if \<exists>r \<in> set regions. region_shape_is_invalid r
           \<or> last_row_is_outside (src_origin r) (src_desc r) (region r)
               (req_size (buffer_requirements (buffers w src_buffer)))
           \<or> last_row_is_outside (dst_origin r) (dst_desc r) (region r)
               (req_size (buffer_requirements (buffers w dst_buffer)))
      then (mux_error_invalid_value, w)
      else if some_regions_meet src_origin src_origin regions
           \<or> some_regions_meet dst_origin dst_origin regions
      then (mux_error_invalid_value, w)
      else if waitlistIsInvalid w num_sync_points_in_wait_list sync_point_wait_list
      then (mux_error_invalid_value, w)
      else tag_sync_point command_buffer sync_point
             (muxSelectCommandCopyBufferRegions command_buffer src_buffer dst_buffer regions
                num_sync_points_in_wait_list sync_point_wait_list sync_point w))"

definition muxCommandFillBuffer ::
  "(ptr \<Rightarrow> ptr \<Rightarrow> u64 \<Rightarrow> u64 \<Rightarrow> ptr \<Rightarrow> u64 \<Rightarrow> u32 \<Rightarrow> ptr \<Rightarrow> ptr \<Rightarrow> 'a mux_call)
    \<Rightarrow> ptr \<Rightarrow> ptr \<Rightarrow> u64 \<Rightarrow> u64 \<Rightarrow> ptr \<Rightarrow> u64 \<Rightarrow> u32 \<Rightarrow> ptr \<Rightarrow> ptr \<Rightarrow> 'a mux_call" where
  [mux_api]: "muxCommandFillBuffer muxSelectCommandFillBuffer command_buffer buffer offset sz
       pattern_pointer pattern_size num_sync_points_in_wait_list sync_point_wait_list
       sync_point w =
     (if command_buffer_is_invalid w command_buffer then (mux_error_invalid_value, w)
      else if buffer_is_invalid w buffer then (mux_error_invalid_value, w)
      else if sz = 0 then (mux_error_invalid_value, w)
      else if sz + offset > req_size (buffer_requirements (buffers w buffer))
      then (mux_error_invalid_value, w)
      else if pattern_pointer = 0 then (mux_error_invalid_value, w)
      else if pattern_size = 0 then (mux_error_invalid_value, w)
      else if waitlistIsInvalid w num_sync_points_in_wait_list sync_point_wait_list
      then (mux_error_invalid_value, w)
      else tag_sync_point command_buffer sync_point
             (muxSelectCommandFillBuffer command_buffer buffer offset sz pattern_pointer
                pattern_size num_sync_points_in_wait_list sync_point_wait_list sync_point w))"

definition muxCommandReadBuffer ::
  "(ptr \<Rightarrow> ptr \<Rightarrow> u64 \<Rightarrow> ptr \<Rightarrow> u64 \<Rightarrow> u32 \<Rightarrow> ptr \<Rightarrow> ptr \<Rightarrow> 'a mux_call)
    \<Rightarrow> ptr \<Rightarrow> ptr \<Rightarrow> u64 \<Rightarrow> ptr \<Rightarrow> u64 \<Rightarrow> u32 \<Rightarrow> ptr \<Rightarrow> ptr \<Rightarrow> 'a mux_call" where
  [mux_api]: "muxCommandReadBuffer muxSelectCommandReadBuffer command_buffer buffer offset
       host_pointer sz num_sync_points_in_wait_list sync_point_wait_list sync_point w =
     (if command_buffer_is_invalid w command_buffer then (mux_error_invalid_value, w)
      else if buffer_is_invalid w buffer then (mux_error_invalid_value, w)
      else if sz = 0 then (mux_error_invalid_value, w)
      else if sz + offset > req_size (buffer_requirements (buffers w buffer))
      then (mux_error_invalid_value, w)
      else if host_pointer = 0 then (mux_error_invalid_value, w)
      else if waitlistIsInvalid w num_sync_points_in_wait_list sync_point_wait_list
      then (mux_error_invalid_value, w)
      else tag_sync_point command_buffer sync_point
             (muxSelectCommandReadBuffer command_buffer buffer offset host_pointer sz
                num_sync_points_in_wait_list sync_point_wait_list sync_point w))"

definition muxCommandReadBufferRegions ::
  "(ptr \<Rightarrow> ptr \<Rightarrow> ptr \<Rightarrow> mux_buffer_region_info_s list \<Rightarrow> u32 \<Rightarrow> ptr \<Rightarrow> ptr \<Rightarrow> 'a mux_call)
    \<Rightarrow> ptr \<Rightarrow> ptr \<Rightarrow> ptr \<Rightarrow> mux_buffer_region_info_s list \<Rightarrow> u32 \<Rightarrow> ptr \<Rightarrow> ptr \<Rightarrow> 'a mux_call" where
  [mux_api]: "muxCommandReadBufferRegions muxSelectCommandReadBufferRegions command_buffer
       buffer host_pointer regions num_sync_points_in_wait_list sync_point_wait_list
       sync_point w =
     (if command_buffer_is_invalid w command_buffer then (mux_error_invalid_value, w)
      else if buffer_is_invalid w buffer then (mux_error_invalid_value, w)
      else if host_pointer = 0 then (mux_error_invalid_value, w)
      else if \<exists>r \<in> set regions. region_shape_is_invalid r
           \<or> last_row_is_outside (src_origin r) (src_desc r) (region r)
               (req_size (buffer_requirements (buffers w buffer)))
      then (mux_error_invalid_value, w)
      else if some_regions_meet dst_origin src_origin regions
      then (mux_error_invalid_value, w)
      else if waitlistIsInvalid w num_sync_points_in_wait_list sync_point_wait_list
      then (mux_error_invalid_value, w)
      else tag_sync_point command_buffer sync_point
             (muxSelectCommandReadBufferRegions command_buffer buffer host_pointer regions
                num_sync_points_in_wait_list sync_point_wait_list sync_point w))"

definition muxCommandWriteBuffer ::
  "(ptr \<Rightarrow> ptr \<Rightarrow> u64 \<Rightarrow> ptr \<Rightarrow> u64 \<Rightarrow> u32 \<Rightarrow> ptr \<Rightarrow> ptr \<Rightarrow> 'a mux_call)
    \<Rightarrow> ptr \<Rightarrow> ptr \<Rightarrow> u64 \<Rightarrow> ptr \<Rightarrow> u64 \<Rightarrow> u32 \<Rightarrow> ptr \<Rightarrow> ptr \<Rightarrow> 'a mux_call" where
  [mux_api]: "muxCommandWriteBuffer muxSelectCommandWriteBuffer command_buffer buffer offset
       host_pointer sz num_sync_points_in_wait_list sync_point_wait_list sync_point w =
     (if command_buffer_is_invalid w command_buffer then (mux_error_invalid_value, w)
      else if buffer_is_invalid w buffer then (mux_error_invalid_value, w)
      else if sz = 0 then (mux_error_invalid_value, w)
      else if sz + offset > req_size (buffer_requirements (buffers w buffer))
      then (mux_error_invalid_value, w)
      else if host_pointer = 0 then (mux_error_invalid_value, w)
      else if waitlistIsInvalid w num_sync_points_in_wait_list sync_point_wait_list
      then (mux_error_invalid_value, w)
      else tag_sync_point command_buffer sync_point
             (muxSelectCommandWriteBuffer command_buffer buffer offset host_pointer sz
                num_sync_points_in_wait_list sync_point_wait_list sync_point w))"

definition muxCommandWriteBufferRegions ::
  "(ptr \<Rightarrow> ptr \<Rightarrow> ptr \<Rightarrow> mux_buffer_region_info_s list \<Rightarrow> u32 \<Rightarrow> ptr \<Rightarrow> ptr \<Rightarrow> 'a mux_call)
    \<Rightarrow> ptr \<Rightarrow> ptr \<Rightarrow> ptr \<Rightarrow> mux_buffer_region_info_s list \<Rightarrow> u32 \<Rightarrow> ptr \<Rightarrow> ptr \<Rightarrow> 'a mux_call" where
  [mux_api]: "muxCommandWriteBufferRegions muxSelectCommandWriteBufferRegions command_buffer
       buffer host_pointer regions num_sync_points_in_wait_list sync_point_wait_list
       sync_point w =
     (if command_buffer_is_invalid w command_buffer then (mux_error_invalid_value, w)
      else if buffer_is_invalid w buffer then (mux_error_invalid_value, w)
      else if host_pointer = 0 then (mux_error_invalid_value, w)
      else if \<exists>r \<in> set regions. region_shape_is_invalid r
           \<or> last_row_is_outside (src_origin r) (src_desc r) (region r)
               (req_size (buffer_requirements (buffers w buffer)))
      then (mux_error_invalid_value, w)
      else if some_regions_meet dst_origin dst_origin regions
      then (mux_error_invalid_value, w)
      else if waitlistIsInvalid w num_sync_points_in_wait_list sync_point_wait_list
      then (mux_error_invalid_value, w)
      else tag_sync_point command_buffer sync_point
             (muxSelectCommandWriteBufferRegions command_buffer buffer host_pointer regions
                num_sync_points_in_wait_list sync_point_wait_list sync_point w))"

section \<open>Image commands\<close>

text \<open>The size of an image with its array layers as the next dimension.\<close>

definition layered_size :: "mux_image_s \<Rightarrow> mux_extent_3d_s" where
  "layered_size img =
     (if image_array_layers img \<noteq> 0 then
        if image_type img = mux_image_type_1d
        then (image_size img)\<lparr>ext_y := ucast (image_array_layers img)\<rparr>
        else if image_type img = mux_image_type_2d
        then (image_size img)\<lparr>ext_z := ucast (image_array_layers img)\<rparr>
        else image_size img
      else image_size img)"

definition exceeds_image :: "mux_image_s \<Rightarrow> mux_offset_3d_s \<Rightarrow> mux_extent_3d_s \<Rightarrow> bool" where
  "exceeds_image img offset extent \<longleftrightarrow>
     (let sz = layered_size img in
      ext_x sz < ucast (off_x offset) + ext_x extent
      \<or> ext_y sz < ucast (off_y offset) + ext_y extent
      \<or> ext_z sz < ucast (off_z offset) + ext_z extent)"

definition muxCommandReadImage ::
  "(ptr \<Rightarrow> ptr \<Rightarrow> mux_offset_3d_s \<Rightarrow> mux_extent_3d_s \<Rightarrow> u64 \<Rightarrow> u64 \<Rightarrow> ptr \<Rightarrow> u32 \<Rightarrow> ptr \<Rightarrow> ptr
      \<Rightarrow> 'a mux_call)
    \<Rightarrow> ptr \<Rightarrow> ptr \<Rightarrow> mux_offset_3d_s \<Rightarrow> mux_extent_3d_s \<Rightarrow> u64 \<Rightarrow> u64 \<Rightarrow> ptr \<Rightarrow> u32 \<Rightarrow> ptr \<Rightarrow> ptr
    \<Rightarrow> 'a mux_call" where
  [mux_api]: "muxCommandReadImage muxSelectCommandReadImage command_buffer img offset extent
       row_size slice_size pointer num_sync_points_in_wait_list sync_point_wait_list
       sync_point w =
     (if command_buffer_is_invalid w command_buffer then (mux_error_invalid_value, w)
      else if image_is_invalid w img then (mux_error_invalid_value, w)
      else if exceeds_image (images w img) offset extent then (mux_error_invalid_value, w)
      else if pointer = 0 then (mux_error_null_out_parameter, w)
      else if waitlistIsInvalid w num_sync_points_in_wait_list sync_point_wait_list
      then (mux_error_invalid_value, w)
      else tag_sync_point command_buffer sync_point
             (muxSelectCommandReadImage command_buffer img offset extent row_size slice_size
                pointer num_sync_points_in_wait_list sync_point_wait_list sync_point w))"

definition muxCommandWriteImage ::
  "(ptr \<Rightarrow> ptr \<Rightarrow> mux_offset_3d_s \<Rightarrow> mux_extent_3d_s \<Rightarrow> u64 \<Rightarrow> u64 \<Rightarrow> ptr \<Rightarrow> u32 \<Rightarrow> ptr \<Rightarrow> ptr
      \<Rightarrow> 'a mux_call)
    \<Rightarrow> ptr \<Rightarrow> ptr \<Rightarrow> mux_offset_3d_s \<Rightarrow> mux_extent_3d_s \<Rightarrow> u64 \<Rightarrow> u64 \<Rightarrow> ptr \<Rightarrow> u32 \<Rightarrow> ptr \<Rightarrow> ptr
    \<Rightarrow> 'a mux_call" where
  [mux_api]: "muxCommandWriteImage muxSelectCommandWriteImage command_buffer img offset extent
       row_size slice_size pointer num_sync_points_in_wait_list sync_point_wait_list
       sync_point w =
     (if command_buffer_is_invalid w command_buffer then (mux_error_invalid_value, w)
      else if image_is_invalid w img then (mux_error_invalid_value, w)
      else if exceeds_image (images w img) offset extent then (mux_error_invalid_value, w)
      else if pointer = 0 then (mux_error_null_out_parameter, w)
      else if waitlistIsInvalid w num_sync_points_in_wait_list sync_point_wait_list
      then (mux_error_invalid_value, w)
      else tag_sync_point command_buffer sync_point
             (muxSelectCommandWriteImage command_buffer img offset extent row_size slice_size
                pointer num_sync_points_in_wait_list sync_point_wait_list sync_point w))"

definition muxCommandFillImage ::
  "(ptr \<Rightarrow> ptr \<Rightarrow> ptr \<Rightarrow> u32 \<Rightarrow> mux_offset_3d_s \<Rightarrow> mux_extent_3d_s \<Rightarrow> u32 \<Rightarrow> ptr \<Rightarrow> ptr
      \<Rightarrow> 'a mux_call)
    \<Rightarrow> ptr \<Rightarrow> ptr \<Rightarrow> ptr \<Rightarrow> u32 \<Rightarrow> mux_offset_3d_s \<Rightarrow> mux_extent_3d_s \<Rightarrow> u32 \<Rightarrow> ptr \<Rightarrow> ptr
    \<Rightarrow> 'a mux_call" where
  [mux_api]: "muxCommandFillImage muxSelectCommandFillImage command_buffer img color color_size
       offset extent num_sync_points_in_wait_list sync_point_wait_list sync_point w =
     (if command_buffer_is_invalid w command_buffer then (mux_error_invalid_value, w)
      else if image_is_invalid w img then (mux_error_invalid_value, w)
      else if color = 0 then (mux_error_invalid_value, w)
      else if color_size = 0 then (mux_error_invalid_value, w)
      else if 16 < color_size then (mux_error_invalid_value, w)
      else if exceeds_image (images w img) offset extent then (mux_error_invalid_value, w)
      else if waitlistIsInvalid w num_sync_points_in_wait_list sync_point_wait_list
      then (mux_error_invalid_value, w)
      else tag_sync_point command_buffer sync_point
             (muxSelectCommandFillImage command_buffer img color color_size offset extent
                num_sync_points_in_wait_list sync_point_wait_list sync_point w))"

definition muxCommandCopyImage ::
  "(ptr \<Rightarrow> ptr \<Rightarrow> ptr \<Rightarrow> mux_offset_3d_s \<Rightarrow> mux_offset_3d_s \<Rightarrow> mux_extent_3d_s \<Rightarrow> u32 \<Rightarrow> ptr \<Rightarrow> ptr
      \<Rightarrow> 'a mux_call)
    \<Rightarrow> ptr \<Rightarrow> ptr \<Rightarrow> ptr \<Rightarrow> mux_offset_3d_s \<Rightarrow> mux_offset_3d_s \<Rightarrow> mux_extent_3d_s \<Rightarrow> u32 \<Rightarrow> ptr \<Rightarrow> ptr
    \<Rightarrow> 'a mux_call" where
  [mux_api]: "muxCommandCopyImage muxSelectCommandCopyImage command_buffer src_image dst_image
       src_offset dst_offset extent num_sync_points_in_wait_list sync_point_wait_list
       sync_point w =
     (if command_buffer_is_invalid w command_buffer then (mux_error_invalid_value, w)
      else if image_is_invalid w src_image then (mux_error_invalid_value, w)
      else if image_is_invalid w dst_image then (mux_error_invalid_value, w)
      else if exceeds_image (images w src_image) src_offset extent
      then (mux_error_invalid_value, w)
      else if exceeds_image (images w dst_image) dst_offset extent
      then (mux_error_invalid_value, w)
      else if waitlistIsInvalid w num_sync_points_in_wait_list sync_point_wait_list
      then (mux_error_invalid_value, w)
      else tag_sync_point command_buffer sync_point
             (muxSelectCommandCopyImage command_buffer src_image dst_image src_offset dst_offset
                extent num_sync_points_in_wait_list sync_point_wait_list sync_point w))"

text \<open>The product \<^verbatim>\<open>pixel_size * extent.x * extent.y * extent.z\<close>.\<close>

definition pixel_bytes :: "mux_image_s \<Rightarrow> mux_extent_3d_s \<Rightarrow> u64" where
  "pixel_bytes img extent =
     ucast (image_pixel_size img) * ext_x extent * ext_y extent * ext_z extent"

definition muxCommandCopyImageToBuffer ::
  "(ptr \<Rightarrow> ptr \<Rightarrow> ptr \<Rightarrow> mux_offset_3d_s \<Rightarrow> u64 \<Rightarrow> mux_extent_3d_s \<Rightarrow> u32 \<Rightarrow> ptr \<Rightarrow> ptr
      \<Rightarrow> 'a mux_call)
    \<Rightarrow> ptr \<Rightarrow> ptr \<Rightarrow> ptr \<Rightarrow> mux_offset_3d_s \<Rightarrow> u64 \<Rightarrow> mux_extent_3d_s \<Rightarrow> u32 \<Rightarrow> ptr \<Rightarrow> ptr
    \<Rightarrow> 'a mux_call" where
  [mux_api]: "muxCommandCopyImageToBuffer muxSelectCommandCopyImageToBuffer command_buffer
       src_image dst_buffer src_offset dst_offset extent num_sync_points_in_wait_list
       sync_point_wait_list sync_point w =
     (if command_buffer_is_invalid w command_buffer then (mux_error_invalid_value, w)
      else if image_is_invalid w src_image then (mux_error_invalid_value, w)
      else if buffer_is_invalid w dst_buffer then (mux_error_invalid_value, w)
      else if exceeds_image (images w src_image) src_offset extent
      then (mux_error_invalid_value, w)
      else if req_size (buffer_requirements (buffers w dst_buffer))
                < dst_offset + pixel_bytes (images w src_image) extent
      then (mux_error_invalid_value, w)
      else if waitlistIsInvalid w num_sync_points_in_wait_list sync_point_wait_list
      then (mux_error_invalid_value, w)
      else tag_sync_point command_buffer sync_point
             (muxSelectCommandCopyImageToBuffer command_buffer src_image dst_buffer src_offset
                dst_offset extent num_sync_points_in_wait_list sync_point_wait_list
                sync_point w))"

definition muxCommandCopyBufferToImage ::
  "(ptr \<Rightarrow> ptr \<Rightarrow> ptr \<Rightarrow> u32 \<Rightarrow> mux_offset_3d_s \<Rightarrow> mux_extent_3d_s \<Rightarrow> u32 \<Rightarrow> ptr \<Rightarrow> ptr
      \<Rightarrow> 'a mux_call)
    \<Rightarrow> ptr \<Rightarrow> ptr \<Rightarrow> ptr \<Rightarrow> u32 \<Rightarrow> mux_offset_3d_s \<Rightarrow> mux_extent_3d_s \<Rightarrow> u32 \<Rightarrow> ptr \<Rightarrow> ptr
    \<Rightarrow> 'a mux_call" where
  [mux_api]: "muxCommandCopyBufferToImage muxSelectCommandCopyBufferToImage command_buffer
       src_buffer dst_image src_offset dst_offset extent num_sync_points_in_wait_list
       sync_point_wait_list sync_point w =
     (if command_buffer_is_invalid w command_buffer then (mux_error_invalid_value, w)
      else if buffer_is_invalid w src_buffer then (mux_error_invalid_value, w)
      else if image_is_invalid w dst_image then (mux_error_invalid_value, w)
      else if req_size (buffer_requirements (buffers w src_buffer))
                < ucast src_offset + pixel_bytes (images w dst_image) extent
      then (mux_error_invalid_value, w)
      else if exceeds_image (images w dst_image) dst_offset extent
      then (mux_error_invalid_value, w)
      else if waitlistIsInvalid w num_sync_points_in_wait_list sync_point_wait_list
      then (mux_error_invalid_value, w)
      else tag_sync_point command_buffer sync_point
             (muxSelectCommandCopyBufferToImage command_buffer src_buffer dst_image src_offset
                dst_offset extent num_sync_points_in_wait_list sync_point_wait_list
                sync_point w))"

section \<open>Kernel, callback and query commands\<close>

definition muxCommandNDRange ::
  "(ptr \<Rightarrow> ptr \<Rightarrow> mux_ndrange_options_s \<Rightarrow> u32 \<Rightarrow> ptr \<Rightarrow> ptr \<Rightarrow> 'a mux_call)
    \<Rightarrow> ptr \<Rightarrow> ptr \<Rightarrow> mux_ndrange_options_s \<Rightarrow> u32 \<Rightarrow> ptr \<Rightarrow> ptr \<Rightarrow> 'a mux_call" where
  [mux_api]: "muxCommandNDRange muxSelectCommandNDRange command_buffer knl options
       num_sync_points_in_wait_list sync_point_wait_list sync_point w =
     (if command_buffer_is_invalid w command_buffer then (mux_error_invalid_value, w)
      else if kernel_is_invalid w knl then (mux_error_invalid_value, w)
      else if waitlistIsInvalid w num_sync_points_in_wait_list sync_point_wait_list
      then (mux_error_invalid_value, w)
      else tag_sync_point command_buffer sync_point
             (muxSelectCommandNDRange command_buffer knl options num_sync_points_in_wait_list
                sync_point_wait_list sync_point w))"

text \<open>The arrays of argument indices and descriptors are lists, null is \<^term>\<open>None\<close>.\<close>

definition muxUpdateDescriptors ::
  "(ptr \<Rightarrow> u32 \<Rightarrow> u64 \<Rightarrow> u64 list option \<Rightarrow> mux_descriptor_info_s list option \<Rightarrow> 'a mux_call)
    \<Rightarrow> ptr \<Rightarrow> u32 \<Rightarrow> u64 \<Rightarrow> u64 list option \<Rightarrow> mux_descriptor_info_s list option
    \<Rightarrow> 'a mux_call" where
  [mux_api]: "muxUpdateDescriptors muxSelectUpdateDescriptors command_buffer command_id num_args
       arg_indices descriptors w =
     (if command_buffer_is_invalid w command_buffer then (mux_error_invalid_value, w)
      else if num_args = 0 then (mux_error_invalid_value, w)
      else if arg_indices = None then (mux_error_invalid_value, w)
      else if descriptors = None then (mux_error_invalid_value, w)
      else muxSelectUpdateDescriptors command_buffer command_id num_args arg_indices
             descriptors w)"

definition muxCommandUserCallback ::
  "(ptr \<Rightarrow> ptr \<Rightarrow> ptr \<Rightarrow> u32 \<Rightarrow> ptr \<Rightarrow> ptr \<Rightarrow> 'a mux_call)
    \<Rightarrow> ptr \<Rightarrow> ptr \<Rightarrow> ptr \<Rightarrow> u32 \<Rightarrow> ptr \<Rightarrow> ptr \<Rightarrow> 'a mux_call" where
  [mux_api]: "muxCommandUserCallback muxSelectCommandUserCallback command_buffer user_function
       user_data num_sync_points_in_wait_list sync_point_wait_list sync_point w =
     (if command_buffer_is_invalid w command_buffer then (mux_error_invalid_value, w)
      else if user_function = 0 then (mux_error_invalid_value, w)
      else if waitlistIsInvalid w num_sync_points_in_wait_list sync_point_wait_list
      then (mux_error_invalid_value, w)
      else tag_sync_point command_buffer sync_point
             (muxSelectCommandUserCallback command_buffer user_function user_data
                num_sync_points_in_wait_list sync_point_wait_list sync_point w))"

text \<open>The range check of the three query commands; the sum is a 32-bit sum.\<close>

definition query_range_is_invalid :: "mux_query_pool_s \<Rightarrow> u32 \<Rightarrow> u32 \<Rightarrow> bool" where
  "query_range_is_invalid pool query_index query_count \<longleftrightarrow>
     query_index \<ge> query_pool_count pool \<or> query_count + query_index > query_pool_count pool"

definition muxCommandBeginQuery ::
  "(ptr \<Rightarrow> ptr \<Rightarrow> u32 \<Rightarrow> u32 \<Rightarrow> u32 \<Rightarrow> ptr \<Rightarrow> ptr \<Rightarrow> 'a mux_call)
    \<Rightarrow> ptr \<Rightarrow> ptr \<Rightarrow> u32 \<Rightarrow> u32 \<Rightarrow> u32 \<Rightarrow> ptr \<Rightarrow> ptr \<Rightarrow> 'a mux_call" where
  [mux_api]: "muxCommandBeginQuery muxSelectCommandBeginQuery command_buffer query_pool
       query_index query_count num_sync_points_in_wait_list sync_point_wait_list sync_point w =
     (if command_buffer_is_invalid w command_buffer then (mux_error_invalid_value, w)
      else if query_pool_is_invalid w query_pool then (mux_error_invalid_value, w)
      else if query_range_is_invalid (query_pools w query_pool) query_index query_count
      then (mux_error_invalid_value, w)
      else if waitlistIsInvalid w num_sync_points_in_wait_list sync_point_wait_list
      then (mux_error_invalid_value, w)
      else tag_sync_point command_buffer sync_point
             (muxSelectCommandBeginQuery command_buffer query_pool query_index query_count
                num_sync_points_in_wait_list sync_point_wait_list sync_point w))"

definition muxCommandEndQuery ::
  "(ptr \<Rightarrow> ptr \<Rightarrow> u32 \<Rightarrow> u32 \<Rightarrow> u32 \<Rightarrow> ptr \<Rightarrow> ptr \<Rightarrow> 'a mux_call)
    \<Rightarrow> ptr \<Rightarrow> ptr \<Rightarrow> u32 \<Rightarrow> u32 \<Rightarrow> u32 \<Rightarrow> ptr \<Rightarrow> ptr \<Rightarrow> 'a mux_call" where
  [mux_api]: "muxCommandEndQuery muxSelectCommandEndQuery command_buffer query_pool
       query_index query_count num_sync_points_in_wait_list sync_point_wait_list sync_point w =
     (if command_buffer_is_invalid w command_buffer then (mux_error_invalid_value, w)
      else if query_pool_is_invalid w query_pool then (mux_error_invalid_value, w)
      else if query_range_is_invalid (query_pools w query_pool) query_index query_count
      then (mux_error_invalid_value, w)
      else if waitlistIsInvalid w num_sync_points_in_wait_list sync_point_wait_list
      then (mux_error_invalid_value, w)
      else tag_sync_point command_buffer sync_point
             (muxSelectCommandEndQuery command_buffer query_pool query_index query_count
                num_sync_points_in_wait_list sync_point_wait_list sync_point w))"

definition muxCommandResetQueryPool ::
  "(ptr \<Rightarrow> ptr \<Rightarrow> u32 \<Rightarrow> u32 \<Rightarrow> u32 \<Rightarrow> ptr \<Rightarrow> ptr \<Rightarrow> 'a mux_call)
    \<Rightarrow> ptr \<Rightarrow> ptr \<Rightarrow> u32 \<Rightarrow> u32 \<Rightarrow> u32 \<Rightarrow> ptr \<Rightarrow> ptr \<Rightarrow> 'a mux_call" where
  [mux_api]: "muxCommandResetQueryPool muxSelectCommandResetQueryPool command_buffer query_pool
       query_index query_count num_sync_points_in_wait_list sync_point_wait_list sync_point w =
     (if command_buffer_is_invalid w command_buffer then (mux_error_invalid_value, w)
      else if query_pool_is_invalid w query_pool then (mux_error_invalid_value, w)
      else if query_range_is_invalid (query_pools w query_pool) query_index query_count
      then (mux_error_invalid_value, w)
      else if waitlistIsInvalid w num_sync_points_in_wait_list sync_point_wait_list
      then (mux_error_invalid_value, w)
      else tag_sync_point command_buffer sync_point
             (muxSelectCommandResetQueryPool command_buffer query_pool query_index query_count
                num_sync_points_in_wait_list sync_point_wait_list sync_point w))"

section \<open>Regions on natural numbers\<close>

text \<open>
  The offset of a row and the end of a region without wrap-around, and how the checks on
  words relate to them.
\<close>

definition row_offset_nat :: "mux_extent_3d_s \<Rightarrow> mux_extent_2d_s \<Rightarrow> nat \<Rightarrow> nat \<Rightarrow> nat" where
  "row_offset_nat origin desc z y =
     (unat (ext_z origin) + z) * unat (ext2_y desc) + (unat (ext_y origin) + y) * unat (ext2_x desc)
       + unat (ext_x origin)"

definition region_end_nat :: "mux_extent_3d_s \<Rightarrow> mux_extent_2d_s \<Rightarrow> mux_extent_3d_s \<Rightarrow> nat" where
  "region_end_nat origin desc reg =
     row_offset_nat origin desc (unat (ext_z reg) - 1) (unat (ext_y reg) - 1) + unat (ext_x reg)"

lemma row_offset_nat_mono:
  "z \<le> z' \<Longrightarrow> y \<le> y' \<Longrightarrow> row_offset_nat origin desc z y \<le> row_offset_nat origin desc z' y'"
  by (simp add: row_offset_nat_def add_mono mult_le_mono1)

lemma row_inside_region:
  assumes "z < unat (ext_z reg)" and "y < unat (ext_y reg)"
  shows "row_offset_nat origin desc z y + unat (ext_x reg) \<le> region_end_nat origin desc reg"
  using assms row_offset_nat_mono [of z "unat (ext_z reg) - 1" y "unat (ext_y reg) - 1"]
  by (simp add: region_end_nat_def)

lemma unat_row_offset:
  assumes "row_offset_nat origin desc z y < 2 ^ 64"
  shows "unat (row_offset origin desc (of_nat z) (of_nat y)) = row_offset_nat origin desc z y"
proof -
  have "unat (row_offset origin desc (of_nat z) (of_nat y))
      = row_offset_nat origin desc z y mod 2 ^ 64"
    by (simp add: row_offset_def row_offset_nat_def unat_word_ariths mod_simps unat_of_nat)
  with assms show ?thesis by simp
qed

lemma last_row_inside:
  assumes "\<not> last_row_is_outside origin desc reg sz" and "region_end_nat origin desc reg < 2 ^ 64"
    and "ext_y reg \<noteq> 0" and "ext_z reg \<noteq> 0"
  shows "region_end_nat origin desc reg \<le> unat sz"
proof -
  have minus1: "e - 1 = of_nat (unat e - 1)" if "e \<noteq> 0" for e :: u64
    using that by (simp add: of_nat_diff Suc_le_eq)
  let ?last = "row_offset origin desc (ext_z reg - 1) (ext_y reg - 1)"
  have last: "unat ?last = row_offset_nat origin desc (unat (ext_z reg) - 1) (unat (ext_y reg) - 1)"
    using assms(2) by (simp add: minus1 assms(3,4) unat_row_offset region_end_nat_def)
  then have "unat (?last + ext_x reg) = region_end_nat origin desc reg"
    using assms(2) by (simp add: unat_plus_no_wrap region_end_nat_def)
  then show ?thesis
    using assms(1) by (simp add: last_row_is_outside_def not_less word_le_nat_alt)
qed

lemma region_shape_positive:
  assumes "\<not> region_shape_is_invalid r"
  shows "ext_x (region r) \<noteq> 0" and "ext_y (region r) \<noteq> 0" and "ext_z (region r) \<noteq> 0"
  using assms by (auto simp: region_shape_is_invalid_def)

section \<open>Properties\<close>

text \<open>
  What a creation entry point promises: when it succeeds with a handle that is not null, the
  handle passes the validity check of its type and carries the target of its parent.
\<close>

definition handle_tagged ::
  "('a mux_world_scheme \<Rightarrow> ptr \<Rightarrow> bool) \<Rightarrow> ('a mux_world_scheme \<Rightarrow> ptr \<Rightarrow> mux_id_t)
    \<Rightarrow> ('a mux_world_scheme \<Rightarrow> mux_id_t) \<Rightarrow> ptr \<Rightarrow> 'a mux_call \<Rightarrow> bool" where
  "handle_tagged is_invalid get_id parent_id out create \<longleftrightarrow>
     (\<forall>w w'. create w = (mux_success, w') \<longrightarrow> cells w' out \<noteq> 0 \<longrightarrow>
        \<not> is_invalid w' (cells w' out) \<and>
        getTargetId (get_id w' (cells w' out)) = getTargetId (parent_id w'))"

lemma handle_taggedI:
  assumes "\<And>w w'. create w = (mux_success, w') \<Longrightarrow> cells w' out \<noteq> 0 \<Longrightarrow>
      get_id w' (cells w' out) = makeId (getTargetId (parent_id w')) object_id"
    and "\<And>w p. is_invalid w p \<longleftrightarrow> objectIsInvalid object_id (get_id w p) p"
    and "getTargetId object_id = 0"
  shows "handle_tagged is_invalid get_id parent_id out create"
  unfolding handle_tagged_def
  by (auto simp: assms objectIsInvalid_def getObjectId_makeId getTargetId_makeId)

text \<open>
  C23: Every entry point that creates an object (\<^verbatim>\<open>muxCreateBuffer\<close>, \<^verbatim>\<open>muxCreateFence\<close>,
  \<^verbatim>\<open>muxCreateSemaphore\<close>, \<^verbatim>\<open>muxAllocateMemory\<close>, \<^verbatim>\<open>muxCreateMemoryFromHost\<close>,
  \<^verbatim>\<open>muxCreateExecutable\<close>, \<^verbatim>\<open>muxCreateKernel\<close>, \<^verbatim>\<open>muxCreateBuiltInKernel\<close>, \<^verbatim>\<open>muxCreateImage\<close>,
  \<^verbatim>\<open>muxCreateQueryPool\<close>, \<^verbatim>\<open>muxCreateCommandBuffer\<close>, \<^verbatim>\<open>muxCloneCommandBuffer\<close>), whatever the target
  does behind it, returns on success a handle that the other entry points accept as an
  object of that type, tagged with the target of the device or queue it was made from.
\<close>

theorem created_handles_are_valid:
  "handle_tagged buffer_is_invalid (\<lambda>w. buffer_id \<circ> buffers w)
     (\<lambda>w. info_id (info_of w device)) out
     (muxCreateBuffer select0 device sz a out) \<and>
   handle_tagged fence_is_invalid (\<lambda>w. fence_id \<circ> fences w)
     (\<lambda>w. info_id (info_of w device)) out
     (muxCreateFence select1 device a out) \<and>
   handle_tagged semaphore_is_invalid (\<lambda>w. semaphore_id \<circ> semaphores w)
     (\<lambda>w. info_id (info_of w device)) out
     (muxCreateSemaphore select2 device a out) \<and>
   handle_tagged memory_is_invalid (\<lambda>w. memory_id \<circ> memories w)
     (\<lambda>w. info_id (info_of w device)) out
     (muxAllocateMemory select3 device sz heap properties allocation_type alignment a out) \<and>
   handle_tagged memory_is_invalid (\<lambda>w. memory_id \<circ> memories w)
     (\<lambda>w. info_id (info_of w device)) out
     (muxCreateMemoryFromHost select4 device sz host_pointer a out) \<and>
   handle_tagged executable_is_invalid (\<lambda>w. executable_id \<circ> executables w)
     (\<lambda>w. device_id (devices w device)) out
     (muxCreateExecutable select5 device binary binary_length a out) \<and>
   handle_tagged kernel_is_invalid (\<lambda>w. kernel_id \<circ> kernels w)
     (\<lambda>w. device_id (devices w device)) out
     (muxCreateKernel select6 device executable name name_length a out) \<and>
   handle_tagged kernel_is_invalid (\<lambda>w. kernel_id \<circ> kernels w)
     (\<lambda>w. device_id (devices w device)) out
     (muxCreateBuiltInKernel select7 device name name_length a out) \<and>
   handle_tagged image_is_invalid (\<lambda>w. image_id \<circ> images w)
     (\<lambda>w. info_id (info_of w device)) out
     (muxCreateImage select8 device type format width height depth array_layers row_size
       slice_size a out) \<and>
   handle_tagged query_pool_is_invalid (\<lambda>w. query_pool_id \<circ> query_pools w)
     (\<lambda>w. device_id (devices w (queue_device (queues w queue)))) out
     (muxCreateQueryPool select9 queue query_type query_count configs a out) \<and>
   handle_tagged command_buffer_is_invalid (\<lambda>w. command_buffer_id \<circ> command_buffers w)
     (\<lambda>w. info_id (info_of w device)) out
     (muxCreateCommandBuffer select10 device callback_info a out) \<and>
   handle_tagged command_buffer_is_invalid (\<lambda>w. command_buffer_id \<circ> command_buffers w)
     (\<lambda>w. info_id (info_of w device)) out
     (muxCloneCommandBuffer select11 device a command_buffer out)"
  by (intro conjI; rule handle_taggedI)
     (auto simp: mux_api mux_valid info_of_def setId_buffer_def setId_fence_def
        setId_semaphore_def setId_memory_def setId_executable_def setId_kernel_def setId_image_def
        setId_query_pool_def setId_command_buffer_def split: if_splits prod.splits)

text \<open>What a command entry point promises of the sync-point it was asked for.\<close>

definition promises_sync_point :: "ptr \<Rightarrow> ptr \<Rightarrow> 'a mux_call \<Rightarrow> bool" where
  "promises_sync_point cb sync_point command \<longleftrightarrow>
     sync_point = 0 \<or>
     handle_tagged sync_point_is_invalid (\<lambda>w. sync_point_id \<circ> sync_points w)
       (\<lambda>w. info_id (info_of w (command_buffer_device (command_buffers w cb)))) sync_point command"

lemma tag_sync_point_success:
  assumes "tag_sync_point cb sync_point r = (mux_success, w')" and "sync_point \<noteq> 0"
  shows "sync_point_id (sync_points w' (cells w' sync_point))
       = makeId (getTargetId (info_id (info_of w' (command_buffer_device (command_buffers w' cb)))))
           mux_object_id_sync_point"
proof (cases r)
  case (Pair error v)
  with assms have "w' = setId_sync_point
      (info_id (info_of v (command_buffer_device (command_buffers v cb)))) (cells v sync_point) v"
    by (auto simp: tag_sync_point_def split: if_splits)
  then show ?thesis
    by (simp add: setId_sync_point_def info_of_def)
qed

lemma promises_sync_pointI:
  assumes "\<And>w w'. command w = (mux_success, w') \<Longrightarrow>
      (mux_success, w') \<in> range (tag_sync_point cb sync_point)"
  shows "promises_sync_point cb sync_point command"
proof (cases "sync_point = 0")
  case False
  have "handle_tagged sync_point_is_invalid (\<lambda>w. sync_point_id \<circ> sync_points w)
    (\<lambda>w. info_id (info_of w (command_buffer_device (command_buffers w cb)))) sync_point command"
    by (rule handle_taggedI) (auto simp: mux_valid dest!: assms intro: tag_sync_point_success
        [OF sym False])
  then show ?thesis
    by (simp add: promises_sync_point_def)
qed (simp add: promises_sync_point_def)

text \<open>
  C25: Each of the eighteen \<^verbatim>\<open>muxCommand*\<close> entry points, whatever the target does behind it,
  returns on success a sync-point that passes the check of later wait lists, tagged with
  the target of the command buffer's device.
\<close>

theorem sync_points_are_valid:
  "promises_sync_point cb sync_point
     (muxCommandCopyBuffer select0 cb src_buffer src_offset dst_buffer dst_offset sz num_wait wait_list sync_point) \<and>
   promises_sync_point cb sync_point
     (muxCommandCopyBufferRegions select1 cb src_buffer dst_buffer regions num_wait wait_list sync_point) \<and>
   promises_sync_point cb sync_point
     (muxCommandFillBuffer select2 cb buffer offset sz pattern_pointer pattern_size num_wait wait_list sync_point) \<and>
   promises_sync_point cb sync_point
     (muxCommandReadBuffer select3 cb buffer offset host_pointer sz num_wait wait_list sync_point) \<and>
   promises_sync_point cb sync_point
     (muxCommandReadBufferRegions select4 cb buffer host_pointer regions num_wait wait_list sync_point) \<and>
   promises_sync_point cb sync_point
     (muxCommandWriteBuffer select5 cb buffer offset host_pointer sz num_wait wait_list sync_point) \<and>
   promises_sync_point cb sync_point
     (muxCommandWriteBufferRegions select6 cb buffer host_pointer regions num_wait wait_list sync_point) \<and>
   promises_sync_point cb sync_point
     (muxCommandReadImage select7 cb img origin extent row_size slice_size pointer num_wait wait_list sync_point) \<and>
   promises_sync_point cb sync_point
     (muxCommandWriteImage select8 cb img origin extent row_size slice_size pointer num_wait wait_list sync_point) \<and>
   promises_sync_point cb sync_point
     (muxCommandFillImage select9 cb img color color_size origin extent num_wait wait_list sync_point) \<and>
   promises_sync_point cb sync_point
     (muxCommandCopyImage select10 cb src_image dst_image src_pos dst_pos extent num_wait wait_list sync_point) \<and>
   promises_sync_point cb sync_point
     (muxCommandCopyImageToBuffer select11 cb src_image dst_buffer src_pos dst_offset extent num_wait wait_list sync_point) \<and>
   promises_sync_point cb sync_point
     (muxCommandCopyBufferToImage select12 cb src_buffer dst_image src_offset32 dst_pos extent num_wait wait_list sync_point) \<and>
   promises_sync_point cb sync_point
     (muxCommandNDRange select13 cb knl options num_wait wait_list sync_point) \<and>
   promises_sync_point cb sync_point
     (muxCommandUserCallback select14 cb user_function user_data num_wait wait_list sync_point) \<and>
   promises_sync_point cb sync_point
     (muxCommandBeginQuery select15 cb query_pool query_index query_count num_wait wait_list sync_point) \<and>
   promises_sync_point cb sync_point
     (muxCommandEndQuery select16 cb query_pool query_index query_count num_wait wait_list sync_point) \<and>
   promises_sync_point cb sync_point
     (muxCommandResetQueryPool select17 cb query_pool query_index query_count num_wait wait_list sync_point)"
  by (intro conjI; rule promises_sync_pointI) 
     (auto simp: mux_api split: if_splits intro: range_eqI [OF sym])

text \<open>
  C26: A copy between buffers that \<^verbatim>\<open>muxCommandCopyBuffer\<close> does not reject as invalid lies inside
  both buffers, as long as the sums of offset and size fit into 64 bits.
\<close>

theorem copy_buffer_in_bounds:
  assumes "fst (muxCommandCopyBuffer select cb src_buffer src_offset dst_buffer dst_offset sz
                 num_wait wait_list sync_point w) \<noteq> mux_error_invalid_value"
    and "unat sz + unat src_offset < 2 ^ 64" and "unat sz + unat dst_offset < 2 ^ 64"
  shows "0 < unat sz \<and>
         unat src_offset + unat sz \<le> unat (req_size (buffer_requirements (buffers w src_buffer))) \<and>
         unat dst_offset + unat sz \<le> unat (req_size (buffer_requirements (buffers w dst_buffer)))"
  using assms
  by (auto simp: muxCommandCopyBuffer_def word_plus_le_iff_unat not_less split: if_splits)

text \<open>
  A world in which every address that is not null holds a valid object: buffers of 64 bytes,
  a query pool with four slots, memory of 64 bytes.
\<close>

definition demo_world :: mux_world where
  "demo_world = empty_world\<lparr>
     devices := (\<lambda>_. \<lparr>device_id = 0x00030001, device_info = 0x20\<rparr>),
     buffers := (\<lambda>_. \<lparr>buffer_id = 0x00010001, buffer_requirements =
       \<lparr>req_size = 64, req_alignment = 1, req_supported_heaps = 1\<rparr>\<rparr>),
     memories := (\<lambda>_. \<lparr>memory_id = 0x00070001, memory_size = 64, memory_properties = 4,
       memory_handle = 0\<rparr>),
     command_buffers := (\<lambda>_. \<lparr>command_buffer_id = 0x00020001, command_buffer_device = 0x10\<rparr>),
     query_pools := (\<lambda>_. \<lparr>query_pool_id = 0x000B0001, query_pool_type = 0, query_pool_count = 4\<rparr>)\<rparr>"

lemma demo_world_valid:
  "device_is_invalid demo_world p \<longleftrightarrow> p = 0"
  "buffer_is_invalid demo_world p \<longleftrightarrow> p = 0"
  "memory_is_invalid demo_world p \<longleftrightarrow> p = 0"
  "command_buffer_is_invalid demo_world p \<longleftrightarrow> p = 0"
  "query_pool_is_invalid demo_world p \<longleftrightarrow> p = 0"
  by (simp_all add: mux_valid objectIsInvalid_def getObjectId_def mux_ids demo_world_def)

lemma demo_world_sizes:
  "req_size (buffer_requirements (buffers demo_world p)) = 64"
  "memory_size (memories demo_world p) = 64"
  "memory_properties (memories demo_world p) = 4"
  "query_pools demo_world p =
     \<lparr>query_pool_id = 0x000B0001, query_pool_type = 0, query_pool_count = 4\<rparr>"
  by (simp_all add: demo_world_def)

theorem copy_buffer_in_bounds_witness:
  "fst (muxCommandCopyBuffer (\<lambda>_ _ _ _ _ _ _ _ _ w. (mux_success, w)) 0x30 0x40 8 0x50 16 32 0 0 0
     demo_world) = mux_success \<and>
   unat (8 :: u64) + unat (32 :: u64) \<le> 64 \<and> unat (16 :: u64) + unat (32 :: u64) \<le> 64"
proof -
  have "fst (muxCommandCopyBuffer (\<lambda>_ _ _ _ _ _ _ _ _ w. (mux_success, w)) 0x30 0x40 8 0x50 16 32
      0 0 0 demo_world) = mux_success"
    by (simp add: muxCommandCopyBuffer_def demo_world_valid demo_world_sizes waitlistIsInvalid_def
        tag_sync_point_def)
  then show ?thesis
    using copy_buffer_in_bounds [where select = "\<lambda>_ _ _ _ _ _ _ _ _ w. (mux_success, w)"
        and cb = "0x30" and src_buffer = "0x40" and src_offset = 8 and dst_buffer = "0x50"
        and dst_offset = 16 and sz = 32 and num_wait = 0 and wait_list = 0 and sync_point = 0
        and w = demo_world]
    by (simp add: demo_world_sizes)
qed


text \<open>Two-dimensional regions of two by two bytes in rows of four bytes, copied in place.\<close>

definition square_at :: "u64 \<Rightarrow> u64 \<Rightarrow> mux_buffer_region_info_s" where
  "square_at x y = \<lparr>region = \<lparr>ext_x = 2, ext_y = 2, ext_z = 1\<rparr>,
     src_origin = \<lparr>ext_x = x, ext_y = y, ext_z = 0\<rparr>,
     dst_origin = \<lparr>ext_x = x, ext_y = y, ext_z = 0\<rparr>,
     src_desc = \<lparr>ext2_x = 4, ext2_y = 16\<rparr>, dst_desc = \<lparr>ext2_x = 4, ext2_y = 16\<rparr>\<rparr>"


end
