(* ===== verification/Mux_Device.thy ===== *)
theory Mux_Device
  imports Mux_Api
begin

unbundle bit_operations_syntax

text \<open>
  Device enumeration and creation (\<^verbatim>\<open>modules/mux/source/device.cpp\<close>). The hooks of the
  targets are generated, so \<open>muxGetDeviceInfos\<close> and \<open>muxCreateDevices\<close> take the lists of
  hooks (\<^verbatim>\<open>muxGetGetDeviceInfosHooks()\<close>, \<^verbatim>\<open>muxGetCreateDevicesHooks()\<close>) as arguments. Local
  variables whose address the code passes to a hook live at \<open>frame\<close>: \<^verbatim>\<open>devicesLength\<close> or
  \<^verbatim>\<open>queue\<close> at \<open>frame\<close>, the sixteen entries of \<^verbatim>\<open>deviceInfos\<close> from \<open>frame + 8\<close> and
  \<^verbatim>\<open>numDevicesPerTarget\<close> from \<open>frame + 256\<close>. The result is \<^term>\<open>None\<close> where an assertion
  fails or an array of hooks is read out of range.
\<close>

type_synonym 'a device_infos_hook = "u32 \<Rightarrow> u64 \<Rightarrow> ptr \<Rightarrow> ptr \<Rightarrow> 'a mux_call"

type_synonym 'a create_devices_hook = "u64 \<Rightarrow> ptr \<Rightarrow> mux_allocator_info_s \<Rightarrow> ptr \<Rightarrow> 'a mux_call"

definition mux_target_id_device_mask :: u32 where
  [mux_ids]: "mux_target_id_device_mask = 0x000000ff"

definition makeTargetDeviceId :: "u64 \<Rightarrow> u64 \<Rightarrow> u32" where
  "makeTargetDeviceId targetIndex deviceIndex = ucast ((targetIndex + 1) OR push_bit 8 deviceIndex)"

definition getTargetIndex :: "mux_id_t \<Rightarrow> u64" where
  "getTargetIndex oid = ucast ((mux_target_id_device_mask AND oid) - 1)"

definition set_info_id :: "ptr \<Rightarrow> mux_id_t \<Rightarrow> 'a mux_proc" where
  "set_info_id info oid w =
     w\<lparr>device_infos := (device_infos w)(info := (device_infos w info)\<lparr>info_id := oid\<rparr>)\<rparr>"

section \<open>Enumeration\<close>

text \<open>The loop body of the once-only initialisation, for the targets from \<open>targetIndex\<close> on.\<close>

fun initDeviceInfoIds ::
  "ptr \<Rightarrow> nat \<Rightarrow> 'a device_infos_hook list \<Rightarrow> 'a mux_world_scheme
    \<Rightarrow> (mux_result_t \<times> 'a mux_world_scheme) option" where
  "initDeviceInfoIds frame targetIndex [] w = Some (mux_success, w)"
| "initDeviceInfoIds frame targetIndex (targetGetDeviceInfos # hooks) w =
     (case targetGetDeviceInfos mux_device_type_all 0 0 frame (set_cell frame 0 w) of (error, w1) \<Rightarrow>
        if error \<noteq> mux_success then Some (error, w1)
        else let devicesLength = cells w1 frame in
          if devicesLength > 16 then None
          else case targetGetDeviceInfos mux_device_type_all devicesLength (frame + 8) 0 w1 of
            (error, w2) \<Rightarrow>
              if error \<noteq> mux_success then Some (error, w2)
              else initDeviceInfoIds frame (Suc targetIndex) hooks
                (fold (\<lambda>deviceIndex v.
                   set_info_id (handle_at v (frame + 8) deviceIndex)
                     (makeId (makeTargetDeviceId (of_nat targetIndex) (of_nat deviceIndex))
                             mux_object_id_device) v)
                 [0..<unat devicesLength] w2))"

text \<open>
  The loop that counts the devices of every target; it returns the error, the counts so far
  added up, and stores the count of target \<open>i\<close> in \<^verbatim>\<open>numDevicesPerTarget[i]\<close>.
\<close>

fun countDevices ::
  "ptr \<Rightarrow> u32 \<Rightarrow> nat \<Rightarrow> 'a device_infos_hook list \<Rightarrow> u64 \<Rightarrow> 'a mux_world_scheme
    \<Rightarrow> mux_result_t \<times> u64 \<times> 'a mux_world_scheme" where
  "countDevices frame device_types targetIndex [] numDevices w = (mux_success, numDevices, w)"
| "countDevices frame device_types targetIndex (targetGetDeviceInfos # hooks) numDevices w =
     (let slot = frame + 256 + 8 * of_nat targetIndex in
      case targetGetDeviceInfos device_types 0 0 slot w of (error, w1) \<Rightarrow>
        if error \<noteq> mux_success then (error, numDevices, w1)
        else countDevices frame device_types (Suc targetIndex) hooks
               (numDevices + cells w1 slot) w1)"

text \<open>The loop that fills the array of the caller, target after target.\<close>

fun fillDeviceInfos ::
  "ptr \<Rightarrow> u32 \<Rightarrow> ptr \<Rightarrow> nat \<Rightarrow> 'a device_infos_hook list \<Rightarrow> u64 \<Rightarrow> 'a mux_call" where
  "fillDeviceInfos frame device_types out_device_infos targetIndex [] outOffset w = (mux_success, w)"
| "fillDeviceInfos frame device_types out_device_infos targetIndex (targetGetDeviceInfos # hooks)
     outOffset w =
     (let slot = frame + 256 + 8 * of_nat targetIndex in
      case targetGetDeviceInfos device_types (cells w slot) (out_device_infos + 8 * outOffset) 0 w of
        (error, w1) \<Rightarrow>
          if error \<noteq> mux_success then (mux_error_device_entry_hook_failed, w1)
          else fillDeviceInfos frame device_types out_device_infos (Suc targetIndex) hooks
                 (outOffset + cells w1 slot) w1)"

definition muxGetDeviceInfos ::
  "ptr \<Rightarrow> 'a device_infos_hook list \<Rightarrow> u32 \<Rightarrow> u64 \<Rightarrow> ptr \<Rightarrow> ptr \<Rightarrow> 'a mux_world_scheme
    \<Rightarrow> (mux_result_t \<times> 'a mux_world_scheme) option" where
  "muxGetDeviceInfos frame hooks device_types device_infos_length out_device_infos
       out_device_infos_length w =
     (if device_types = 0 then Some (mux_error_invalid_value, w)
      else if out_device_infos = 0 \<and> out_device_infos_length = 0
      then Some (mux_error_null_out_parameter, w)
      else if 0 < device_infos_length \<and> out_device_infos = 0
      then Some (mux_error_null_out_parameter, w)
      else case (if device_infos_initialized w then Some (mux_success, w)
                 else initDeviceInfoIds frame 0 hooks (w\<lparr>device_infos_initialized := True\<rparr>)) of
        None \<Rightarrow> None
      | Some (error, w1) \<Rightarrow>
          if error \<noteq> mux_success then Some (error, w1)
          else case countDevices frame device_types 0 hooks 0 w1 of (error, numDevices, w2) \<Rightarrow>
            if error \<noteq> mux_success then Some (error, w2)
            else if numDevices \<noteq> device_infos_length \<and> out_device_infos \<noteq> 0
            then Some (mux_error_invalid_value, w2)
            else let w3 = (if out_device_infos_length \<noteq> 0
                           then set_cell out_device_infos_length numDevices w2 else w2) in
              if out_device_infos \<noteq> 0
              then Some (fillDeviceInfos frame device_types out_device_infos 0 hooks 0
                     (fold (\<lambda>i. set_cell (out_device_infos + 8 * of_nat i) 0)
                           [0..<unat device_infos_length] w3))
              else Some (mux_success, w3))"

section \<open>Creation\<close>

definition muxDestroyDevice ::
  "(ptr \<Rightarrow> mux_allocator_info_s \<Rightarrow> 'a mux_proc) \<Rightarrow> ptr \<Rightarrow> mux_allocator_info_s \<Rightarrow> 'a mux_proc" where
  [mux_api]: "muxDestroyDevice muxSelectDestroyDevice device allocator_info w =
     (if device_is_invalid w device then w
      else if allocatorInfoIsInvalid allocator_info then w
      else muxSelectDestroyDevice device allocator_info w)"

text \<open>
  The closure \<^verbatim>\<open>cleanup_devices\<close>. Its index is 32 bits wide, so it covers every array that
  has at most \<^verbatim>\<open>2^32\<close> entries, which is what the model assumes of \<open>devices_length\<close>.
\<close>

definition cleanup_devices ::
  "(ptr \<Rightarrow> mux_allocator_info_s \<Rightarrow> 'a mux_proc) \<Rightarrow> u64 \<Rightarrow> mux_allocator_info_s \<Rightarrow> ptr
    \<Rightarrow> 'a mux_proc" where
  "cleanup_devices muxSelectDestroyDevice devices_length allocator_info out_devices w =
     fold (\<lambda>index v. if handle_at v out_devices index \<noteq> 0
             then muxDestroyDevice muxSelectDestroyDevice (handle_at v out_devices index)
                    allocator_info v
             else v)
       [0..<unat devices_length] w"

text \<open>
  The inner \<^verbatim>\<open>while\<close> loop: the first index from \<open>i\<close> on, below \<open>n\<close>, whose device info belongs
  to another target.
\<close>

function targetRangeEnd :: "'a mux_world_scheme \<Rightarrow> ptr \<Rightarrow> u64 \<Rightarrow> nat \<Rightarrow> nat \<Rightarrow> nat" where
  "targetRangeEnd w infos targetIndex n i =
     (if i < n \<and> targetIndex = getTargetIndex (info_id (device_infos w (handle_at w infos i)))
      then targetRangeEnd w infos targetIndex n (Suc i) else i)"
  by pat_completeness auto
termination
  by (relation "measure (\<lambda>(w, infos, t, n, i). n - i)") auto

declare targetRangeEnd.simps [simp del]

lemma targetRangeEnd_ge: "i \<le> targetRangeEnd w infos t n i"
  by (induction w infos t n i rule: targetRangeEnd.induct)
     (subst targetRangeEnd.simps, auto)

lemma targetRangeEnd_gt:
  assumes "i < n" and "t = getTargetIndex (info_id (device_infos w (handle_at w infos i)))"
  shows "i < targetRangeEnd w infos t n i"
  using assms targetRangeEnd_ge [of "Suc i" w infos t n]
  by (subst targetRangeEnd.simps) auto

text \<open>
  The loop that creates the devices of one target after another; \<^term>\<open>None\<close> when the target
  index read from an identifier has no hook.
\<close>

function createTargetDevices ::
  "'a create_devices_hook list \<Rightarrow> (ptr \<Rightarrow> mux_allocator_info_s \<Rightarrow> 'a mux_proc) \<Rightarrow> u64 \<Rightarrow> ptr
    \<Rightarrow> mux_allocator_info_s \<Rightarrow> ptr \<Rightarrow> nat \<Rightarrow> 'a mux_world_scheme
    \<Rightarrow> (mux_result_t \<times> 'a mux_world_scheme) option" where
  "createTargetDevices hooks muxSelectDestroyDevice devices_length infos allocator_info
       out_devices deviceFirstIndex w =
     (if \<not> deviceFirstIndex < unat devices_length then Some (mux_success, w)
      else let oid = info_id (device_infos w (handle_at w infos deviceFirstIndex)) in
        if oid = 0 then Some (mux_error_feature_unsupported,
            cleanup_devices muxSelectDestroyDevice devices_length allocator_info out_devices w)
        else let targetIndex = getTargetIndex oid;
                 deviceEndIndex = targetRangeEnd w infos targetIndex (unat devices_length)
                                    deviceFirstIndex in
          if \<not> unat targetIndex < length hooks then None
          else case (hooks ! unat targetIndex) (of_nat (deviceEndIndex - deviceFirstIndex))
                      (infos + 8 * of_nat deviceFirstIndex) allocator_info
                      (out_devices + 8 * of_nat deviceFirstIndex) w of
            (error, w1) \<Rightarrow>
              if error \<noteq> mux_success then Some (mux_error_device_entry_hook_failed,
                cleanup_devices muxSelectDestroyDevice devices_length allocator_info out_devices w1)
              else createTargetDevices hooks muxSelectDestroyDevice devices_length infos
                     allocator_info out_devices deviceEndIndex w1)"
  by pat_completeness auto
termination
  by (relation "measure (\<lambda>(hooks, sel, n, infos, a, outs, i, w). unat n - i)")
     (auto dest: targetRangeEnd_gt [OF _ refl] intro: diff_less_mono2)

declare createTargetDevices.simps [simp del]

definition set_device_id :: "ptr \<Rightarrow> mux_id_t \<Rightarrow> 'a mux_proc" where
  "set_device_id device oid w =
     w\<lparr>devices := (devices w)(device := (devices w device)\<lparr>device_id := oid\<rparr>)\<rparr>"

text \<open>
  The loops over the queues of one type of a device, \<open>queueIndex\<close> running over the list.
\<close>

fun setQueueIds ::
  "(ptr \<Rightarrow> u32 \<Rightarrow> u32 \<Rightarrow> ptr \<Rightarrow> 'a mux_call) \<Rightarrow> ptr \<Rightarrow> ptr \<Rightarrow> u32 \<Rightarrow> nat list \<Rightarrow> 'a mux_call" where
  "setQueueIds muxSelectGetQueue frame device queueTypeIndex [] w = (mux_success, w)"
| "setQueueIds muxSelectGetQueue frame device queueTypeIndex (queueIndex # rest) w =
     (case muxGetQueue muxSelectGetQueue device queueTypeIndex (of_nat queueIndex) frame w of
        (error, w1) \<Rightarrow>
          if error \<noteq> mux_success then (error, w1)
          else setQueueIds muxSelectGetQueue frame device queueTypeIndex rest
                 (setId_queue (device_id (devices w1 device)) (cells w1 frame) w1))"

fun setQueueTypeIds ::
  "(ptr \<Rightarrow> u32 \<Rightarrow> u32 \<Rightarrow> ptr \<Rightarrow> 'a mux_call) \<Rightarrow> ptr \<Rightarrow> ptr \<Rightarrow> nat list \<Rightarrow> 'a mux_call" where
  "setQueueTypeIds muxSelectGetQueue frame device [] w = (mux_success, w)"
| "setQueueTypeIds muxSelectGetQueue frame device (queueTypeIndex # rest) w =
     (case setQueueIds muxSelectGetQueue frame device (of_nat queueTypeIndex)
             [0..<unat (queue_types (info_of w device) (of_nat queueTypeIndex))] w of
        (error, w1) \<Rightarrow>
          if error \<noteq> mux_success then (error, w1)
          else setQueueTypeIds muxSelectGetQueue frame device rest w1)"

fun assignDeviceIds ::
  "(ptr \<Rightarrow> u32 \<Rightarrow> u32 \<Rightarrow> ptr \<Rightarrow> 'a mux_call) \<Rightarrow> ptr \<Rightarrow> ptr \<Rightarrow> ptr \<Rightarrow> nat list \<Rightarrow> 'a mux_call" where
  "assignDeviceIds muxSelectGetQueue frame infos out_devices [] w = (mux_success, w)"
| "assignDeviceIds muxSelectGetQueue frame infos out_devices (deviceIndex # rest) w =
     (let device = handle_at w out_devices deviceIndex;
          w1 = set_device_id device (info_id (device_infos w (handle_at w infos deviceIndex))) w in
      case setQueueTypeIds muxSelectGetQueue frame device [0..<unat mux_queue_type_total] w1 of
        (error, w2) \<Rightarrow>
          if error \<noteq> mux_success then (error, w2)
          else assignDeviceIds muxSelectGetQueue frame infos out_devices rest w2)"

definition muxCreateDevices ::
  "'a create_devices_hook list \<Rightarrow> (ptr \<Rightarrow> mux_allocator_info_s \<Rightarrow> 'a mux_proc)
    \<Rightarrow> (ptr \<Rightarrow> u32 \<Rightarrow> u32 \<Rightarrow> ptr \<Rightarrow> 'a mux_call) \<Rightarrow> ptr
    \<Rightarrow> u64 \<Rightarrow> ptr \<Rightarrow> mux_allocator_info_s \<Rightarrow> ptr \<Rightarrow> 'a mux_world_scheme
    \<Rightarrow> (mux_result_t \<times> 'a mux_world_scheme) option" where
  "muxCreateDevices hooks muxSelectDestroyDevice muxSelectGetQueue frame devices_length infos
       allocator_info out_devices w =
     (if out_devices = 0 then Some (mux_error_null_out_parameter, w)
      else if devices_length = 0 then Some (mux_error_invalid_value, w)
      else if allocatorInfoIsInvalid allocator_info
      then Some (mux_error_null_allocator_callback, w)
      else case createTargetDevices hooks muxSelectDestroyDevice devices_length infos
                  allocator_info out_devices 0
                  (fold (\<lambda>i. set_cell (out_devices + 8 * of_nat i) 0)
                        [0..<unat devices_length] w) of
        None \<Rightarrow> None
      | Some (error, w1) \<Rightarrow>
          if error \<noteq> mux_success then Some (error, w1)
          else case assignDeviceIds muxSelectGetQueue frame infos out_devices
                      [0..<unat devices_length] w1 of (error, w2) \<Rightarrow>
            if error \<noteq> mux_success then Some (error,
              cleanup_devices muxSelectDestroyDevice devices_length allocator_info out_devices w2)
            else Some (mux_success, w2))"

section \<open>Device identifiers\<close>

lemma device_id_parts:
  fixes a b :: u64
  assumes a: "take_bit 8 a = a" and b: "take_bit 8 b = b"
  shows "take_bit 8 (ucast (a OR push_bit 8 b) :: u32) = ucast a"
    and "drop_bit 8 (ucast (a OR push_bit 8 b) :: u32) = ucast b"
    and "NOT (mask 16) AND (ucast (a OR push_bit 8 b) :: u32) = 0"
  by (auto intro!: bit_word_eqI simp: bit_simps dest!: bit_of_small [OF a] bit_of_small [OF b])

lemma object_id_mask_eq: "mux_object_id_mask = NOT (mask 16)"
  by (simp add: mux_ids mask_eq_exp_minus_1)

lemma target_id_device_mask_eq: "mux_target_id_device_mask = mask 8"
  by (simp add: mux_ids mask_eq_exp_minus_1)

lemma device_id_low: "mux_object_id_device AND mask 8 = 0"
  by (simp add: mux_ids mask_eq_exp_minus_1)

text \<open>
  The identifier of device \<open>d\<close> of target \<open>t\<close> splits back into its parts, for up to 255 targets
  of up to 256 devices each.
\<close>

lemma device_id_fields:
  assumes "t < 255" and "d < 256"
  shows "let oid = makeId (makeTargetDeviceId (of_nat t) (of_nat d)) mux_object_id_device
         in getTargetIndex oid = of_nat t \<and> getObjectId oid = mux_object_id_device \<and>
            drop_bit 8 (getTargetId oid) = of_nat d"
proof -
  define oid where "oid = makeId (makeTargetDeviceId (of_nat t) (of_nat d)) mux_object_id_device"
  have t: "take_bit 8 (of_nat t + 1 :: u64) = of_nat t + 1"
    using assms(1) take_bit_of_nat_small [of "t + 1" 8, where 'a = 64] by (simp add: add.commute)
  have d: "take_bit 8 (of_nat d :: u64) = of_nat d"
    using assms(2) by (simp add: take_bit_of_nat_small)
  note parts = device_id_parts [OF t d, folded makeTargetDeviceId_def]
  have upper: "getObjectId (makeTargetDeviceId (of_nat t) (of_nat d)) = 0"
    using parts(3) by (simp add: getObjectId_def object_id_mask_eq)
  have "mux_target_id_device_mask AND oid = take_bit 8 (makeTargetDeviceId (of_nat t) (of_nat d))"
    using device_id_low by (simp add: oid_def makeId_def target_id_device_mask_eq take_bit_eq_mask
        bit.conj_disj_distrib2 and.commute [of "mask 8"])
  then have "getTargetIndex oid = of_nat t"
    using parts(1) assms(1) ucast_of_nat_small [of "t + 1"] ucast_of_nat_small [of t]
    by (simp add: getTargetIndex_def add.commute)
  then show ?thesis
    using upper parts(2) assms(2) ucast_of_nat_small [of d]
    by (simp add: oid_def getObjectId_makeId getTargetId_makeId)
qed

section \<open>Enumeration gives identifiers that lead back to the target\<close>

text \<open>
  The documented behaviour of a target's \<^verbatim>\<open>muxGetDeviceInfos\<close> hook for all device types: it
  reports how many devices the target has, or fills the array with the addresses of their
  infos, and changes nothing else.
\<close>

definition reports_devices :: "'a device_infos_hook \<Rightarrow> ptr list \<Rightarrow> bool" where
  "reports_devices hook infos \<longleftrightarrow>
     (\<forall>w p. p \<noteq> 0 \<longrightarrow> hook mux_device_type_all 0 0 p w
        = (mux_success, set_cell p (of_nat (length infos)) w)) \<and>
     (\<forall>w q. q \<noteq> 0 \<longrightarrow> hook mux_device_type_all (of_nat (length infos)) q 0 w
        = (mux_success, fold (\<lambda>i. set_cell (q + 8 * of_nat i) (infos ! i)) [0..<length infos] w))"

lemma fold_set_cell:
  assumes "n < 2 ^ 32" and "i < n"
  shows "handle_at (fold (\<lambda>i. set_cell (q + 8 * of_nat i) (f i)) [0..<n] w) q i = f i"
  using assms
  by (induction n) (auto simp: handle_at_def set_cell_def array_slot_eq_iff less_Suc_eq)

lemma fold_set_cell_infos:
  "device_infos (fold (\<lambda>i. set_cell (q + 8 * of_nat i) (f i)) xs w) = device_infos w"
  by (induction xs arbitrary: w) (simp_all add: set_cell_def)

lemma handle_at_set_info_id [simp]: "handle_at (set_info_id p oid w) q i = handle_at w q i"
  by (simp add: handle_at_def set_info_id_def)

lemma info_id_set_info_id [simp]:
  "info_id (device_infos (set_info_id p oid w) q)
    = (if q = p then oid else info_id (device_infos w q))"
  by (simp add: set_info_id_def)

lemma handle_at_fold_set_info_id:
  "handle_at (fold (\<lambda>i v. set_info_id (handle_at v q i) (oid i) v) xs w) q j = handle_at w q j"
  by (induction xs arbitrary: w) simp_all

lemma fold_set_info_id:
  assumes "\<forall>i < length infos. handle_at w q i = infos ! i" and "distinct infos"
    and "n \<le> length infos"
  shows "let w' = fold (\<lambda>i v. set_info_id (handle_at v q i) (oid i) v) [0..<n] w in
         (\<forall>i < n. info_id (device_infos w' (infos ! i)) = oid i) \<and>
         (\<forall>p. p \<notin> set (take n infos) \<longrightarrow> info_id (device_infos w' p) = info_id (device_infos w p))"
  using assms(3) unfolding Let_def
proof (induction n)
  case (Suc n)
  let ?v = "fold (\<lambda>i v. set_info_id (handle_at v q i) (oid i) v) [0..<n] w"
  have h: "handle_at ?v q n = infos ! n"
    using assms(1) Suc.prems by (simp add: handle_at_fold_set_info_id)
  have ne: "infos ! i \<noteq> infos ! n" if "i < n" for i
    using that assms(2) Suc.prems by (simp add: nth_eq_iff_index_eq)
  show ?case
    using Suc.IH Suc.prems ne
    by (auto simp: h less_Suc_eq take_Suc_conv_app_nth)
qed simp

lemma initDeviceInfoIds_ids:
  assumes "list_all2 reports_devices hooks infos" and "\<forall>ps \<in> set infos. length ps \<le> 16"
    and "distinct (concat infos)" and "frame \<noteq> 0" and "frame + 8 \<noteq> 0"
  shows "\<exists>w'. initDeviceInfoIds frame t hooks w = Some (mux_success, w') \<and>
     (\<forall>i < length infos. \<forall>d < length (infos ! i).
        info_id (device_infos w' (infos ! i ! d))
          = makeId (makeTargetDeviceId (of_nat (t + i)) (of_nat d)) mux_object_id_device) \<and>
     (\<forall>p. p \<notin> set (concat infos) \<longrightarrow> info_id (device_infos w' p) = info_id (device_infos w p))"
  using assms(1-3)
proof (induction hooks infos arbitrary: t w rule: list_all2_induct)
  case (Cons hook hooks ps infos)
  let ?w1 = "set_cell frame (of_nat (length ps)) (set_cell frame 0 w)"
  let ?w2 = "fold (\<lambda>i. set_cell (frame + 8 + 8 * of_nat i) (ps ! i)) [0..<length ps] ?w1"
  let ?oid = "\<lambda>d. makeId (makeTargetDeviceId (of_nat t) (of_nat d)) mux_object_id_device"
  let ?w3 = "fold (\<lambda>d v. set_info_id (handle_at v (frame + 8) d) (?oid d) v) [0..<length ps] ?w2"
  have len: "length ps \<le> 16" "unat (of_nat (length ps) :: u64) = length ps"
    using Cons.prems by (simp_all add: unat_of_nat)
  have step: "initDeviceInfoIds frame t (hook # hooks) w = initDeviceInfoIds frame (Suc t) hooks ?w3"
    using Cons.hyps(1) assms(4,5) len
    by (simp add: reports_devices_def set_cell_def word_less_nat_alt)
  have h: "\<forall>i < length ps. handle_at ?w2 (frame + 8) i = ps ! i"
    using len by (simp add: fold_set_cell)
  have ids: "\<forall>d < length ps. info_id (device_infos ?w3 (ps ! d)) = ?oid d"
      "\<forall>p. p \<notin> set ps \<longrightarrow> info_id (device_infos ?w3 p) = info_id (device_infos ?w2 p)"
    using fold_set_info_id [OF h, of "length ps" ?oid] Cons.prems(2) by (simp_all add: Let_def)
  have frame: "device_infos ?w2 = device_infos w"
    by (simp add: fold_set_cell_infos set_cell_def)
  from Cons.IH [of "Suc t" ?w3] Cons.prems obtain w' where
    run: "initDeviceInfoIds frame (Suc t) hooks ?w3 = Some (mux_success, w')" and
    rest: "\<forall>i < length infos. \<forall>d < length (infos ! i). info_id (device_infos w' (infos ! i ! d))
        = makeId (makeTargetDeviceId (of_nat (Suc t + i)) (of_nat d)) mux_object_id_device" and
    keep: "\<forall>p. p \<notin> set (concat infos) \<longrightarrow> info_id (device_infos w' p) = info_id (device_infos ?w3 p)"
    by auto
  have head: "info_id (device_infos w' (ps ! d)) = ?oid d" if "d < length ps" for d
  proof -
    have "ps ! d \<notin> set (concat infos)"
      using that Cons.prems(2) by (auto dest: nth_mem)
    with keep ids(1) that show ?thesis by simp
  qed
  have other: "info_id (device_infos w' p) = info_id (device_infos w p)"
    if "p \<notin> set (concat (ps # infos))" for p
    using that keep ids frame by simp
  have "info_id (device_infos w' ((ps # infos) ! i ! d))
      = makeId (makeTargetDeviceId (of_nat (t + i)) (of_nat d)) mux_object_id_device"
    if "i < length (ps # infos)" and "d < length ((ps # infos) ! i)" for i d
    using that head rest by (cases i) simp_all
  moreover have "initDeviceInfoIds frame t (hook # hooks) w = Some (mux_success, w')"
    using step run by (rule trans)
  ultimately show ?case
    using other by blast
qed simp

text \<open>A hook with that behaviour.\<close>

definition static_hook :: "ptr list \<Rightarrow> 'a device_infos_hook" where
  "static_hook infos types n q p w =
     (mux_success,
      (if q \<noteq> 0 then fold (\<lambda>i. set_cell (q + 8 * of_nat i) (infos ! i)) [0..<length infos] else id)
        ((if p \<noteq> 0 then set_cell p (of_nat (length infos)) else id) w))"

lemma static_hook_reports: "reports_devices (static_hook infos) infos"
  by (simp add: reports_devices_def static_hook_def)

section \<open>Properties\<close>

text \<open>
  C27: If every target's hook reports its device infos, at most 16 for each of at most 255
  targets and no info twice, then the initialisation in \<^verbatim>\<open>muxGetDeviceInfos\<close> succeeds and
  gives every info an identifier of type device from which \<^verbatim>\<open>getTargetIndex\<close> reads the index
  of the target it belongs to, and whose remaining part is the index of the device within
  the target; so \<^verbatim>\<open>muxCreateDevices\<close> finds the hook of the right target.
\<close>

theorem enumeration_ids_lead_back:
  assumes "list_all2 reports_devices hooks infos" and "length infos \<le> 255"
    and "\<forall>ps \<in> set infos. length ps \<le> 16" and "distinct (concat infos)"
    and "frame \<noteq> 0" and "frame + 8 \<noteq> 0"
  shows "\<exists>w'. initDeviceInfoIds frame 0 hooks w = Some (mux_success, w') \<and>
     (\<forall>t < length infos. \<forall>d < length (infos ! t).
        let oid = info_id (device_infos w' (infos ! t ! d))
        in getTargetIndex oid = of_nat t \<and> getObjectId oid = mux_object_id_device \<and>
           drop_bit 8 (getTargetId oid) = of_nat d)"
proof -
  from initDeviceInfoIds_ids [OF assms(1,3-6), of 0 w] obtain w' where
    run: "initDeviceInfoIds frame 0 hooks w = Some (mux_success, w')" and
    ids: "\<forall>t < length infos. \<forall>d < length (infos ! t). info_id (device_infos w' (infos ! t ! d))
        = makeId (makeTargetDeviceId (of_nat t) (of_nat d)) mux_object_id_device"
    by auto
  have "t < 255 \<and> d < 256" if "t < length infos" "d < length (infos ! t)" for t d
    using that assms(2,3) nth_mem [OF that(1)] by fastforce
  with run ids device_id_fields show ?thesis
    by (intro exI [of _ w']) simp
qed

theorem enumeration_ids_lead_back_witness:
  "\<exists>w'. initDeviceInfoIds 0x500 0 [static_hook [0x10], static_hook [0x20, 0x30]] empty_world
       = Some (mux_success, w') \<and>
     getTargetIndex (info_id (device_infos w' 0x30)) = 1 \<and>
     drop_bit 8 (getTargetId (info_id (device_infos w' 0x30))) = 1"
proof -
  have "list_all2 reports_devices [static_hook [0x10], static_hook [0x20, 0x30]]
      [[0x10], [0x20, 0x30]]"
    by (simp add: static_hook_reports)
  from enumeration_ids_lead_back [OF this, of "0x500" empty_world] show ?thesis
    by (auto simp: Let_def dest!: spec [of _ "Suc 0"])
qed

end
