(* ===== verification/Word_Bits.thy ===== *)
theory Word_Bits
  imports Mux_Prelude
begin

unbundle bit_operations_syntax

text \<open>
  Facts on the bit operations that several components use: the lowest and the highest bit of a
  word, the test for a power of two, rounding up to a power of two with the shift-and-or
  sequence, and rounding down to a multiple of a power of two with a mask.
\<close>

section \<open>The lowest set bit\<close>

lemma odd_and_minus:
  fixes g :: "'a :: len word"
  assumes "odd g"
  shows "g AND - g = 1"
proof -
  have "- g = NOT (g XOR 1)"
    using assms by (simp add: xor_one_eq minus_eq_not_minus_1)
  then show ?thesis
    using assms by (auto intro!: bit_word_eqI simp: bit_simps bit_1_iff simp flip: bit_0)
qed

lemma and_minus_lowest:
  fixes h :: "'a :: len word"
  assumes "bit h k" and "\<forall>j < k. \<not> bit h j"
  shows "h AND - h = push_bit k 1"
proof -
  let ?g = "drop_bit k h"
  have "take_bit k h = 0"
    using assms(2) by (auto intro!: bit_word_eqI simp: bit_simps)
  then have h: "h = push_bit k ?g"
    by (metis add_0 bits_ident add.commute)
  have "odd ?g"
    using assms(1) by (simp add: bit_simps flip: bit_0)
  moreover have "- push_bit k ?g = push_bit k (- ?g)"
    by (simp add: push_bit_eq_mult)
  ultimately show ?thesis
    using h odd_and_minus [of ?g] by (metis push_bit_and)
qed

lemma word_lowest_bit:
  fixes h :: "'a :: len word"
  assumes "h \<noteq> 0"
  obtains k where "k < LENGTH('a)" and "bit h k" and "\<forall>j < k. \<not> bit h j"
proof -
  have "\<exists>n. bit h n"
    using assms by (auto simp: bit_eq_iff)
  then show thesis
    using that [of "LEAST n. bit h n"] not_less_Least [of _ "bit h"]
    by (metis LeastI bit_imp_le_length)
qed

section \<open>Rounding up to a power of two\<close>

text \<open>
  A word is \<open>n\<close>-smeared when every bit is the disjunction of the \<open>n\<close> bits from it upwards in the
  original word; each step of the bit hack doubles \<open>n\<close>.
\<close>

definition smeared :: "nat \<Rightarrow> u64 \<Rightarrow> u64 \<Rightarrow> bool" where
  "smeared n w0 w \<longleftrightarrow> (\<forall>i. bit w i \<longleftrightarrow> (\<exists>j. i \<le> j \<and> j < i + n \<and> bit w0 j))"

lemma smeared_one: "smeared 1 w w"
  by (auto simp: smeared_def) (metis le_antisym less_Suc_eq_le)

lemma smeared_double:
  assumes "smeared n w0 w"
  shows "smeared (2 * n) w0 (w OR drop_bit n w)"
  unfolding smeared_def
proof
  fix i
  have "bit (w OR drop_bit n w) i \<longleftrightarrow> (\<exists>j. i \<le> j \<and> j < i + n \<and> bit w0 j) \<or>
      (\<exists>j. i + n \<le> j \<and> j < i + n + n \<and> bit w0 j)"
    using assms by (simp add: smeared_def bit_simps add.commute)
  also have "\<dots> \<longleftrightarrow> (\<exists>j. i \<le> j \<and> j < i + 2 * n \<and> bit w0 j)"
    by (auto; metis add.assoc le_add_same_cancel1 less_or_eq_imp_le linorder_not_less mult_2 order.trans trans_less_add1 zero_le)
  finally show "bit (w OR drop_bit n w) i \<longleftrightarrow> (\<exists>j. i \<le> j \<and> j < i + 2 * n \<and> bit w0 j)" .
qed

lemma word_highest_bit:
  fixes h :: "'a :: len word"
  assumes "h \<noteq> 0"
  obtains m where "m < LENGTH('a)" and "bit h m" and "\<forall>j > m. \<not> bit h j"
proof -
  let ?S = "{n. bit h n}"
  have fin: "finite ?S"
    by (rule finite_subset [of _ "{..<LENGTH('a)}"]) (auto dest: bit_imp_le_length)
  have ne: "?S \<noteq> {}"
    using assms by (auto simp: bit_eq_iff)
  show thesis
    using that [of "Max ?S"] Max_in [OF fin ne] Max_ge [OF fin] bit_imp_le_length
    by (metis linorder_not_less mem_Collect_eq)
qed

lemma smeared_mask:
  assumes "smeared 64 w0 w" and "bit w0 m" and "\<forall>j > m. \<not> bit w0 j"
  shows "w = mask (Suc m)"
proof (rule bit_word_eqI)
  fix i
  have m: "m < 64"
    using assms(2) bit_imp_le_length by fastforce
  assume "i < LENGTH(64)"
  then show "bit w i \<longleftrightarrow> bit (mask (Suc m) :: u64) i"
    using assms m by (auto simp: smeared_def bit_mask_iff) (metis leI less_Suc_eq_le order.strict_trans1 trans_less_add2)+
qed

lemma bit_unat_iff:
  fixes x :: "'a :: len word"
  shows "bit x m \<longleftrightarrow> odd (unat x div 2 ^ m)"
  by (metis bit_iff_odd bit_unsigned_iff bit_imp_le_length possible_bit_nat)

lemma highest_bit_bounds:
  fixes x :: "'a :: len word"
  assumes "bit x m" and "\<forall>j > m. \<not> bit x j"
  shows "2 ^ m \<le> unat x" and "unat x < 2 ^ Suc m"
proof -
  have "unat x div 2 ^ m \<noteq> 0"
    using assms(1) by (metis bit_unat_iff even_zero)
  then show "2 ^ m \<le> unat x"
    by (simp add: div_eq_0_iff)
  have "take_bit (Suc m) x = x"
    using assms(2) by (auto intro!: bit_word_eqI simp: bit_simps) (meson not_less_eq)
  then show "unat x < 2 ^ Suc m"
    by (metis take_bit_nat_less_exp unsigned_take_bit_eq)
qed

lemma bit_between:
  fixes x :: "'a :: len word"
  assumes "2 ^ m \<le> unat x" and "unat x < 2 ^ Suc m"
  shows "bit x m"
proof -
  have "unat x div 2 ^ m = 1"
    using assms by (intro div_nat_eqI) (simp_all add: mult.commute)
  then show ?thesis
    by (simp add: bit_unat_iff)
qed

lemma power_of_two_test:
  fixes v :: "'a :: len word"
  assumes "v \<noteq> 0" and "v AND (v - 1) = 0"
  obtains m where "m < LENGTH('a)" and "unat v = 2 ^ m"
proof -
  obtain m where m: "m < LENGTH('a)" "bit v m" "\<forall>j > m. \<not> bit v j"
    using word_highest_bit [OF assms(1)] .
  note bounds = highest_bit_bounds [OF m(2,3)]
  have "unat v = 2 ^ m"
  proof (rule ccontr)
    assume "unat v \<noteq> 2 ^ m"
    with bounds have "2 ^ m \<le> unat (v - 1)" "unat (v - 1) < 2 ^ Suc m"
      by (simp_all add: unat_minus_no_wrap)
    then have "bit (v AND (v - 1)) m"
      using m(2) bit_between by (simp add: bit_simps)
    then show False
      using assms(2) by simp
  qed
  with m(1) show thesis by (rule that)
qed

lemma smear_all:
  fixes v :: u64
  defines "v1 \<equiv> v OR drop_bit 1 v"
  defines "v2 \<equiv> v1 OR drop_bit 2 v1"
  defines "v3 \<equiv> v2 OR drop_bit 4 v2"
  defines "v4 \<equiv> v3 OR drop_bit 8 v3"
  defines "v5 \<equiv> v4 OR drop_bit 16 v4"
  defines "v6 \<equiv> v5 OR drop_bit 32 v5"
  shows "smeared 64 v v6"
proof -
  have "smeared 2 v v1"
    using smeared_double [OF smeared_one [of v]] by (simp add: v1_def)
  from smeared_double [OF this] have "smeared 4 v v2" by (simp add: v2_def)
  from smeared_double [OF this] have "smeared 8 v v3" by (simp add: v3_def)
  from smeared_double [OF this] have "smeared 16 v v4" by (simp add: v4_def)
  from smeared_double [OF this] have "smeared 32 v v5" by (simp add: v5_def)
  from smeared_double [OF this] show ?thesis by (simp add: v6_def)
qed

lemma round_up_power_of_two:
  fixes v :: u64
  assumes "2 \<le> unat v" and "unat v \<le> 2 ^ 63" and "smeared 64 (v - 1) w"
  shows "\<exists>k < 64. w + 1 = 2 ^ k \<and> unat v \<le> 2 ^ k \<and> 2 ^ k < 2 * unat v"
proof -
  have v1: "unat (v - 1) = unat v - 1"
    using assms(1) by (simp add: unat_minus_no_wrap)
  then have "v - 1 \<noteq> 0"
    using assms(1) by (metis Suc_1 diff_is_0_eq not_less_eq_eq unat_0 One_nat_def)
  then obtain m where m: "m < 64" "bit (v - 1) m" "\<forall>j > m. \<not> bit (v - 1) j"
    using word_highest_bit [of "v - 1"] by auto
  note bounds = highest_bit_bounds [OF m(2,3)]
  have "2 ^ m < (2 ^ 63 :: nat)"
    using bounds(1) v1 assms by linarith
  then have "m < 63" by (rule power_less_imp_less_exp [rotated]) simp
  moreover have "w + 1 = 2 ^ Suc m"
    using smeared_mask [OF assms(3) m(2,3)] by (simp add: mask_eq_exp_minus_1)
  ultimately show ?thesis
    using bounds v1 assms(1) by (intro exI [of _ "Suc m"]) auto
qed

section \<open>Rounding down to a multiple\<close>

lemma unat_and_not_mask:
  fixes x al :: "'a :: len word"
  assumes "unat al = 2 ^ k"
  shows "unat (x AND NOT (al - 1)) = 2 ^ k * (unat x div 2 ^ k)"
proof -
  have "al = of_nat (unat al)" by simp
  then have "al - 1 = mask k"
    by (simp only: assms of_nat_power of_nat_numeral mask_eq_exp_minus_1)
  moreover have "x - take_bit k x = x AND NOT (take_bit k x)"
    by (rule disjunctive_diff) (simp add: bit_simps)
  moreover have "x AND NOT (take_bit k x) = x AND NOT (mask k)"
    by (rule bit_word_eqI) (auto simp: bit_simps)
  moreover have "unat (take_bit k x) = unat x mod 2 ^ k"
    by (subst unsigned_take_bit_eq) (rule take_bit_eq_mod)
  ultimately have "unat (x AND NOT (al - 1)) = unat x - unat x mod 2 ^ k"
    by (metis mod_le_divisor mod_less_eq_dividend unat_minus_no_wrap)
  then show ?thesis
    by (simp add: minus_mod_eq_mult_div)
qed

lemma unat_power_two:
  assumes "k < LENGTH('a)"
  shows "unat (2 ^ k :: 'a :: len word) = 2 ^ k"
proof -
  have "unat (of_nat (2 ^ k) :: 'a word) = 2 ^ k mod 2 ^ LENGTH('a)"
    by (rule unat_of_nat)
  moreover have "(2 :: nat) ^ k < 2 ^ LENGTH('a)"
    using assms by simp
  ultimately show ?thesis
    by (simp only: of_nat_power of_nat_numeral mod_less)
qed

end
