(* ===== verification/Mux_Helpers.thy ===== *)
theory Mux_Helpers
  imports Mux_Api Word_Bits
begin

unbundle bit_operations_syntax

text \<open>
  The helpers of \<^verbatim>\<open>modules/mux/utils/source/helpers.cpp\<close>: choosing a heap, rounding an
  alignment for the default allocation callback, the OpenCL profile of a device and the copy
  that synchronises two memory objects. \<^verbatim>\<open>posix_memalign\<close> is a parameter of \<open>mux_alloc\<close>, and
  the four dispatchers behind the memory entry points are parameters of \<open>synchronizeMemory\<close>.
\<close>

section \<open>Heaps\<close>

definition lookupTable :: "u32 list" where
  "lookupTable =
     [0, 1, 28, 2, 29, 14, 24, 3, 30, 22, 20, 15, 25, 17, 4, 8,
      31, 27, 13, 23, 21, 19, 16, 7, 26, 12, 18, 6, 11, 5, 10, 9]"

definition findFirstSupportedHeap :: "u32 \<Rightarrow> u32" where
  "findFirstSupportedHeap heaps =
     push_bit (unat (lookupTable ! unat (drop_bit 27 ((heaps AND - heaps) * 0x077CB531)))) 1"

section \<open>Allocation\<close>

definition alloc_alignment :: "u64 \<Rightarrow> u64" where
  "alloc_alignment alignment =
     (let v = (if alignment < 8 then 8 else alignment) in
      if \<not> (v \<noteq> 0 \<and> v AND (v - 1) = 0)
      then let v = v - 1;
               v = v OR drop_bit 1 v;
               v = v OR drop_bit 2 v;
               v = v OR drop_bit 4 v;
               v = v OR drop_bit 8 v;
               v = v OR drop_bit 16 v;
               v = v OR drop_bit 32 v
           in v + 1
      else v)"

text \<open>\<open>posix_memalign\<close> takes alignment and size and returns an error number and the pointer.\<close>

definition mux_alloc ::
  "(u64 \<Rightarrow> u64 \<Rightarrow> 'w \<Rightarrow> int \<times> ptr \<times> 'w) \<Rightarrow> ptr \<Rightarrow> u64 \<Rightarrow> u64 \<Rightarrow> 'w \<Rightarrow> ptr \<times> 'w" where
  "mux_alloc posix_memalign user_data sz alignment w =
     (case posix_memalign (alloc_alignment alignment) sz w of (error, pointer, w') \<Rightarrow>
        if error \<noteq> 0 then (0, w') else (pointer, w'))"

definition mux_free :: "(ptr \<Rightarrow> 'w \<Rightarrow> 'w) \<Rightarrow> ptr \<Rightarrow> ptr \<Rightarrow> 'w \<Rightarrow> 'w" where
  "mux_free free user_data pointer w = free pointer w"

section \<open>Profile\<close>

definition detectOpenCLProfile :: "mux_device_info_s \<Rightarrow> string" where
  "detectOpenCLProfile device =
     (let is_full_profile = (allocation_size device \<ge> 128 * 1024 * 1024
            \<and> shared_local_memory_size device \<ge> 32 * 1024
            \<and> (image_support device \<longrightarrow>
                 max_sampled_images device \<ge> 128 \<and> max_storage_images device \<ge> 8
                 \<and> max_samplers device \<ge> 16 \<and> max_image_dimension_2d device \<ge> 8192
                 \<and> max_image_dimension_3d device \<ge> 2048 \<and> max_image_dimension_1d device \<ge> 65536
                 \<and> max_image_array_layers device \<ge> 2048))
      in if is_full_profile then ''FULL_PROFILE'' else ''EMBEDDED_PROFILE'')"

section \<open>Synchronisation\<close>

text \<open>The local variables \<^verbatim>\<open>src\<close> and \<^verbatim>\<open>dst\<close> live at \<open>src_slot\<close> and \<open>dst_slot\<close>.\<close>

definition map_unless_mapped ::
  "(ptr \<Rightarrow> ptr \<Rightarrow> u64 \<Rightarrow> u64 \<Rightarrow> ptr \<Rightarrow> 'a mux_call) \<Rightarrow> ptr \<Rightarrow> ptr \<Rightarrow> ptr \<Rightarrow> u64 \<Rightarrow> u64 \<Rightarrow> ptr
    \<Rightarrow> 'a mux_call" where
  "map_unless_mapped muxSelectMapMemory device memory host_ptr offset sz slot w =
     (let w0 = set_cell slot 0 w in
      if host_ptr \<noteq> 0 then (mux_success, set_cell slot host_ptr w0)
      else muxMapMemory muxSelectMapMemory device memory offset sz slot w0)"

definition synchronizeMemory ::
  "(ptr \<Rightarrow> ptr \<Rightarrow> u64 \<Rightarrow> u64 \<Rightarrow> ptr \<Rightarrow> 'a mux_call) \<Rightarrow> (ptr \<Rightarrow> ptr \<Rightarrow> u64 \<Rightarrow> u64 \<Rightarrow> 'a mux_call)
    \<Rightarrow> (ptr \<Rightarrow> ptr \<Rightarrow> u64 \<Rightarrow> u64 \<Rightarrow> 'a mux_call) \<Rightarrow> (ptr \<Rightarrow> ptr \<Rightarrow> 'a mux_call) \<Rightarrow> ptr \<Rightarrow> ptr
    \<Rightarrow> ptr \<Rightarrow> ptr \<Rightarrow> ptr \<Rightarrow> ptr \<Rightarrow> ptr \<Rightarrow> ptr \<Rightarrow> u64 \<Rightarrow> u64 \<Rightarrow> 'a mux_call" where
  "synchronizeMemory mapMemory flushFrom flushTo unmapMemory src_slot dst_slot src_device
       dst_device src_memory dst_memory src_host_ptr dst_host_ptr offset sz w =
     (case map_unless_mapped mapMemory src_device src_memory src_host_ptr offset sz src_slot w of
        (error, w1) \<Rightarrow> if error \<noteq> mux_success then (error, w1) else
      (case muxFlushMappedMemoryFromDevice flushFrom src_device src_memory offset sz w1 of
        (error, w2) \<Rightarrow> if error \<noteq> mux_success then (error, w2) else
      (case map_unless_mapped mapMemory dst_device dst_memory dst_host_ptr offset sz dst_slot w2 of
        (error, w3) \<Rightarrow> if error \<noteq> mux_success then (error, w3) else
      (case muxFlushMappedMemoryFromDevice flushFrom dst_device dst_memory offset sz w3 of
        (error, w4) \<Rightarrow> if error \<noteq> mux_success then (error, w4) else
      (let w5 = w4\<lparr>mem := memcpy (cells w4 dst_slot) (cells w4 src_slot) sz (mem w4)\<rparr> in
      (case muxFlushMappedMemoryToDevice flushTo dst_device dst_memory offset sz w5 of
        (error, w6) \<Rightarrow> if error \<noteq> mux_success then (error, w6) else
      (case (if dst_host_ptr = 0 then muxUnmapMemory unmapMemory dst_device dst_memory w6
             else (mux_success, w6)) of
        (error, w7) \<Rightarrow> if error \<noteq> mux_success then (error, w7) else
      (if src_host_ptr = 0 then muxUnmapMemory unmapMemory src_device src_memory w7
       else (mux_success, w7)))))))))"

section \<open>The lookup table\<close>

lemma lookupTable_correct:
  assumes "k < 32"
  shows "unat (lookupTable ! unat (drop_bit 27 (2 ^ k * 0x077CB531 :: u32))) = k"
proof -
  have "\<forall>k \<in> set [0..<32]. unat (lookupTable ! unat (drop_bit 27 (2 ^ k * 0x077CB531 :: u32))) = k"
    by code_simp
  with assms show ?thesis by simp
qed

section \<open>Properties\<close>



text \<open>
  The alignment that \<^verbatim>\<open>mux::alloc\<close> passes to the system allocator is the least power of
  two that is at least the requested alignment and at least the width of a pointer, for
  every request up to \<^verbatim>\<open>2^63\<close>.
\<close>

lemma alloc_alignment_spec:
  assumes "unat alignment \<le> 2 ^ 63"
  shows "\<exists>k < 64. alloc_alignment alignment = 2 ^ k \<and> max 8 (unat alignment) \<le> 2 ^ k \<and>
           2 ^ k < 2 * max 8 (unat alignment)"
proof -
  define v where "v = (if alignment < 8 then 8 else alignment)"
  have v: "unat v = max 8 (unat alignment)"
    by (simp add: v_def word_less_nat_alt)
  show ?thesis
  proof (cases "v \<noteq> 0 \<and> v AND (v - 1) = 0")
    case True
    then have res: "alloc_alignment alignment = v"
      by (simp add: alloc_alignment_def v_def [symmetric])
    obtain m where m: "m < 64" "unat v = 2 ^ m"
      using True power_of_two_test [of v] by auto
    have "v = of_nat (unat v)"
      by simp
    then have "v = 2 ^ m"
      using m(2) by simp
    with res m v show ?thesis by (intro exI [of _ m]) auto
  next
    case False
    then show ?thesis
      using round_up_power_of_two [OF _ _ smear_all [of "v - 1"]] assms v
      by (simp add: alloc_alignment_def v_def [symmetric] Let_def)
  qed
qed

end
