(* ===== verification/Cargo_Small_Vector.thy ===== *)
theory Cargo_Small_Vector
  imports Mux_Allocator
begin

text \<open>
  The vector with embedded storage (\<^verbatim>\<open>modules/cargo/include/cargo/small_vector.h\<close>), at the
  allocator \<^verbatim>\<open>mux::cargo_allocator\<close> that \<^verbatim>\<open>mux::small_vector\<close> uses. A vector is its
  allocator, its capacity, the address of its embedded storage, the address \<^verbatim>\<open>Begin\<close> of
  the storage in use and the elements from \<^verbatim>\<open>Begin\<close> to \<^verbatim>\<open>End\<close>. An iterator is an index.
  Sizes are natural numbers: a vector holds fewer than \<^verbatim>\<open>2^63\<close> elements. Constructors and
  destructors of the elements have no effect of their own. A failed \<^verbatim>\<open>CARGO_ASSERT\<close> is
  \<^term>\<open>None\<close>.

  \<open>sv_ok\<close> is the representation invariant. The section on the list contract shows that the
  operations implement lists; the locale \<open>appendable\<close> is what a client that only appends
  relies on.
\<close>

datatype cargo_result = cargo_success | cargo_bad_alloc | cargo_out_of_bounds

record 'e small_vector =
  sv_allocator :: mux_allocator_info_s
  sv_capacity :: nat
  sv_storage :: ptr
  sv_begin :: ptr
  sv_elems :: "'e list"

section \<open>Construction, access and capacity\<close>

definition sv_new :: "nat \<Rightarrow> ptr \<Rightarrow> mux_allocator_info_s \<Rightarrow> 'e small_vector" where
  "sv_new N storage alloc =
     \<lparr>sv_allocator = alloc, sv_capacity = N, sv_storage = storage, sv_begin = storage,
      sv_elems = []\<rparr>"

text \<open>The move constructor at the storage address of the new object; the second vector is
  what is left of the source.\<close>

definition sv_move_new :: "nat \<Rightarrow> ptr \<Rightarrow> 'e small_vector \<Rightarrow> 'e small_vector \<times> 'e small_vector" where
  "sv_move_new N storage other =
     (if sv_capacity other \<le> N
      then (\<lparr>sv_allocator = sv_allocator other, sv_capacity = sv_capacity other,
             sv_storage = storage, sv_begin = storage, sv_elems = sv_elems other\<rparr>,
            other\<lparr>sv_begin := sv_storage other, sv_elems := []\<rparr>)
      else (\<lparr>sv_allocator = sv_allocator other, sv_capacity = sv_capacity other,
             sv_storage = storage, sv_begin = sv_begin other, sv_elems = sv_elems other\<rparr>,
            other\<lparr>sv_begin := sv_storage other, sv_elems := [], sv_capacity := N\<rparr>))"

definition sv_clear :: "'e small_vector \<Rightarrow> 'e small_vector" where
  "sv_clear v = v\<lparr>sv_elems := []\<rparr>"

text \<open>The destructor.\<close>

definition sv_destroy ::
  "nat \<Rightarrow> 'e small_vector \<Rightarrow> 'a mux_world_scheme \<Rightarrow> 'e small_vector \<times> 'a mux_world_scheme" where
  "sv_destroy N v w =
     (if N < sv_capacity v
      then ((sv_clear v)\<lparr>sv_begin := sv_storage v, sv_capacity := N\<rparr>,
            allocator_free (sv_allocator v) (sv_begin v) w)
      else (sv_clear v, w))"

text \<open>Move assignment of \<open>other\<close> to \<open>this\<close>, two different objects.\<close>

definition sv_move_assign ::
  "nat \<Rightarrow> 'e small_vector \<Rightarrow> 'e small_vector \<Rightarrow> 'a mux_world_scheme
    \<Rightarrow> 'e small_vector \<times> 'e small_vector \<times> 'a mux_world_scheme" where
  "sv_move_assign N this other w =
     (let (capacity, w') =
            (if N < sv_capacity this
             then (sv_capacity other, allocator_free (sv_allocator this) (sv_begin this) w)
             else (sv_capacity this, w))
      in if sv_capacity other \<le> N
         then (this\<lparr>sv_allocator := sv_allocator other, sv_capacity := capacity,
                    sv_elems := sv_elems other\<rparr>,
               other\<lparr>sv_begin := sv_storage other, sv_elems := []\<rparr>, w')
         else (this\<lparr>sv_allocator := sv_allocator other, sv_capacity := sv_capacity other,
                    sv_begin := sv_begin other, sv_elems := sv_elems other\<rparr>,
               other\<lparr>sv_begin := sv_storage other, sv_elems := [], sv_capacity := N\<rparr>, w'))"

definition sv_at :: "'e small_vector \<Rightarrow> nat \<Rightarrow> cargo_result + 'e" where
  "sv_at v index =
     (if length (sv_elems v) \<le> index then Inl cargo_out_of_bounds else Inr (sv_elems v ! index))"

definition sv_index :: "'e small_vector \<Rightarrow> nat \<Rightarrow> 'e option" where
  "sv_index v index = (if index < length (sv_elems v) then Some (sv_elems v ! index) else None)"

definition sv_front :: "'e small_vector \<Rightarrow> 'e option" where
  "sv_front v = (if sv_elems v \<noteq> [] then Some (hd (sv_elems v)) else None)"

definition sv_back :: "'e small_vector \<Rightarrow> 'e option" where
  "sv_back v = (if sv_elems v \<noteq> [] then Some (last (sv_elems v)) else None)"

definition sv_reserve ::
  "cpp_object \<Rightarrow> nat \<Rightarrow> nat \<Rightarrow> 'e small_vector \<Rightarrow> 'a mux_world_scheme
    \<Rightarrow> cargo_result \<times> 'e small_vector \<times> 'a mux_world_scheme" where
  "sv_reserve T N sz v w =
     (if sz \<le> sv_capacity v then (cargo_success, v, w)
      else case allocator_alloc (sv_allocator v) (Request_array T sz) w of (begin, w1) \<Rightarrow>
        if begin = 0 then (cargo_bad_alloc, v, w1)
        else (cargo_success, v\<lparr>sv_capacity := sz, sv_begin := begin\<rparr>,
              if N < sv_capacity v then allocator_free (sv_allocator v) (sv_begin v) w1 else w1))"

definition sv_shrink_to_fit ::
  "nat \<Rightarrow> 'e small_vector \<Rightarrow> 'a mux_world_scheme \<Rightarrow> 'e small_vector \<times> 'a mux_world_scheme" where
  "sv_shrink_to_fit N v w =
     (if length (sv_elems v) \<le> N \<and> N < sv_capacity v
      then (v\<lparr>sv_capacity := N, sv_begin := sv_storage v\<rparr>,
            allocator_free (sv_allocator v) (sv_begin v) w)
      else (v, w))"

definition sv_extend ::
  "cpp_object \<Rightarrow> nat \<Rightarrow> nat \<Rightarrow> 'e small_vector \<Rightarrow> 'a mux_world_scheme
    \<Rightarrow> cargo_result \<times> 'e small_vector \<times> 'a mux_world_scheme" where
  "sv_extend T N count v w =
     (let count' = count + length (sv_elems v) in
      if sv_capacity v \<ge> count' then (cargo_success, v, w)
      else sv_reserve T N (count' * 2) v w)"

section \<open>Modifiers\<close>

text \<open>
  The overloads of \<^verbatim>\<open>insert\<close> (one value, a count of values, a range, an initializer list)
  and \<^verbatim>\<open>emplace\<close> extend the storage, move the tail back and write the new elements. The
  result is the position of the first of them.
\<close>

definition sv_insert ::
  "cpp_object \<Rightarrow> nat \<Rightarrow> nat \<Rightarrow> 'e list \<Rightarrow> 'e small_vector \<Rightarrow> 'a mux_world_scheme
    \<Rightarrow> ((cargo_result + nat) \<times> 'e small_vector \<times> 'a mux_world_scheme) option" where
  "sv_insert T N pos values v w =
     (if \<not> pos \<le> length (sv_elems v) then None
      else case sv_extend T N (length values) v w of (error, v1, w1) \<Rightarrow>
        if error \<noteq> cargo_success then Some (Inl error, v1, w1)
        else Some (Inr pos,
          v1\<lparr>sv_elems := take pos (sv_elems v1) @ values @ drop pos (sv_elems v1)\<rparr>, w1))"

definition sv_erase :: "nat \<Rightarrow> 'e small_vector \<Rightarrow> (nat \<times> 'e small_vector) option" where
  "sv_erase pos v =
     (if pos < length (sv_elems v)
      then Some (pos, v\<lparr>sv_elems := take pos (sv_elems v) @ drop (Suc pos) (sv_elems v)\<rparr>)
      else None)"

text \<open>The range \<^verbatim>\<open>[first, last)\<close>; \<open>first\<close> must not be after \<open>last\<close>.\<close>

definition sv_erase_range ::
  "nat \<Rightarrow> nat \<Rightarrow> 'e small_vector \<Rightarrow> (nat \<times> 'e small_vector) option" where
  "sv_erase_range first end_pos v =
     (if end_pos \<le> length (sv_elems v)
      then Some (first, v\<lparr>sv_elems := take first (sv_elems v) @ drop end_pos (sv_elems v)\<rparr>)
      else None)"

definition sv_assign ::
  "cpp_object \<Rightarrow> nat \<Rightarrow> 'e list \<Rightarrow> 'e small_vector \<Rightarrow> 'a mux_world_scheme
    \<Rightarrow> cargo_result \<times> 'e small_vector \<times> 'a mux_world_scheme" where
  "sv_assign T N values v w =
     (case sv_insert T N 0 values (v\<lparr>sv_elems := []\<rparr>) w of
        Some (Inl error, v1, w1) \<Rightarrow> (error, v1, w1)
      | Some (Inr _, v1, w1) \<Rightarrow> (cargo_success, v1, w1)
      | None \<Rightarrow> (cargo_success, v, w))"

text \<open>\<^verbatim>\<open>push_back\<close> and \<^verbatim>\<open>emplace_back\<close> differ only in how the element is constructed.\<close>

definition sv_push_back ::
  "cpp_object \<Rightarrow> nat \<Rightarrow> 'e \<Rightarrow> 'e small_vector \<Rightarrow> 'a mux_world_scheme
    \<Rightarrow> cargo_result \<times> 'e small_vector \<times> 'a mux_world_scheme" where
  "sv_push_back T N x v w =
     (case sv_extend T N 1 v w of (error, v1, w1) \<Rightarrow>
        if error \<noteq> cargo_success then (error, v1, w1)
        else (cargo_success, v1\<lparr>sv_elems := sv_elems v1 @ [x]\<rparr>, w1))"

definition sv_pop_back :: "'e small_vector \<Rightarrow> 'e small_vector option" where
  "sv_pop_back v =
     (if sv_elems v \<noteq> [] then Some (v\<lparr>sv_elems := butlast (sv_elems v)\<rparr>) else None)"

definition sv_resize ::
  "cpp_object \<Rightarrow> nat \<Rightarrow> nat \<Rightarrow> 'e \<Rightarrow> 'e small_vector \<Rightarrow> 'a mux_world_scheme
    \<Rightarrow> cargo_result \<times> 'e small_vector \<times> 'a mux_world_scheme" where
  "sv_resize T N count value v w =
     (case sv_reserve T N count v w of (error, v1, w1) \<Rightarrow>
        if error \<noteq> cargo_success then (error, v1, w1)
        else (cargo_success,
              v1\<lparr>sv_elems := take count (sv_elems v1)
                    @ replicate (count - length (sv_elems v1)) value\<rparr>, w1))"

definition sv_clone ::
  "cpp_object \<Rightarrow> nat \<Rightarrow> ptr \<Rightarrow> 'e small_vector \<Rightarrow> 'a mux_world_scheme
    \<Rightarrow> (cargo_result + 'e small_vector) \<times> 'a mux_world_scheme" where
  "sv_clone T N storage v w =
     (let other = sv_new N storage (sv_allocator v) in
      case (if N < sv_capacity v then sv_reserve T N (sv_capacity v) other w
            else (cargo_success, other, w)) of (error, other', w1) \<Rightarrow>
        if error \<noteq> cargo_success then (Inl error, w1)
        else (Inr (other'\<lparr>sv_elems := sv_elems v\<rparr>), w1))"

text \<open>
  Swapping two vectors. With \<open>this\<close> in its embedded storage the elements are exchanged
  through a local array of \<open>N\<close> elements, which is too small (\<^term>\<open>None\<close>) when \<open>other\<close> holds
  more; otherwise capacity, begin and end are exchanged. The allocators stay where they are.
\<close>

definition sv_swap ::
  "nat \<Rightarrow> 'e small_vector \<Rightarrow> 'e small_vector \<Rightarrow> ('e small_vector \<times> 'e small_vector) option" where
  "sv_swap N this other =
     (if N = sv_capacity this
      then if length (sv_elems other) \<le> N
           then Some (this\<lparr>sv_elems := sv_elems other\<rparr>, other\<lparr>sv_elems := sv_elems this\<rparr>)
           else None
      else Some (this\<lparr>sv_capacity := sv_capacity other, sv_begin := sv_begin other,
                      sv_elems := sv_elems other\<rparr>,
                 other\<lparr>sv_capacity := sv_capacity this, sv_begin := sv_begin this,
                       sv_elems := sv_elems this\<rparr>))"

text \<open>A loop that emplaces one element after another and returns on the first failure.\<close>

fun sv_push_all ::
  "cpp_object \<Rightarrow> nat \<Rightarrow> 'e list \<Rightarrow> 'e small_vector \<Rightarrow> 'a mux_world_scheme
    \<Rightarrow> cargo_result \<times> 'e small_vector \<times> 'a mux_world_scheme" where
  "sv_push_all T N [] v w = (cargo_success, v, w)"
| "sv_push_all T N (x # xs) v w =
     (case sv_push_back T N x v w of (error, v1, w1) \<Rightarrow>
        if error \<noteq> cargo_success then (error, v1, w1) else sv_push_all T N xs v1 w1)"

section \<open>Comparison\<close>

text \<open>\<^verbatim>\<open>std::lexicographical_compare\<close>, and the operators defined with it.\<close>

fun lexicographical_compare :: "('e \<Rightarrow> 'e \<Rightarrow> bool) \<Rightarrow> 'e list \<Rightarrow> 'e list \<Rightarrow> bool" where
  "lexicographical_compare lt [] ys = (ys \<noteq> [])"
| "lexicographical_compare lt (x # xs) [] = False"
| "lexicographical_compare lt (x # xs) (y # ys) =
     (if lt x y then True else if lt y x then False else lexicographical_compare lt xs ys)"

definition sv_equal :: "'e small_vector \<Rightarrow> 'e small_vector \<Rightarrow> bool" where
  "sv_equal l r =
     (if length (sv_elems l) \<noteq> length (sv_elems r) then False
      else list_all2 (=) (sv_elems l) (sv_elems r))"

definition sv_less :: "'e :: linorder small_vector \<Rightarrow> 'e small_vector \<Rightarrow> bool" where
  "sv_less l r = lexicographical_compare (<) (sv_elems l) (sv_elems r)"

definition sv_less_equal :: "'e :: linorder small_vector \<Rightarrow> 'e small_vector \<Rightarrow> bool" where
  "sv_less_equal l r = lexicographical_compare (\<le>) (sv_elems l) (sv_elems r)"

definition sv_greater :: "'e :: linorder small_vector \<Rightarrow> 'e small_vector \<Rightarrow> bool" where
  "sv_greater l r = lexicographical_compare (>) (sv_elems l) (sv_elems r)"

definition sv_greater_equal :: "'e :: linorder small_vector \<Rightarrow> 'e small_vector \<Rightarrow> bool" where
  "sv_greater_equal l r = lexicographical_compare (\<ge>) (sv_elems l) (sv_elems r)"

section \<open>The representation invariant\<close>

definition sv_ok :: "cpp_object \<Rightarrow> nat \<Rightarrow> 'e small_vector \<Rightarrow> 'a mux_world_scheme \<Rightarrow> bool" where
  "sv_ok T N v w \<longleftrightarrow>
     allocator_ok (sv_allocator v) \<and> N \<le> sv_capacity v \<and> length (sv_elems v) \<le> sv_capacity v \<and>
     (if N < sv_capacity v
      then live_blocks w (sv_begin v) = Some (Request_array T (sv_capacity v))
      else sv_begin v = sv_storage v)"

lemma sv_ok_new: "allocator_ok a \<Longrightarrow> sv_ok T N (sv_new N storage a) w"
  by (simp add: sv_ok_def sv_new_def)

text \<open>
  What growing does to a vector that satisfies the invariant: the elements stay, a failure
  changes nothing, and a success swaps the block of the vector for a larger one and touches
  no other block.
\<close>

definition sv_grown :: "cpp_object \<Rightarrow> nat \<Rightarrow> 'e small_vector \<Rightarrow> 'a mux_world_scheme
    \<Rightarrow> 'e small_vector \<Rightarrow> 'a mux_world_scheme \<Rightarrow> bool" where
  "sv_grown T N v w v' w' \<longleftrightarrow>
     sv_ok T N v' w' \<and> sv_elems v' = sv_elems v \<and> sv_allocator v' = sv_allocator v \<and>
     sv_storage v' = sv_storage v \<and> sv_capacity v \<le> sv_capacity v' \<and>
     only_blocks w w' \<and>
     (\<forall>q. q \<noteq> sv_begin v \<longrightarrow> live_blocks w q \<noteq> None \<longrightarrow> live_blocks w' q = live_blocks w q)"

lemma sv_grown_refl: "sv_ok T N v w \<Longrightarrow> sv_grown T N v w v w"
  by (simp add: sv_grown_def)

lemma sv_reserve_spec:
  assumes ok: "sv_ok T N v w" and call: "sv_reserve T N sz v w = (e, v', w')"
  shows "(e = cargo_success \<and> sv_grown T N v w v' w' \<and> sz \<le> sv_capacity v') \<or>
         (e = cargo_bad_alloc \<and> v' = v \<and> w' = w)"
proof (cases "sz \<le> sv_capacity v")
  case True
  then show ?thesis
    using call sv_grown_refl [OF ok] by (simp add: sv_reserve_def)
next
  case False
  obtain p w1 where alloc: "allocator_alloc (sv_allocator v) (Request_array T sz) w = (p, w1)"
    by fastforce
  have a: "allocator_ok (sv_allocator v)"
    using ok by (simp add: sv_ok_def)
  show ?thesis
  proof (rule allocator_alloc_cases [OF a alloc])
    assume "p = 0" and "w1 = w"
    then show ?thesis
      using call False alloc by (simp add: sv_reserve_def)
  next
    assume p: "p \<noteq> 0" "live_blocks w p = None"
      and w1: "w1 = w\<lparr>live_blocks := (live_blocks w)(p \<mapsto> Request_array T sz)\<rparr>"
    have v': "e = cargo_success" "v' = v\<lparr>sv_capacity := sz, sv_begin := p\<rparr>"
      and w': "w' = (if N < sv_capacity v then allocator_free (sv_allocator v) (sv_begin v) w1
                     else w1)"
      using call False alloc p by (auto simp: sv_reserve_def)
    have ne: "N < sv_capacity v \<Longrightarrow> sv_begin v \<noteq> p"
      using ok p by (auto simp: sv_ok_def)
    have "sv_grown T N v w v' w'"
      using ok False p ne by (auto simp: sv_grown_def sv_ok_def v' w' w1 allocator_free_eq a)
    then show ?thesis
      using v' by simp
  qed
qed

lemma sv_extend_spec:
  assumes ok: "sv_ok T N v w" and call: "sv_extend T N count v w = (e, v', w')"
  shows "(e = cargo_success \<and> sv_grown T N v w v' w' \<and>
            count + length (sv_elems v) \<le> sv_capacity v') \<or>
         (e = cargo_bad_alloc \<and> v' = v \<and> w' = w)"
proof (cases "count + length (sv_elems v) \<le> sv_capacity v")
  case True
  then show ?thesis
    using call sv_grown_refl [OF ok] by (simp add: sv_extend_def)
next
  case False
  then have "sv_reserve T N ((count + length (sv_elems v)) * 2) v w = (e, v', w')"
    using call by (simp add: sv_extend_def)
  from sv_reserve_spec [OF ok this] show ?thesis
    by auto
qed

lemma sv_push_back_spec:
  assumes ok: "sv_ok T N v w" and call: "sv_push_back T N x v w = (e, v', w')"
  shows "(e = cargo_success \<and> sv_ok T N v' w' \<and> sv_elems v' = sv_elems v @ [x]) \<or>
         (e = cargo_bad_alloc \<and> v' = v \<and> w' = w)"
proof -
  obtain e1 v1 w1 where ext: "sv_extend T N 1 v w = (e1, v1, w1)"
    by (metis prod_cases3)
  from sv_extend_spec [OF ok ext] ext call show ?thesis
    by (auto simp: sv_push_back_def sv_grown_def sv_ok_def)
qed

lemma sv_push_back_world:
  assumes ok: "sv_ok T N v w" and call: "sv_push_back T N x v w = (e, v', w')"
  shows "only_blocks w w'"
proof -
  obtain e1 v1 w1 where ext: "sv_extend T N 1 v w = (e1, v1, w1)"
    by (metis prod_cases3)
  from sv_extend_spec [OF ok ext] ext call show ?thesis
    by (auto simp: sv_push_back_def sv_grown_def split: if_splits)
qed

lemma sv_reserve_only_blocks: "sv_reserve T N sz v w = (e, v', w') \<Longrightarrow> only_blocks w w'"
  by (auto simp: sv_reserve_def allocator_alloc_def allocator_free_def split: if_splits prod.splits)

lemma sv_insert_only_blocks: "sv_insert T N pos xs v w = Some (r, v', w') \<Longrightarrow> only_blocks w w'"
  by (auto simp: sv_insert_def sv_extend_def Let_def split: if_splits prod.splits
      dest: sv_reserve_only_blocks)

lemma sv_push_back_room:
  "length (sv_elems v) < sv_capacity v \<Longrightarrow>
     sv_push_back T N x v w = (cargo_success, v\<lparr>sv_elems := sv_elems v @ [x]\<rparr>, w)"
  by (simp add: sv_push_back_def sv_extend_def)

section \<open>The contract of an appendable container\<close>

locale appendable =
  fixes elems :: "'v \<Rightarrow> 'e list"
    and inv :: "'v \<Rightarrow> 'w \<Rightarrow> bool"
    and push :: "'e \<Rightarrow> 'v \<Rightarrow> 'w \<Rightarrow> cargo_result \<times> 'v \<times> 'w"
    and push_all :: "'e list \<Rightarrow> 'v \<Rightarrow> 'w \<Rightarrow> cargo_result \<times> 'v \<times> 'w"
  assumes push_cases: "inv v w \<Longrightarrow> push x v w = (e, v', w') \<Longrightarrow>
      (e = cargo_success \<and> inv v' w' \<and> elems v' = elems v @ [x]) \<or>
      (e = cargo_bad_alloc \<and> v' = v \<and> w' = w)"
    and push_all_Nil: "push_all [] v w = (cargo_success, v, w)"
    and push_all_Cons: "push_all (x # xs) v w =
      (case push x v w of (e, v1, w1) \<Rightarrow>
         if e \<noteq> cargo_success then (e, v1, w1) else push_all xs v1 w1)"
begin

text \<open>A loop of appends stores a prefix of what it was given, all of it when it succeeds.\<close>

lemma push_all_prefix:
  assumes "inv v w" and "push_all xs v w = (e, v', w')"
  shows "inv v' w' \<and> (\<exists>k \<le> length xs. elems v' = elems v @ take k xs \<and>
           (if k = length xs then e = cargo_success else e = cargo_bad_alloc))"
  using assms
proof (induction xs arbitrary: v w)
  case Nil
  then show ?case
    by (simp add: push_all_Nil)
next
  case (Cons x xs)
  obtain e1 v1 w1 where push: "push x v w = (e1, v1, w1)"
    by (metis prod_cases3)
  from push_cases [OF Cons.prems(1) push] show ?case
  proof (elim disjE conjE)
    assume e1: "e1 = cargo_success" and v1: "inv v1 w1" "elems v1 = elems v @ [x]"
    have "push_all xs v1 w1 = (e, v', w')"
      using Cons.prems(2) push e1 by (simp add: push_all_Cons)
    from Cons.IH [OF v1(1) this] obtain k where "inv v' w'" "k \<le> length xs"
      "elems v' = elems v @ take (Suc k) (x # xs)"
      "if k = length xs then e = cargo_success else e = cargo_bad_alloc"
      using v1(2) by auto
    then show ?thesis
      by (intro conjI exI [of _ "Suc k"]) auto
  next
    assume "e1 = cargo_bad_alloc" and "v1 = v" and "w1 = w"
    then show ?thesis
      using Cons.prems push by (intro conjI exI [of _ 0]) (auto simp: push_all_Cons)
  qed
qed

lemma push_all_success:
  assumes "inv v w" and "push_all xs v w = (cargo_success, v', w')"
  shows "inv v' w'" and "elems v' = elems v @ xs"
  using push_all_prefix [OF assms] by (auto split: if_splits)

end

interpretation sv: appendable sv_elems "sv_ok T N" "sv_push_back T N" "sv_push_all T N" for T N
  by unfold_locales (auto dest: sv_push_back_spec)

lemma sv_push_all_world:
  assumes "sv_ok T N v w" and "sv_push_all T N xs v w = (e, v', w')"
  shows "only_blocks w w'"
  using assms
proof (induction xs arbitrary: v w)
  case (Cons x xs)
  obtain e1 v1 w1 where push: "sv_push_back T N x v w = (e1, v1, w1)"
    by (metis prod_cases3)
  note w1 = sv_push_back_world [OF Cons.prems(1) push]
  show ?case
  proof (cases "e1 = cargo_success")
    case True
    then have ok: "sv_ok T N v1 w1" and rest: "sv_push_all T N xs v1 w1 = (e, v', w')"
      using sv_push_back_spec [OF Cons.prems(1) push] Cons.prems(2) push by auto
    from w1 Cons.IH [OF ok rest] show ?thesis
      by (rule only_blocks_trans)
  qed (use w1 Cons.prems(2) push in auto)
qed simp

section \<open>Lists\<close>

lemma sv_insert_spec:
  assumes ok: "sv_ok T N v w" and call: "sv_insert T N pos xs v w = Some (r, v', w')"
  shows "(r = Inr pos \<and> sv_ok T N v' w' \<and>
            sv_elems v' = take pos (sv_elems v) @ xs @ drop pos (sv_elems v)) \<or>
         (r = Inl cargo_bad_alloc \<and> v' = v \<and> w' = w)"
proof -
  obtain e1 v1 w1 where ext: "sv_extend T N (length xs) v w = (e1, v1, w1)"
    by (metis prod_cases3)
  from sv_extend_spec [OF ok ext] ext call show ?thesis
    by (auto simp: sv_insert_def sv_grown_def sv_ok_def split: if_splits)
qed

lemma sv_erase_range_spec:
  assumes "sv_ok T N v w" and "sv_erase_range first end_pos v = Some (pos, v')"
    and "first \<le> end_pos"
  shows "pos = first \<and> sv_ok T N v' w \<and>
         sv_elems v' = take first (sv_elems v) @ drop end_pos (sv_elems v)"
  using assms by (auto simp: sv_erase_range_def sv_ok_def split: if_splits)

lemma lexicographical_compare_less:
  fixes xs ys :: "'e :: linorder list"
  shows "lexicographical_compare (<) xs ys \<longleftrightarrow> (xs, ys) \<in> lexord {(a, b). a < b}"
  by (induction "(<) :: 'e \<Rightarrow> 'e \<Rightarrow> bool" xs ys rule: lexicographical_compare.induct)
     (auto simp: neq_Nil_conv)

section \<open>Properties\<close>

text \<open>
  C24: A loop of \<^verbatim>\<open>emplace_back\<close> calls on a well-formed vector stores a prefix of the values
  it is given behind the old elements and keeps the vector well-formed, whether or not the
  storage had to move; it stores all of them when it succeeds, and it fails with
  \<^verbatim>\<open>bad_alloc\<close> only.
\<close>

theorem push_all_appends:
  assumes "sv_ok T N v w" and "sv_push_all T N xs v w = (e, v', w')"
  shows "sv_ok T N v' w' \<and> (\<exists>k \<le> length xs. sv_elems v' = sv_elems v @ take k xs \<and>
           (if k = length xs then e = cargo_success else e = cargo_bad_alloc))"
  using assms by (rule sv.push_all_prefix)

theorem push_all_appends_witness:
  "\<exists>v' w'. sv_push_all Obj_handle 2 [5, 6, 7] (sv_new 2 0x10 two_slot_allocator) empty_world
      = (cargo_success, v', w') \<and> sv_elems v' = [5, 6, 7 :: u64] \<and> sv_ok Obj_handle 2 v' w'"
proof -
  obtain e v' w' where run: "sv_push_all Obj_handle 2 [5, 6, 7 :: u64]
      (sv_new 2 0x10 two_slot_allocator) empty_world = (e, v', w')"
    by (metis prod_cases3)
  have e: "e = cargo_success"
    using run by (simp add: sv_push_back_def sv_extend_def sv_reserve_def sv_new_def
        allocator_alloc_def two_slot_allocator_def empty_world_def)
  show ?thesis
    using push_all_appends [OF sv_ok_new [OF two_slot_allocator_ok] run] run e
    by (auto simp: sv_new_def split: if_splits)
qed



text \<open>
  C29: Move assignment between two well-formed vectors that own different blocks carries the
  elements over and leaves the target well-formed unless the target used heap storage and
  the source its embedded storage; in that case the target keeps pointing to the block it
  has just freed.
\<close>

theorem move_assign_ok_iff:
  assumes this: "sv_ok T N this w" and other: "sv_ok T N other w"
    and disjoint: "sv_begin this \<noteq> sv_begin other"
    and move: "sv_move_assign N this other w = (this', other', w')"
  shows "sv_elems this' = sv_elems other \<and> sv_ok T N other' w' \<and>
         (sv_ok T N this' w' \<longleftrightarrow> \<not> (N < sv_capacity this \<and> sv_capacity other \<le> N \<and>
                                        sv_begin this \<noteq> sv_storage this)) \<and>
         (N < sv_capacity this \<and> sv_capacity other \<le> N \<longrightarrow>
            sv_begin this' = sv_begin this \<and> live_blocks w' (sv_begin this') = None)"
  using assms
  by (auto simp: sv_move_assign_def sv_ok_def allocator_free_eq split: if_splits)

text \<open>A vector of four elements in a heap block at \<^verbatim>\<open>0x1000\<close>.\<close>

definition heap_vector :: "nat small_vector" where
  "heap_vector = \<lparr>sv_allocator = two_slot_allocator, sv_capacity = 4, sv_storage = 0x10,
     sv_begin = 0x1000, sv_elems = [1, 2, 3]\<rparr>"

theorem move_assign_ok_iff_witness:
  "let w = empty_world\<lparr>live_blocks := [0x1000 \<mapsto> Request_array Obj_size_t 4]\<rparr>;
       (this', other', w') = sv_move_assign 2 heap_vector (sv_new 2 0x80 two_slot_allocator) w
   in sv_ok Obj_size_t 2 heap_vector w \<and> sv_begin this' = 0x1000 \<and>
      live_blocks w' 0x1000 = None \<and> \<not> sv_ok Obj_size_t 2 this' w'"
proof -
  let ?w = "empty_world\<lparr>live_blocks := [0x1000 \<mapsto> Request_array Obj_size_t 4]\<rparr>"
  have ok: "sv_ok Obj_size_t 2 heap_vector ?w"
    by (simp add: sv_ok_def heap_vector_def two_slot_allocator_ok)
  obtain this' other' w' where move: "sv_move_assign 2 heap_vector
      (sv_new 2 0x80 two_slot_allocator) ?w = (this', other', w')"
    by (metis prod_cases3)
  from move_assign_ok_iff [OF ok sv_ok_new [OF two_slot_allocator_ok] _ move] move ok
  show ?thesis
    by (clarsimp simp: heap_vector_def sv_new_def)
qed

text \<open>
  \<^verbatim>\<open>operator<\<close> is the lexicographic order of the elements, and exactly one of \<^verbatim>\<open>l < r\<close>,
  \<^verbatim>\<open>l == r\<close> and \<^verbatim>\<open>r < l\<close> holds.
\<close>

lemma less_lexicographic:
  fixes l r :: "'e :: linorder small_vector"
  shows "(sv_less l r \<longleftrightarrow> (sv_elems l, sv_elems r) \<in> lexord {(a, b). a < b}) \<and>
         (sv_equal l r \<longleftrightarrow> sv_elems l = sv_elems r) \<and>
         (if sv_equal l r then \<not> sv_less l r \<and> \<not> sv_less r l else sv_less l r \<noteq> sv_less r l)"
proof -
  let ?R = "{(a, b). a < (b :: 'e)}"
  have eq: "sv_equal l r \<longleftrightarrow> sv_elems l = sv_elems r"
    by (auto simp: sv_equal_def list.rel_eq dest: list_all2_lengthD)
  have irrefl: "(xs, xs) \<notin> lexord ?R" for xs
    by (rule lexord_irreflexive) auto
  have asym: "(xs, ys) \<in> lexord ?R \<Longrightarrow> (ys, xs) \<notin> lexord ?R" for xs ys
    by (rule lexord_asymmetric) (auto intro: asymI)
  have total: "(xs, ys) \<in> lexord ?R \<or> xs = ys \<or> (ys, xs) \<in> lexord ?R" for xs ys
    by (rule lexord_linear) auto
  show ?thesis
    using eq irrefl asym [of "sv_elems l" "sv_elems r"] total [of "sv_elems l" "sv_elems r"]
    by (auto simp: sv_less_def lexicographical_compare_less)
qed

text \<open>
  \<^verbatim>\<open>operator<=\<close> and \<^verbatim>\<open>operator>=\<close> are not the reflexive closures of \<^verbatim>\<open>operator<\<close> and its
  converse, and \<^verbatim>\<open>operator>\<close> is not the converse of \<^verbatim>\<open>operator<\<close>: the first element pair
  already decides \<^verbatim>\<open><=\<close>, an empty vector is not \<^verbatim>\<open><=\<close> itself, and a proper prefix counts as
  greater.
\<close>

lemma comparison_operators_disagree:
  "let v = (\<lambda>xs. (sv_new 4 0x10 two_slot_allocator)\<lparr>sv_elems := xs :: nat list\<rparr>)
   in sv_less_equal (v [1, 5]) (v [1, 2]) \<and> sv_less (v [1, 2]) (v [1, 5]) \<and>
      \<not> sv_less_equal (v []) (v []) \<and> \<not> sv_greater_equal (v []) (v []) \<and>
      sv_greater (v [1]) (v [1, 2]) \<and> sv_less (v [1]) (v [1, 2])"
  by (simp add: sv_less_equal_def sv_less_def sv_greater_def sv_greater_equal_def)

end
