(* ===== verification/Cargo_Dynamic_Array.thy ===== *)
theory Cargo_Dynamic_Array
  imports Cargo_Small_Vector
begin

text \<open>
  The array of a size fixed at run time (\<^verbatim>\<open>modules/cargo/include/cargo/dynamic_array.h\<close>), at the
  allocator \<^verbatim>\<open>mux::cargo_allocator\<close> that \<^verbatim>\<open>mux::dynamic_array\<close> uses. An array is its allocator, the
  pointer \<^verbatim>\<open>Begin\<close>, the number \<open>da_count\<close> of elements between \<^verbatim>\<open>Begin\<close> and \<^verbatim>\<open>End\<close>, and the elements
  that are stored there. An operation is \<^term>\<open>None\<close> where a \<^verbatim>\<open>CARGO_ASSERT\<close> fails and where the code
  reads through a null \<^verbatim>\<open>Begin\<close>. \<open>da_ok\<close> is the representation invariant.
\<close>

record 'e dynamic_array =
  da_allocator :: mux_allocator_info_s
  da_begin :: ptr
  da_count :: nat
  da_elems :: "'e list"

section \<open>Operations\<close>

definition da_new :: "mux_allocator_info_s \<Rightarrow> 'e dynamic_array" where
  "da_new allocator = \<lparr>da_allocator = allocator, da_begin = 0, da_count = 0, da_elems = []\<rparr>"

text \<open>The move constructor; the second array is what is left of the source.\<close>

definition da_move_new :: "'e dynamic_array \<Rightarrow> 'e dynamic_array \<times> 'e dynamic_array" where
  "da_move_new other = (other, other\<lparr>da_begin := 0, da_count := 0, da_elems := []\<rparr>)"

definition da_clear ::
  "'e dynamic_array \<Rightarrow> 'a mux_world_scheme \<Rightarrow> 'e dynamic_array \<times> 'a mux_world_scheme" where
  "da_clear v w =
     (v\<lparr>da_begin := 0, da_count := 0, da_elems := []\<rparr>,
      if da_begin v \<noteq> 0 then allocator_free (da_allocator v) (da_begin v) w else w)"

text \<open>\<^verbatim>\<open>alloc\<close>; \<open>d\<close> is the value-initialised element.\<close>

definition da_alloc ::
  "cpp_object \<Rightarrow> 'e \<Rightarrow> nat \<Rightarrow> 'e dynamic_array \<Rightarrow> 'a mux_world_scheme
    \<Rightarrow> cargo_result \<times> 'e dynamic_array \<times> 'a mux_world_scheme" where
  "da_alloc T d sz v w =
     (let (v1, w1) = (if da_begin v \<noteq> 0 then da_clear v w else (v, w)) in
      if sz = 0 then (cargo_success, v1, w1)
      else case allocator_alloc (da_allocator v1) (Request_array T sz) w1 of (p, w2) \<Rightarrow>
        (let v2 = v1\<lparr>da_begin := p, da_count := sz\<rparr> in
         if p = 0 then (cargo_bad_alloc, v2, w2)
         else (cargo_success, v2\<lparr>da_elems := replicate sz d\<rparr>, w2)))"

definition da_destroy :: "'e dynamic_array \<Rightarrow> 'a mux_world_scheme \<Rightarrow> 'a mux_world_scheme" where
  "da_destroy v w = snd (da_clear v w)"

text \<open>Move assignment of \<open>other\<close> to \<open>this\<close>, two different objects.\<close>

definition da_move_assign ::
  "'e dynamic_array \<Rightarrow> 'e dynamic_array \<Rightarrow> 'a mux_world_scheme
    \<Rightarrow> 'e dynamic_array \<times> 'e dynamic_array \<times> 'a mux_world_scheme" where
  "da_move_assign this other w =
     (let w1 = (if da_begin this \<noteq> 0 then snd (da_clear this w) else w)
      in (this\<lparr>da_allocator := da_allocator other, da_begin := da_begin other,
               da_count := da_count other, da_elems := da_elems other\<rparr>,
          other\<lparr>da_begin := 0, da_count := 0, da_elems := []\<rparr>, w1))"

definition da_size :: "'e dynamic_array \<Rightarrow> nat" where
  "da_size v = da_count v"

definition da_empty :: "'e dynamic_array \<Rightarrow> bool" where
  "da_empty v \<longleftrightarrow> da_begin v = 0 \<or> da_count v = 0"

definition da_at :: "'e dynamic_array \<Rightarrow> nat \<Rightarrow> (cargo_result + 'e) option" where
  "da_at v index =
     (if da_count v \<le> index then Some (Inl cargo_out_of_bounds)
      else if da_begin v = 0 then None
      else Some (Inr (da_elems v ! index)))"

definition da_index :: "'e dynamic_array \<Rightarrow> nat \<Rightarrow> 'e option" where
  "da_index v index =
     (if da_begin v \<noteq> 0 \<and> index < da_size v then Some (da_elems v ! index) else None)"

text \<open>Assignment through the reference that the index operator returns.\<close>

definition da_set :: "nat \<Rightarrow> 'e \<Rightarrow> 'e dynamic_array \<Rightarrow> 'e dynamic_array option" where
  "da_set index x v =
     (if da_begin v \<noteq> 0 \<and> index < da_size v then Some (v\<lparr>da_elems := (da_elems v)[index := x]\<rparr>)
      else None)"

definition da_front :: "'e dynamic_array \<Rightarrow> 'e option" where
  "da_front v = (if da_begin v \<noteq> 0 then Some (hd (da_elems v)) else None)"

definition da_back :: "'e dynamic_array \<Rightarrow> 'e option" where
  "da_back v = (if da_begin v \<noteq> 0 then Some (last (da_elems v)) else None)"

section \<open>The representation invariant\<close>

definition da_ok :: "cpp_object \<Rightarrow> 'e dynamic_array \<Rightarrow> 'a mux_world_scheme \<Rightarrow> bool" where
  "da_ok T v w \<longleftrightarrow> allocator_ok (da_allocator v) \<and> length (da_elems v) = da_count v \<and>
     (if da_begin v = 0 then da_count v = 0
      else da_count v \<noteq> 0 \<and> live_blocks w (da_begin v) = Some (Request_array T (da_count v)))"

lemma da_ok_new: "allocator_ok a \<Longrightarrow> da_ok T (da_new a) w"
  by (simp add: da_ok_def da_new_def)

lemma da_alloc_new_cases:
  assumes "allocator_ok a" and "da_alloc T d n (da_new a) w = (e, v, w')"
  obtains (empty) "n = 0" "e = cargo_success" "v = da_new a" "w' = w"
    | (failed) "n \<noteq> 0" "e = cargo_bad_alloc" "da_begin v = 0" "w' = w"
    | (fresh) p where "n \<noteq> 0" "e = cargo_success" "p \<noteq> 0" "live_blocks w p = None"
        "v = \<lparr>da_allocator = a, da_begin = p, da_count = n, da_elems = replicate n d\<rparr>"
        "w' = w\<lparr>live_blocks := (live_blocks w)(p \<mapsto> Request_array T n)\<rparr>"
proof (cases "n = 0")
  case False
  obtain p w2 where al: "allocator_alloc a (Request_array T n) w = (p, w2)"
    by fastforce
  have run: "(let v2 = \<lparr>da_allocator = a, da_begin = p, da_count = n, da_elems = []\<rparr> in
      if p = 0 then (cargo_bad_alloc, v2, w2)
      else (cargo_success, v2\<lparr>da_elems := replicate n d\<rparr>, w2)) = (e, v, w')"
    using assms(2) al False by (simp add: da_alloc_def da_new_def)
  from assms(1) al show thesis
  proof (cases rule: allocator_alloc_cases)
    case null
    then show thesis
      using run by (intro failed) (auto simp: False)
  next
    case fresh': fresh
    then show thesis
      using run by (intro fresh [of p]) (auto simp: False)
  qed
next
  case True
  then show thesis
    using assms(2) by (intro empty) (auto simp: da_alloc_def da_new_def)
qed

lemma da_destroy_eq:
  "allocator_ok (da_allocator v) \<Longrightarrow> da_destroy v w
     = (if da_begin v = 0 then w else w\<lparr>live_blocks := (live_blocks w)(da_begin v := None)\<rparr>)"
  by (simp add: da_destroy_def da_clear_def allocator_free_eq)

lemma da_set_elems:
  "da_begin v \<noteq> 0 \<Longrightarrow> i < da_count v \<Longrightarrow> da_set i x v = Some (v\<lparr>da_elems := (da_elems v)[i := x]\<rparr>)"
  by (simp add: da_set_def da_size_def)

section \<open>Properties\<close>



text \<open>
  An allocation that fails leaves an array which reports \<open>n\<close> elements although it has none, and
  whose bounds-checked access then reads through the null pointer instead of returning
  \<^verbatim>\<open>out_of_bounds\<close>.
\<close>

lemma failed_alloc_keeps_size:
  "\<exists>v' w'. da_alloc Obj_size_t (0 :: u64) 3 (da_new two_slot_allocator)
       (empty_world\<lparr>live_blocks := [0x1000 \<mapsto> Request_bytes 8 8, 0x2000 \<mapsto> Request_bytes 8 8]\<rparr>)
      = (cargo_bad_alloc, v', w') \<and>
     da_empty v' \<and> da_size v' = 3 \<and> da_at v' 0 = None"
  by (simp add: da_alloc_def da_new_def allocator_alloc_def two_slot_allocator_def da_empty_def
      da_size_def da_at_def)

end
