(* ===== verification/Host_World.thy ===== *)
theory Host_World
  imports Cargo_Dynamic_Array Mux_Api
begin

text \<open>
  The data of the host target (\<^verbatim>\<open>modules/mux/targets/host/include/host/\<close>), in the build
  without \<^verbatim>\<open>HOST_IMAGE_SUPPORT\<close> and \<^verbatim>\<open>CA_HOST_ENABLE_PAPI_COUNTERS\<close>. The C++ classes derive
  from the Mux structures; the world of the host target extends the Mux world with the
  derived part of every object, at the same address. An atomic member lives in a heap of
  atomics at the address of its object: \<^verbatim>\<open>fence->thread_pool_signal\<close> is
  \<open>atomic_bools w fence\<close> and \<^verbatim>\<open>queue->runningGroups\<close> is \<open>atomic_counts w queue\<close>. The variant and
  the command that the slices of an ND-range refer to through untyped pointers live in the heaps
  \<open>local_variants\<close> and \<open>local_ndranges\<close>.
\<close>

section \<open>The thread pool\<close>

text \<open>The functions that the target hands to the pool.\<close>

datatype function_t = Fn_threadPoolCleanup | Fn_threadPoolProcessCommands | Fn_ndrange_slice

record thread_pool_work_item_s =
  item_function :: function_t
  item_user_data :: ptr
  item_user_data2 :: ptr
  item_user_data3 :: ptr
  item_index :: u64
  item_signal :: ptr
  item_count :: ptr

record thread_pool_s =
  initialized_threads :: u64
  pool_queue :: "u32 \<Rightarrow> thread_pool_work_item_s"
  queue_read_index :: u32
  queue_write_index :: u32
  stayAlive :: bool

section \<open>Commands\<close>

record ndrange_info_s =
  packed_args :: ptr
  arg_addresses :: "ptr dynamic_array"
  ndr_descriptors :: "mux_descriptor_info_s dynamic_array"
  global_size :: "u64 list"
  global_offset :: "u64 list"
  local_size :: "u64 list"
  dimensions :: u64

text \<open>
  The tag and the union of \<^verbatim>\<open>command_info_s\<close> as one datatype. A pointer to an
  \<^verbatim>\<open>ndrange_info_s\<close>, which the command buffer owns, is its position in \<^verbatim>\<open>ndranges\<close>.
\<close>

datatype command_info_s =
    Command_read_buffer ptr u64 ptr u64
  | Command_write_buffer ptr u64 ptr u64
  | Command_copy_buffer ptr u64 ptr u64 u64
  | Command_fill_buffer ptr u64 u64 "u8 list" u64
  | Command_ndrange ptr nat
  | Command_user_callback ptr ptr
  | Command_begin_query ptr u32 u32
  | Command_end_query ptr u32 u32
  | Command_reset_query_pool ptr u32 u32
  | Command_terminate

section \<open>Objects\<close>

record host_buffer_s =
  buffer_data :: ptr

record host_memory_s =
  memory_data :: ptr
  useHost :: bool

record host_fence_s =
  fence_result :: mux_result_t

record host_semaphore_s =
  signalled :: bool
  failed :: bool
  waitingGroups :: "ptr small_vector"

record signal_info_s =
  wait_count :: u64
  signal_fence :: ptr

record host_queue_s =
  signalInfos :: "(ptr \<times> signal_info_s) small_vector"

record host_device_s =
  thread_pool :: thread_pool_s
  device_queue :: ptr

record host_command_buffer_s =
  commands :: "command_info_s small_vector"
  ndranges :: "ndrange_info_s small_vector"
  cb_sync_points :: "ptr small_vector"
  signal_semaphores :: "ptr small_vector"
  user_function :: ptr
  user_data :: ptr
  cb_fence :: ptr
  cb_allocator_info :: mux_allocator_info_s

record kernel_variant_s =
  variant_name :: string
  hook :: ptr
  local_memory_used :: u64
  min_work_width :: u32
  pref_work_width :: u32
  sub_group_size :: u32

record host_kernel_s =
  is_builtin_kernel :: bool
  kernel_allocator_info :: mux_allocator_info_s
  variant_data :: "kernel_variant_s small_vector"

record binary_kernel_s =
  binary_hook :: u64
  binary_kernel_name :: string
  binary_local_memory_used :: u32
  binary_min_work_width :: u32
  binary_pref_work_width :: u32
  binary_sub_group_size :: u32

record host_executable_s =
  executable_kernels :: "string \<rightharpoonup> binary_kernel_s list"

record host_query_pool_s =
  pool_data :: ptr
  pool_size :: u64

section \<open>The world\<close>

record host_world = mux_world +
  host_buffers :: "ptr \<Rightarrow> host_buffer_s"
  host_memories :: "ptr \<Rightarrow> host_memory_s"
  host_fences :: "ptr \<Rightarrow> host_fence_s"
  host_semaphores :: "ptr \<Rightarrow> host_semaphore_s"
  host_queues :: "ptr \<Rightarrow> host_queue_s"
  host_devices :: "ptr \<Rightarrow> host_device_s"
  host_command_buffers :: "ptr \<Rightarrow> host_command_buffer_s"
  host_kernels :: "ptr \<Rightarrow> host_kernel_s"
  host_executables :: "ptr \<Rightarrow> host_executable_s"
  host_query_pools :: "ptr \<Rightarrow> host_query_pool_s"
  local_variants :: "ptr \<Rightarrow> kernel_variant_s"
  local_ndranges :: "ptr \<Rightarrow> ptr \<times> ndrange_info_s"
  atomic_bools :: "ptr \<Rightarrow> bool"
  atomic_counts :: "ptr \<Rightarrow> u32"

type_synonym 'a host_call = "'a host_world_scheme \<Rightarrow> mux_result_t \<times> 'a host_world_scheme"

type_synonym 'a host_proc = "'a host_world_scheme \<Rightarrow> 'a host_world_scheme"

text \<open>Assignments to members of the host objects.\<close>

definition set_host_fence :: "ptr \<Rightarrow> host_fence_s \<Rightarrow> 'a host_proc" where
  "set_host_fence p f w = w\<lparr>host_fences := (host_fences w)(p := f)\<rparr>"

definition set_host_semaphore :: "ptr \<Rightarrow> host_semaphore_s \<Rightarrow> 'a host_proc" where
  "set_host_semaphore p s w = w\<lparr>host_semaphores := (host_semaphores w)(p := s)\<rparr>"

definition set_host_queue :: "ptr \<Rightarrow> host_queue_s \<Rightarrow> 'a host_proc" where
  "set_host_queue p q w = w\<lparr>host_queues := (host_queues w)(p := q)\<rparr>"

definition set_host_command_buffer :: "ptr \<Rightarrow> host_command_buffer_s \<Rightarrow> 'a host_proc" where
  "set_host_command_buffer p c w = w\<lparr>host_command_buffers := (host_command_buffers w)(p := c)\<rparr>"

definition set_atomic_bool :: "ptr \<Rightarrow> bool \<Rightarrow> 'a host_proc" where
  "set_atomic_bool p b w = w\<lparr>atomic_bools := (atomic_bools w)(p := b)\<rparr>"

definition set_atomic_count :: "ptr \<Rightarrow> u32 \<Rightarrow> 'a host_proc" where
  "set_atomic_count p n w = w\<lparr>atomic_counts := (atomic_counts w)(p := n)\<rparr>"

definition set_thread_pool :: "ptr \<Rightarrow> thread_pool_s \<Rightarrow> 'a host_proc" where
  "set_thread_pool device pool w = w\<lparr>host_devices := (host_devices w)
     (device := (host_devices w device)\<lparr>thread_pool := pool\<rparr>)\<rparr>"

lemmas host_setters =
  set_host_fence_def set_host_semaphore_def set_host_queue_def set_host_command_buffer_def
  set_atomic_bool_def set_atomic_count_def set_thread_pool_def

text \<open>A world with no live block and an empty pool, from which concrete worlds are built.\<close>

definition empty_pool :: thread_pool_s where
  "empty_pool = \<lparr>initialized_threads = 2,
     pool_queue = (\<lambda>_. \<lparr>item_function = Fn_threadPoolCleanup, item_user_data = 0, item_user_data2 = 0,
       item_user_data3 = 0, item_index = 0, item_signal = 0, item_count = 0\<rparr>),
     queue_read_index = 0, queue_write_index = 0, stayAlive = True\<rparr>"

definition empty_host_world :: host_world where
  "empty_host_world = mux_world.extend empty_world (host_world.fields
     (\<lambda>_. \<lparr>buffer_data = 0\<rparr>)
     (\<lambda>_. \<lparr>memory_data = 0, useHost = False\<rparr>)
     (\<lambda>_. \<lparr>fence_result = mux_error_internal\<rparr>)
     (\<lambda>_. \<lparr>signalled = False, failed = False, waitingGroups = sv_new 8 0x10 two_slot_allocator\<rparr>)
     (\<lambda>_. \<lparr>signalInfos = sv_new 8 0x10 two_slot_allocator\<rparr>)
     (\<lambda>_. \<lparr>thread_pool = empty_pool, device_queue = 0x700\<rparr>)
     (\<lambda>_. \<lparr>commands = sv_new 16 0x10 two_slot_allocator, ndranges = sv_new 4 0x10 two_slot_allocator,
        cb_sync_points = sv_new 4 0x10 two_slot_allocator,
        signal_semaphores = sv_new 8 0x10 two_slot_allocator,
        user_function = 0, user_data = 0, cb_fence = 0, cb_allocator_info = two_slot_allocator\<rparr>)
     (\<lambda>_. \<lparr>is_builtin_kernel = False, kernel_allocator_info = two_slot_allocator,
        variant_data = sv_new 4 0x10 two_slot_allocator\<rparr>)
     (\<lambda>_. \<lparr>executable_kernels = Map.empty\<rparr>)
     (\<lambda>_. \<lparr>pool_data = 0, pool_size = 0\<rparr>)
     (\<lambda>_. \<lparr>variant_name = [], hook = 0, local_memory_used = 0, min_work_width = 0,
        pref_work_width = 0, sub_group_size = 0\<rparr>)
     (\<lambda>_. (0, \<lparr>packed_args = 0, arg_addresses = da_new two_slot_allocator,
        ndr_descriptors = da_new two_slot_allocator, global_size = [], global_offset = [],
        local_size = [], dimensions = 0\<rparr>))
     (\<lambda>_. False) (\<lambda>_. 0))"

lemma empty_host_world_simps [simp]:
  "atomic_counts empty_host_world a = 0"
  "atomic_bools empty_host_world a = False"
  "host_devices empty_host_world d = \<lparr>thread_pool = empty_pool, device_queue = 0x700\<rparr>"
  "live_blocks empty_host_world = Map.empty"
  "host_semaphores empty_host_world s = \<lparr>signalled = False, failed = False,
     waitingGroups = sv_new 8 0x10 two_slot_allocator\<rparr>"
  "host_queues empty_host_world q = \<lparr>signalInfos = sv_new 8 0x10 two_slot_allocator\<rparr>"
  "cells empty_host_world p = 0"
  "mem empty_host_world p = 0"
  "semaphores empty_host_world s = \<lparr>semaphore_id = 0, semaphore_device = 0\<rparr>"
  "command_buffers empty_host_world c = \<lparr>command_buffer_id = 0, command_buffer_device = 0\<rparr>"
  by (simp_all add: empty_host_world_def mux_world.defs host_world.defs empty_world_def)

lemma empty_host_world_more [simp]:
  "host_command_buffers empty_host_world c =
     \<lparr>commands = sv_new 16 0x10 two_slot_allocator, ndranges = sv_new 4 0x10 two_slot_allocator,
      cb_sync_points = sv_new 4 0x10 two_slot_allocator,
      signal_semaphores = sv_new 8 0x10 two_slot_allocator,
      user_function = 0, user_data = 0, cb_fence = 0, cb_allocator_info = two_slot_allocator\<rparr>"
  "host_buffers empty_host_world b = \<lparr>buffer_data = 0\<rparr>"
  by (simp_all add: empty_host_world_def mux_world.defs host_world.defs empty_world_def)

end
