(* ===== verification/Host_Thread_Pool.thy ===== *)
theory Host_Thread_Pool
  imports Host_World "HOL-Library.Multiset"
begin

text \<open>
  The thread pool of the host target (\<^verbatim>\<open>modules/mux/targets/host/source/thread_pool.cpp\<close> and
  \<^verbatim>\<open>include/host/thread_pool.h\<close>): a ring of 4096 work items between the threads that enqueue
  and the threads that execute.

  \<^item> The operations are state transformers. \<open>enqueue\<close> is \<^term>\<open>None\<close> where the code waits for a
    slot; \<open>getWork\<close> and \<open>tryGetWork\<close> are \<^term>\<open>None\<close> where there is nothing to take.
  \<^item> \<open>pool_items\<close> is the list the ring stands for; the locale \<open>work_queue\<close> is the contract of a
    bounded queue, and the ring is its instance.
  \<^item> \<open>pool_step\<close> interleaves the critical sections of any number of threads.
\<close>

section \<open>The ring\<close>

definition queue_max :: u32 where
  "queue_max = 4096"

definition next_write_index :: "thread_pool_s \<Rightarrow> u32" where
  "next_write_index pool = (queue_write_index pool + 1) mod queue_max"

definition pool_full :: "thread_pool_s \<Rightarrow> bool" where
  "pool_full pool \<longleftrightarrow> queue_read_index pool = next_write_index pool"

definition pool_push :: "thread_pool_work_item_s \<Rightarrow> thread_pool_s \<Rightarrow> thread_pool_s" where
  "pool_push item pool =
     pool\<lparr>pool_queue := (pool_queue pool)(queue_write_index pool := item),
          queue_write_index := next_write_index pool\<rparr>"

definition pool_pop :: "thread_pool_s \<Rightarrow> (thread_pool_work_item_s \<times> thread_pool_s) option" where
  "pool_pop pool =
     (if queue_read_index pool = queue_write_index pool then None
      else Some (pool_queue pool (queue_read_index pool),
                 pool\<lparr>queue_read_index := (queue_read_index pool + 1) mod queue_max\<rparr>))"

section \<open>Operations of the pool\<close>

text \<open>
  The number of threads the constructor starts, from the number of hardware threads and the
  value of \<^verbatim>\<open>CA_HOST_NUM_THREADS\<close> as \<^verbatim>\<open>atoi\<close> reads it (\<^term>\<open>None\<close> when it is not set).
\<close>

abbreviation (input) max_num_threads :: u64 where "max_num_threads \<equiv> 32"

definition clamp :: "u64 \<Rightarrow> u64 \<Rightarrow> u64 \<Rightarrow> u64" where
  "clamp v a b = max (min a b) (min v (max a b))"

definition pool_threads :: "u64 \<Rightarrow> int option \<Rightarrow> u64" where
  "pool_threads hw_threads env =
     (let desired_threads = clamp (hw_threads - 0) 2 hw_threads;
          debug_threads = (case env of None \<Rightarrow> max_num_threads
                           | Some t \<Rightarrow> if t \<noteq> 0 then word_of_int t else max_num_threads)
      in min desired_threads (min max_num_threads debug_threads))"

text \<open>
  The constructor, on storage whose array of items holds \<open>garbage\<close>, and the part of the
  destructor that stops the threads; joining them is left to the step relation.
\<close>

definition thread_pool_create ::
  "u64 \<Rightarrow> int option \<Rightarrow> (u32 \<Rightarrow> thread_pool_work_item_s) \<Rightarrow> thread_pool_s" where
  "thread_pool_create hw_threads env garbage =
     \<lparr>initialized_threads = pool_threads hw_threads env, pool_queue = garbage,
      queue_read_index = 0, queue_write_index = 0, stayAlive = True\<rparr>"

definition thread_pool_destroy :: "thread_pool_s \<Rightarrow> thread_pool_s" where
  "thread_pool_destroy pool = pool\<lparr>stayAlive := False\<rparr>"

definition getWork ::
  "ptr \<Rightarrow> 'a host_world_scheme \<Rightarrow> (thread_pool_work_item_s \<times> 'a host_world_scheme) option" where
  "getWork device w =
     (let pool = thread_pool (host_devices w device) in
      if \<not> stayAlive pool then None
      else case pool_pop pool of None \<Rightarrow> None
        | Some (item, pool') \<Rightarrow> Some (item, set_thread_pool device pool' w))"

definition tryGetWork ::
  "ptr \<Rightarrow> 'a host_world_scheme \<Rightarrow> (thread_pool_work_item_s \<times> 'a host_world_scheme) option" where
  "tryGetWork device w =
     (let pool = thread_pool (host_devices w device) in
      if \<not> stayAlive pool then None
      else case pool_pop pool of None \<Rightarrow> None
        | Some (item, pool') \<Rightarrow> Some (item, set_thread_pool device pool' w))"

definition num_threads :: "thread_pool_s \<Rightarrow> u64" where
  "num_threads pool = initialized_threads pool"

text \<open>
  \<^verbatim>\<open>enqueue\<close> in its two parts: the atomics are written before the lock is taken, the item is
  written to the ring under the lock.
\<close>

definition enqueue_begin :: "thread_pool_work_item_s \<Rightarrow> 'a host_proc" where
  "enqueue_begin item w =
     (let w1 = set_atomic_count (item_count item) (atomic_counts w (item_count item) + 1) w in
      if item_signal item \<noteq> 0 then set_atomic_bool (item_signal item) False w1 else w1)"

definition enqueue_commit ::
  "ptr \<Rightarrow> thread_pool_work_item_s \<Rightarrow> 'a host_world_scheme \<Rightarrow> 'a host_world_scheme option" where
  "enqueue_commit device item w =
     (let pool = thread_pool (host_devices w device) in
      if pool_full pool then None else Some (set_thread_pool device (pool_push item pool) w))"

definition enqueue ::
  "ptr \<Rightarrow> thread_pool_work_item_s \<Rightarrow> 'a host_world_scheme \<Rightarrow> 'a host_world_scheme option" where
  "enqueue device item w = enqueue_commit device item (enqueue_begin item w)"

text \<open>\<^verbatim>\<open>enqueue_range\<close>; the signal of slice \<open>i\<close> is element \<open>i\<close> of the array at \<open>signals\<close>.\<close>

definition range_item ::
  "function_t \<Rightarrow> ptr \<Rightarrow> ptr \<Rightarrow> ptr \<Rightarrow> ptr \<Rightarrow> nat \<Rightarrow> thread_pool_work_item_s" where
  "range_item function data data2 signals cnt index =
     \<lparr>item_function = function, item_user_data = data, item_user_data2 = data2,
      item_user_data3 = 0, item_index = of_nat index, item_signal = signals + of_nat index,
      item_count = cnt\<rparr>"

fun enqueue_all ::
  "ptr \<Rightarrow> thread_pool_work_item_s list \<Rightarrow> 'a host_world_scheme \<Rightarrow> 'a host_world_scheme option" where
  "enqueue_all device [] w = Some w"
| "enqueue_all device (item # items) w =
     (case enqueue device item w of None \<Rightarrow> None | Some w1 \<Rightarrow> enqueue_all device items w1)"

definition enqueue_range ::
  "ptr \<Rightarrow> function_t \<Rightarrow> ptr \<Rightarrow> ptr \<Rightarrow> ptr \<Rightarrow> ptr \<Rightarrow> u64 \<Rightarrow> 'a host_world_scheme
    \<Rightarrow> 'a host_world_scheme option" where
  "enqueue_range device function data data2 signals cnt slices w =
     enqueue_all device (map (range_item function data data2 signals cnt) [0..<unat slices]) w"

text \<open>What a thread does after the function of an item has returned, under \<^verbatim>\<open>wait_mutex\<close>.\<close>

definition complete_item :: "thread_pool_work_item_s \<Rightarrow> 'a host_proc" where
  "complete_item item w =
     (let w1 = (if item_signal item \<noteq> 0 then set_atomic_bool (item_signal item) True w else w)
      in set_atomic_count (item_count item) (atomic_counts w1 (item_count item) - 1) w1)"

text \<open>\<open>call\<close> runs the function of an item; it is \<^term>\<open>None\<close> when that does not return.\<close>

definition threadFuncBody ::
  "(thread_pool_work_item_s \<Rightarrow> 'a host_world_scheme \<Rightarrow> 'a host_world_scheme option)
    \<Rightarrow> thread_pool_work_item_s \<Rightarrow> 'a host_world_scheme \<Rightarrow> 'a host_world_scheme option" where
  "threadFuncBody call item w =
     (case call item w of None \<Rightarrow> None | Some w1 \<Rightarrow> Some (complete_item item w1))"

text \<open>
  The two \<^verbatim>\<open>wait\<close> functions as one thread runs them: it executes queued items until the
  awaited atomic changes. \<^term>\<open>None\<close> stands for blocking on other threads, and for running
  out of the bound on the number of items.
\<close>

fun help_until ::
  "nat \<Rightarrow> ('a host_world_scheme \<Rightarrow> bool)
    \<Rightarrow> (thread_pool_work_item_s \<Rightarrow> 'a host_world_scheme \<Rightarrow> 'a host_world_scheme option)
    \<Rightarrow> ptr \<Rightarrow> 'a host_world_scheme \<Rightarrow> 'a host_world_scheme option" where
  "help_until n finished call device w =
     (if finished w then Some w
      else case n of 0 \<Rightarrow> None
        | Suc m \<Rightarrow> (case tryGetWork device w of None \<Rightarrow> None
            | Some (item, w1) \<Rightarrow> (case threadFuncBody call item w1 of None \<Rightarrow> None
                | Some w2 \<Rightarrow> help_until m finished call device w2)))"

declare help_until.simps [simp del]

definition wait_signal ::
  "nat \<Rightarrow> (thread_pool_work_item_s \<Rightarrow> 'a host_world_scheme \<Rightarrow> 'a host_world_scheme option)
    \<Rightarrow> ptr \<Rightarrow> ptr \<Rightarrow> 'a host_world_scheme \<Rightarrow> 'a host_world_scheme option" where
  "wait_signal n call device signal w = help_until n (\<lambda>w. atomic_bools w signal) call device w"

definition wait_for_count ::
  "nat \<Rightarrow> (thread_pool_work_item_s \<Rightarrow> 'a host_world_scheme \<Rightarrow> 'a host_world_scheme option)
    \<Rightarrow> ptr \<Rightarrow> ptr \<Rightarrow> 'a host_world_scheme \<Rightarrow> 'a host_world_scheme option" where
  "wait_for_count n call device cnt w = help_until n (\<lambda>w. atomic_counts w cnt = 0) call device w"

section \<open>The list behind the ring\<close>

definition pool_ok :: "thread_pool_s \<Rightarrow> bool" where
  "pool_ok pool \<longleftrightarrow> unat (queue_read_index pool) < 4096 \<and> unat (queue_write_index pool) < 4096"

definition ring_index :: "thread_pool_s \<Rightarrow> nat \<Rightarrow> nat" where
  "ring_index pool i = (unat (queue_read_index pool) + i) mod 4096"

definition ring_length :: "thread_pool_s \<Rightarrow> nat" where
  "ring_length pool = (unat (queue_write_index pool) + 4096 - unat (queue_read_index pool)) mod 4096"

definition pool_items :: "thread_pool_s \<Rightarrow> thread_pool_work_item_s list" where
  "pool_items pool =
     map (\<lambda>i. pool_queue pool (of_nat (ring_index pool i))) [0..<ring_length pool]"

lemma unat_next_index:
  fixes x :: u32
  assumes "unat x < 4096"
  shows "unat ((x + 1) mod queue_max) = (unat x + 1) mod 4096"
  using assms by (simp add: queue_max_def unat_mod unat_plus_no_wrap)

lemma index_eq_iff:
  fixes x :: u32
  assumes "i < 4096" 
  shows "of_nat i = x \<longleftrightarrow> i = unat x"
  using assms by (auto simp: unat_of_nat) 

lemma ring_length_less: "ring_length pool < 4096"
  by (simp add: ring_length_def)

lemma mod_add_sub:
  fixes r w n :: nat
  assumes "r < n" and "w < n"
  shows "(r + (w + n - r) mod n) mod n = w"
  using assms by (simp add: mod_add_right_eq)

lemma ring_index_length:
  "pool_ok pool \<Longrightarrow> ring_index pool (ring_length pool) = unat (queue_write_index pool)"
  by (simp add: pool_ok_def ring_index_def ring_length_def mod_add_sub)

lemma ring_index_inj:
  assumes "pool_ok pool" and "i < 4096" and "j < 4096" and "ring_index pool i = ring_index pool j"
  shows "i = j"
  using assms by (auto simp: ring_index_def pool_ok_def mod_if split: if_splits)

lemma distance_if:
  fixes r w :: nat
  assumes "r < 4096" and "w < 4096"
  shows "(w + 4096 - r) mod 4096 = (if r \<le> w then w - r else w + 4096 - r)"
  using assms by (simp add: mod_if)

lemma Suc_mod_if: "w < 4096 \<Longrightarrow> Suc w mod 4096 = (if w = 4095 then 0 else Suc w)"
  by simp

lemma pool_push_ok: "pool_ok pool \<Longrightarrow> pool_ok (pool_push item pool)"
  by (simp add: pool_ok_def pool_push_def next_write_index_def unat_next_index)

lemma pool_full_iff:
  assumes "pool_ok pool"
  shows "pool_full pool \<longleftrightarrow> ring_length pool = 4095"
proof -
  have "pool_full pool \<longleftrightarrow> unat (queue_read_index pool) = (unat (queue_write_index pool) + 1) mod 4096"
    using assms by (simp add: pool_full_def next_write_index_def pool_ok_def word_unat_eq_iff
        unat_next_index)
  also have "\<dots> \<longleftrightarrow> ring_length pool = 4095"
    using assms by (auto simp: pool_ok_def ring_length_def distance_if Suc_mod_if)
  finally show ?thesis .
qed

lemma ring_length_push:
  assumes "pool_ok pool" and "\<not> pool_full pool"
  shows "ring_length (pool_push item pool) = Suc (ring_length pool)"
proof -
  have "ring_length (pool_push item pool)
      = ((unat (queue_write_index pool) + 1) mod 4096 + 4096 - unat (queue_read_index pool)) mod 4096"
    using assms(1) by (simp add: ring_length_def pool_push_def next_write_index_def unat_next_index
        pool_ok_def)
  also have "\<dots> = Suc (ring_length pool)"
    using assms pool_full_iff [OF assms(1)]
    by (auto simp: pool_ok_def ring_length_def distance_if Suc_mod_if split: if_splits)
  finally show ?thesis .
qed

lemma pool_items_push:
  assumes "pool_ok pool" and "\<not> pool_full pool"
  shows "pool_items (pool_push item pool) = pool_items pool @ [item]"
proof -
  have idx: "ring_index (pool_push item pool) = ring_index pool"
    by (auto simp: ring_index_def pool_push_def)
  have ne: "of_nat (ring_index pool i) \<noteq> queue_write_index pool" if "i < ring_length pool" for i
  proof
    assume "of_nat (ring_index pool i) = queue_write_index pool"
    then have "ring_index pool i = ring_index pool (ring_length pool)"
      using ring_index_length [OF assms(1)] by (simp add: index_eq_iff ring_index_def)
    from ring_index_inj [OF assms(1) _ _ this] show False
      using that ring_length_less [of pool] by simp
  qed
  show ?thesis
    using ne ring_index_length [OF assms(1)]
    by (simp add: pool_items_def ring_length_push [OF assms] idx) (simp add: pool_push_def)
qed

lemma pool_pop_cases:
  assumes "pool_ok pool"
  shows "case pool_pop pool of None \<Rightarrow> pool_items pool = []
         | Some (item, pool') \<Rightarrow> pool_items pool = item # pool_items pool' \<and> pool_ok pool'"
proof (cases "queue_read_index pool = queue_write_index pool")
  case True
  then show ?thesis
    by (simp add: pool_pop_def pool_items_def ring_length_def)
next
  case False
  let ?pool' = "pool\<lparr>queue_read_index := (queue_read_index pool + 1) mod queue_max\<rparr>"
  have "unat (queue_read_index pool) \<noteq> unat (queue_write_index pool)"
    using False by (simp add: word_unat_eq_iff)
  then have len: "ring_length pool = Suc (ring_length ?pool')"
    using assms
    by (auto simp: pool_ok_def ring_length_def unat_next_index distance_if Suc_mod_if split: if_splits)
  have idx: "ring_index ?pool' i = ring_index pool (Suc i)" for i
    using assms by (simp add: ring_index_def unat_next_index pool_ok_def mod_add_left_eq)
  have hd: "of_nat (ring_index pool 0) = queue_read_index pool"
    using assms by (simp add: ring_index_def pool_ok_def)
  have "pool_items pool = pool_queue pool (queue_read_index pool) # pool_items ?pool'"
    by (simp add: pool_items_def len idx hd upt_conv_Cons map_Suc_upt [symmetric] del: upt_Suc)
  moreover have "pool_ok ?pool'"
    using assms by (simp add: pool_ok_def unat_next_index)
  ultimately show ?thesis
    using False by (simp add: pool_pop_def)
qed

section \<open>The contract of a bounded queue\<close>

locale work_queue =
  fixes items :: "'q \<Rightarrow> 'i list"
    and inv :: "'q \<Rightarrow> bool"
    and full :: "'q \<Rightarrow> bool"
    and push :: "'i \<Rightarrow> 'q \<Rightarrow> 'q"
    and pop :: "'q \<Rightarrow> ('i \<times> 'q) option"
    and capacity :: nat
  assumes full_iff: "inv q \<Longrightarrow> full q \<longleftrightarrow> length (items q) = capacity"
    and bounded: "inv q \<Longrightarrow> length (items q) \<le> capacity"
    and push_inv: "inv q \<Longrightarrow> inv (push x q)"
    and push_items: "inv q \<Longrightarrow> \<not> full q \<Longrightarrow> items (push x q) = items q @ [x]"
    and pop_case: "inv q \<Longrightarrow> case pop q of None \<Rightarrow> items q = []
          | Some (x, q') \<Rightarrow> items q = x # items q' \<and> inv q'"
begin

lemma pop_None_iff: "inv q \<Longrightarrow> pop q = None \<longleftrightarrow> items q = []"
  using pop_case [of q] by (auto split: option.splits)

lemma pop_Some: "inv q \<Longrightarrow> pop q = Some (x, q') \<Longrightarrow> items q = x # items q' \<and> inv q'"
  using pop_case [of q] by simp

lemma pop_nonempty: "inv q \<Longrightarrow> items q = x # xs \<Longrightarrow> \<exists>q'. pop q = Some (x, q') \<and> items q' = xs \<and> inv q'"
  using pop_case [of q] by (auto split: option.splits)

text \<open>Items leave in the order in which they entered, also when both happen in turn.\<close>

lemma push_all_items:
  assumes "inv q" and "length (items q) + length xs \<le> capacity"
  shows "inv (fold push xs q) \<and> items (fold push xs q) = items q @ xs"
  using assms
proof (induction xs arbitrary: q)
  case (Cons x xs)
  then have "\<not> full q"
    by (simp add: full_iff)
  with Cons show ?case
    by (simp add: push_inv push_items)
qed simp

lemma not_full: "inv q \<Longrightarrow> length (items q) < capacity \<Longrightarrow> \<not> full q"
  by (simp add: full_iff)

end

lemma length_pool_items [simp]: "length (pool_items pool) = ring_length pool"
  by (simp add: pool_items_def)

interpretation ring: work_queue pool_items pool_ok pool_full pool_push pool_pop 4095
proof unfold_locales
  show "length (pool_items q) \<le> 4095" for q
    using ring_length_less [of q] by simp
qed (simp_all add: pool_full_iff pool_push_ok pool_items_push pool_pop_cases)

section \<open>Operations on the list\<close>

text \<open>The queued items of the pool of a device, and its well-formedness, in a world.\<close>

definition queued :: "ptr \<Rightarrow> 'a host_world_scheme \<Rightarrow> thread_pool_work_item_s list" where
  "queued device w = pool_items (thread_pool (host_devices w device))"

definition pool_of_ok :: "ptr \<Rightarrow> 'a host_world_scheme \<Rightarrow> bool" where
  "pool_of_ok device w \<longleftrightarrow> pool_ok (thread_pool (host_devices w device))"

lemma enqueue_begin_frame [simp]:
  "host_devices (enqueue_begin item w) = host_devices w"
  by (simp add: enqueue_begin_def host_setters Let_def)

lemma complete_item_frame [simp]:
  "host_devices (complete_item item w) = host_devices w"
  by (simp add: complete_item_def host_setters Let_def)

lemma enqueue_commit_spec:
  assumes "pool_of_ok device w"
  shows "case enqueue_commit device item w of
           None \<Rightarrow> length (queued device w) = 4095
         | Some w' \<Rightarrow> queued device w' = queued device w @ [item] \<and> pool_of_ok device w' \<and>
                      atomic_counts w' = atomic_counts w \<and> atomic_bools w' = atomic_bools w"
  using assms
  by (auto simp: enqueue_commit_def queued_def pool_of_ok_def ring.full_iff ring.push_inv
      ring.push_items set_thread_pool_def Let_def)

lemma tryGetWork_spec:
  assumes "pool_of_ok device w" and "tryGetWork device w = Some (item, w')"
  shows "queued device w = item # queued device w' \<and> pool_of_ok device w' \<and>
         atomic_counts w' = atomic_counts w \<and> atomic_bools w' = atomic_bools w"
  using assms
  by (auto simp: tryGetWork_def queued_def pool_of_ok_def set_thread_pool_def Let_def
      split: if_splits option.splits dest: ring.pop_Some)

section \<open>Interleavings\<close>

text \<open>
  A configuration is the world, the items that some thread has announced but not yet written
  to the ring, and the items that some thread is running. Each rule is one critical section;
  \<open>Step_work\<close> is anything else a thread does, which leaves the ring and the counters alone and
  may reset signals. A fence must not be passed to a second dispatch while the first is
  pending; \<open>Step_begin\<close> states that as the freshness of the signal.
\<close>

type_synonym 'a pool_config =
  "'a host_world_scheme \<times> thread_pool_work_item_s multiset \<times> thread_pool_work_item_s multiset"

definition in_flight :: "ptr \<Rightarrow> 'a pool_config \<Rightarrow> thread_pool_work_item_s multiset" where
  "in_flight device c = (case c of (w, P, R) \<Rightarrow> P + mset (queued device w) + R)"

definition fresh_signal :: "thread_pool_work_item_s \<Rightarrow> thread_pool_work_item_s multiset \<Rightarrow> bool" where
  "fresh_signal item F \<longleftrightarrow>
     item_signal item = 0 \<or> (\<forall>other \<in># F. item_signal other \<noteq> item_signal item)"

inductive pool_step :: "ptr \<Rightarrow> 'a pool_config \<Rightarrow> 'a pool_config \<Rightarrow> bool" for device where
  Step_begin: "fresh_signal item (in_flight device (w, P, R)) \<Longrightarrow>
     pool_step device (w, P, R) (enqueue_begin item w, add_mset item P, R)"
| Step_commit: "item \<in># P \<Longrightarrow> enqueue_commit device item w = Some w' \<Longrightarrow>
     pool_step device (w, P, R) (w', P - {#item#}, R)"
| Step_take: "tryGetWork device w = Some (item, w') \<Longrightarrow>
     pool_step device (w, P, R) (w', P, add_mset item R)"
| Step_finish: "item \<in># R \<Longrightarrow>
     pool_step device (w, P, R) (complete_item item w, P, R - {#item#})"
| Step_work: "host_devices w' device = host_devices w device \<Longrightarrow> atomic_counts w' = atomic_counts w \<Longrightarrow>
     (\<forall>s. atomic_bools w' s \<longrightarrow> atomic_bools w s) \<Longrightarrow> pool_step device (w, P, R) (w', P, R)"

inductive pool_reach :: "ptr \<Rightarrow> 'a pool_config \<Rightarrow> 'a pool_config \<Rightarrow> bool" for device where
  Reach_refl: "pool_reach device c c"
| Reach_step: "pool_reach device c d \<Longrightarrow> pool_step device d e \<Longrightarrow> pool_reach device c e"

inductive_cases pool_stepE: "pool_step device c d"

definition counted :: "ptr \<Rightarrow> thread_pool_work_item_s multiset \<Rightarrow> nat" where
  "counted c F = size (filter_mset (\<lambda>item. item_count item = c) F)"

definition signalling :: "ptr \<Rightarrow> thread_pool_work_item_s multiset \<Rightarrow> nat" where
  "signalling s F = size (filter_mset (\<lambda>item. item_signal item = s) F)"

definition pool_inv :: "ptr \<Rightarrow> 'a pool_config \<Rightarrow> bool" where
  "pool_inv device c \<longleftrightarrow> (case c of (w, P, R) \<Rightarrow>
     pool_of_ok device w \<and>
     (\<forall>a. atomic_counts w a = of_nat (counted a (in_flight device c))) \<and>
     (\<forall>item \<in># in_flight device c. item_signal item \<noteq> 0 \<longrightarrow> \<not> atomic_bools w (item_signal item)) \<and>
     (\<forall>s. s \<noteq> 0 \<longrightarrow> signalling s (in_flight device c) \<le> 1))"

lemma counted_simps [simp]:
  "counted c {#} = 0"
  "counted c (add_mset item F) = (if item_count item = c then Suc (counted c F) else counted c F)"
  "counted c (F + G) = counted c F + counted c G"
  by (simp_all add: counted_def)

lemma signalling_simps [simp]:
  "signalling s {#} = 0"
  "signalling s (add_mset item F)
     = (if item_signal item = s then Suc (signalling s F) else signalling s F)"
  by (simp_all add: signalling_def)

lemma signalling_eq_0_iff: "signalling s F = 0 \<longleftrightarrow> (\<forall>item \<in># F. item_signal item \<noteq> s)"
  by (auto simp: signalling_def)

lemma queued_cong: "host_devices w' device = host_devices w device \<Longrightarrow> queued device w' = queued device w"
  and pool_of_ok_cong:
    "host_devices w' device = host_devices w device \<Longrightarrow> pool_of_ok device w' = pool_of_ok device w"
  by (simp_all add: queued_def pool_of_ok_def)

lemma pool_inv_same_flight:
  assumes "pool_inv device (w, P, R)" and "in_flight device (w', P', R') = in_flight device (w, P, R)"
    and "pool_of_ok device w'" and "atomic_counts w' = atomic_counts w"
    and "\<forall>s. atomic_bools w' s \<longrightarrow> atomic_bools w s"
  shows "pool_inv device (w', P', R')"
  using assms by (fastforce simp: pool_inv_def)

lemma pool_inv_begin:
  assumes inv: "pool_inv device (w, P, R)" and fresh: "fresh_signal item (in_flight device (w, P, R))"
  shows "pool_inv device (enqueue_begin item w, add_mset item P, R)"
proof -
  let ?F = "in_flight device (w, P, R)" and ?w = "enqueue_begin item w"
  have F: "in_flight device (?w, add_mset item P, R) = add_mset item ?F"
    by (simp add: in_flight_def queued_def)
  have counts: "atomic_counts ?w a = atomic_counts w a + (if item_count item = a then 1 else 0)" for a
    by (simp add: enqueue_begin_def host_setters Let_def)
  have bools: "atomic_bools ?w s = (atomic_bools w s \<and> (s = item_signal item \<longrightarrow> s = 0))" for s
    by (auto simp: enqueue_begin_def host_setters Let_def)
  have one: "signalling s (add_mset item ?F) \<le> 1" if "s \<noteq> 0" for s
    using inv fresh that by (auto simp: pool_inv_def fresh_signal_def signalling_eq_0_iff)
  have quiet: "\<not> atomic_bools ?w (item_signal other)"
    if "other \<in># add_mset item ?F" "item_signal other \<noteq> 0" for other
    using inv that by (auto simp: pool_inv_def bools)
  show ?thesis
    using inv one quiet by (simp add: pool_inv_def F counts pool_of_ok_def)
qed

lemma pool_inv_finish:
  assumes inv: "pool_inv device (w, P, R)" and item: "item \<in># R"
  shows "pool_inv device (complete_item item w, P, R - {#item#})"
proof -
  let ?G = "in_flight device (complete_item item w, P, R - {#item#})"
  have F: "in_flight device (w, P, R) = add_mset item ?G"
    using item by (simp add: in_flight_def queued_def)
  have counts: "atomic_counts (complete_item item w) a
      = atomic_counts w a - (if item_count item = a then 1 else 0)" for a
    by (simp add: complete_item_def host_setters Let_def)
  have bools: "atomic_bools (complete_item item w) s
      = (atomic_bools w s \<or> (s = item_signal item \<and> s \<noteq> 0))" for s
    by (auto simp: complete_item_def host_setters Let_def)
  have one: "signalling s (add_mset item ?G) \<le> 1" if "s \<noteq> 0" for s
    using inv that by (simp add: pool_inv_def F)
  have quiet: "\<not> atomic_bools (complete_item item w) (item_signal other)"
    if "other \<in># ?G" "item_signal other \<noteq> 0" for other
  proof -
    have "item_signal other \<noteq> item_signal item"
      using one [of "item_signal item"] that by (auto simp: signalling_eq_0_iff)
    then show ?thesis
      using inv that by (simp add: pool_inv_def F bools)
  qed
  have small: "signalling s ?G \<le> 1" if "s \<noteq> 0" for s
    using one [OF that] by (simp split: if_splits)
  have cnt: "atomic_counts (complete_item item w) a = of_nat (counted a ?G)" for a
    using inv by (simp add: pool_inv_def F counts)
  show ?thesis
    using inv quiet small cnt by (simp add: pool_inv_def pool_of_ok_def)
qed

lemma pool_inv_step:
  assumes "pool_step device c d" and "pool_inv device c"
  shows "pool_inv device d"
  using assms
proof (cases rule: pool_step.cases)
  case (Step_commit item P w w' R)
  then have ok: "pool_of_ok device w"
    using assms(2) by (simp add: pool_inv_def)
  from enqueue_commit_spec [OF ok, of item] Step_commit
  have "in_flight device (w', P - {#item#}, R) = in_flight device (w, P, R)"
    "pool_of_ok device w'" "atomic_counts w' = atomic_counts w" "atomic_bools w' = atomic_bools w"
    by (simp_all add: in_flight_def)
  with Step_commit assms(2) show ?thesis
    by (simp add: pool_inv_same_flight)
next
  case (Step_take w item w' P R)
  then have ok: "pool_of_ok device w"
    using assms(2) by (simp add: pool_inv_def)
  from tryGetWork_spec [OF ok Step_take(3)]
  have "in_flight device (w', P, add_mset item R) = in_flight device (w, P, R)"
    "pool_of_ok device w'" "atomic_counts w' = atomic_counts w" "atomic_bools w' = atomic_bools w"
    by (simp_all add: in_flight_def)
  with Step_take assms(2) show ?thesis
    by (simp add: pool_inv_same_flight)
next
  case (Step_work w' w P R)
  then have "in_flight device (w', P, R) = in_flight device (w, P, R)" "pool_of_ok device w'"
    using assms(2) queued_cong [of w' device w] pool_of_ok_cong [of w' device w]
    by (simp_all add: in_flight_def pool_inv_def)
  with Step_work assms(2) show ?thesis
    by (simp add: pool_inv_same_flight)
qed (use assms(2) pool_inv_begin pool_inv_finish in simp_all)

lemma pool_inv_reach: "pool_reach device c d \<Longrightarrow> pool_inv device c \<Longrightarrow> pool_inv device d"
  by (induction rule: pool_reach.induct) (auto intro: pool_inv_step)

lemma pool_inv_initial:
  assumes "pool_of_ok device w" and "queued device w = []" and "\<forall>a. atomic_counts w a = 0"
  shows "pool_inv device (w, {#}, {#})"
  using assms by (simp add: pool_inv_def in_flight_def)

lemma thread_pool_create_ok: "pool_ok (thread_pool_create hw env garbage)"
  by (simp add: pool_ok_def thread_pool_create_def)

lemma thread_pool_create_items: "pool_items (thread_pool_create hw env garbage) = []"
  unfolding pool_items_def by (simp add: ring_length_def thread_pool_create_def)

lemma destroyed_pool_gives_no_work:
  "tryGetWork device (set_thread_pool device (thread_pool_destroy pool) w) = None"
  "getWork device (set_thread_pool device (thread_pool_destroy pool) w) = None"
  by (simp_all add: tryGetWork_def getWork_def thread_pool_destroy_def set_thread_pool_def)

lemma empty_pool_ok [simp]: "pool_ok empty_pool"
  by (simp add: pool_ok_def empty_pool_def)

lemma empty_pool_items [simp]: "pool_items empty_pool = []"
  unfolding pool_items_def by (simp add: ring_length_def empty_pool_def)

section \<open>Properties\<close>

text \<open>
  C13: The ring of the thread pool is a first-in first-out queue of capacity 4095: it is full
  exactly when it holds 4095 items, writing to it when it is not full appends the item, and
  taking from it removes the first item or finds it empty; all three keep the indices in
  range.
\<close>

theorem ring_refines_fifo:
  assumes "pool_ok pool"
  shows "(pool_full pool \<longleftrightarrow> length (pool_items pool) = 4095) \<and>
         (\<not> pool_full pool \<longrightarrow> pool_ok (pool_push item pool) \<and>
            pool_items (pool_push item pool) = pool_items pool @ [item]) \<and>
         (case pool_pop pool of None \<Rightarrow> pool_items pool = []
          | Some (first, pool') \<Rightarrow> pool_items pool = first # pool_items pool' \<and> pool_ok pool')"
  using assms by (intro conjI impI ring.full_iff ring.push_inv ring.push_items ring.pop_case)

theorem ring_refines_fifo_witness:
  "pool_ok empty_pool \<and> pool_items empty_pool = [] \<and>
   (\<exists>item. pool_items (pool_push item empty_pool) = [item])"
proof -
  have "\<not> pool_full empty_pool"
    by (simp add: pool_full_iff ring_length_def) (simp add: empty_pool_def)
  then show ?thesis
    using ring_refines_fifo [OF empty_pool_ok] by simp
qed

text \<open>
  C3: In every interleaving of threads that enqueue, take, execute and finish work, a counter
  holds the number of items that were enqueued with it and have not finished, modulo the
  width of the counter. So \<^verbatim>\<open>wait\<close> on a counter returns only when all of its items have
  finished, as long as fewer than \<^verbatim>\<open>2^32\<close> items are in flight; and \<^verbatim>\<open>wait\<close> on a signal returns
  only when the item of that signal has finished.
\<close>

theorem wait_is_sound:
  assumes "pool_of_ok device w0" and "queued device w0 = []" and "\<forall>a. atomic_counts w0 a = 0"
    and "pool_reach device (w0, {#}, {#}) (w, P, R)"
    and "size (in_flight device (w, P, R)) < 2 ^ 32"
  shows "(atomic_counts w a = 0 \<longleftrightarrow> (\<forall>item \<in># in_flight device (w, P, R). item_count item \<noteq> a)) \<and>
         (s \<noteq> 0 \<and> atomic_bools w s \<longrightarrow>
            (\<forall>item \<in># in_flight device (w, P, R). item_signal item \<noteq> s))"
proof -
  let ?F = "in_flight device (w, P, R)"
  have inv: "pool_inv device (w, P, R)"
    using pool_inv_reach [OF assms(4) pool_inv_initial [OF assms(1-3)]] .
  have "counted a ?F \<le> size ?F"
    unfolding counted_def by (rule size_filter_mset_lesseq)
  then have small: "counted a ?F < 2 ^ 32"
    using assms(5) by (rule le_less_trans)
  have "atomic_counts w a = of_nat (counted a ?F)"
    using inv by (simp add: pool_inv_def)
  then have "atomic_counts w a = 0 \<longleftrightarrow> counted a ?F = 0"
    using small of_nat_eq_small_iff [of "counted a ?F" 0, where 'a = 32] by simp
  moreover have "counted a ?F = 0 \<longleftrightarrow> (\<forall>item \<in># ?F. item_count item \<noteq> a)"
    by (auto simp: counted_def)
  moreover have "s \<noteq> 0 \<and> atomic_bools w s \<longrightarrow> (\<forall>item \<in># ?F. item_signal item \<noteq> s)"
    using inv unfolding pool_inv_def by blast
  ultimately show ?thesis
    by (intro conjI) (rule trans)
qed

text \<open>An item with signal \<^verbatim>\<open>0x50\<close> and counter \<^verbatim>\<open>0x60\<close>.\<close>

definition demo_item :: thread_pool_work_item_s where
  "demo_item = \<lparr>item_function = Fn_threadPoolCleanup, item_user_data = 0, item_user_data2 = 0,
     item_user_data3 = 0, item_index = 0, item_signal = 0x50, item_count = 0x60\<rparr>"

theorem wait_is_sound_witness:
  "\<exists>w. pool_reach 0x30 (empty_host_world, {#}, {#}) (w, {#demo_item#}, {#}) \<and>
     atomic_counts w 0x60 \<noteq> 0 \<and> \<not> atomic_bools w 0x50"
proof -
  let ?w = "enqueue_begin demo_item empty_host_world"
  have ok: "pool_of_ok 0x30 empty_host_world" and empty: "queued 0x30 empty_host_world = []"
    by (simp_all add: pool_of_ok_def queued_def)
  have step: "pool_step 0x30 (empty_host_world, {#}, {#}) (?w, {#demo_item#}, {#})"
    by (rule Step_begin) (simp add: fresh_signal_def in_flight_def empty)
  have reach: "pool_reach 0x30 (empty_host_world, {#}, {#}) (?w, {#demo_item#}, {#})"
    by (rule Reach_step [OF Reach_refl step])
  have flight: "in_flight 0x30 (?w, {#demo_item#}, {#}) = {#demo_item#}"
    by (simp add: in_flight_def queued_def)
  have "atomic_counts ?w 0x60 \<noteq> 0" and "\<not> atomic_bools ?w 0x50"
    using wait_is_sound [OF ok empty _ reach, of "0x60" "0x50"]
    by (simp_all add: flight) (simp_all add: demo_item_def)
  with reach show ?thesis
    by blast
qed


end
