(* ===== verification/Host_Queue.thy ===== *)
theory Host_Queue
  imports Host_Thread_Pool
begin

text \<open>
  Fences, semaphores and the queue of the host target (\<^verbatim>\<open>fence.cpp\<close>, \<^verbatim>\<open>semaphore.cpp\<close> and
  \<^verbatim>\<open>queue.cpp\<close> of \<^verbatim>\<open>modules/mux/targets/host/source/\<close>): which command buffer is handed to
  the thread pool at which moment. What the pool then does with it is in \<open>Host_Execute\<close>;
  the properties of the scheduling are in \<open>Host_Scheduler\<close>.

  \<^item> An operation is \<^term>\<open>None\<close> where \<^verbatim>\<open>thread_pool_s::enqueue\<close> waits for a free slot, and where
    an \<^verbatim>\<open>assert\<close> fails.
  \<^item> An array embedded in an object is named by the address of the object.
\<close>

section \<open>Fences\<close>

definition fence_construct :: "ptr \<Rightarrow> ptr \<Rightarrow> 'a host_proc" where
  "fence_construct device p w =
     set_atomic_bool p False (set_host_fence p \<lparr>fence_result = mux_error_internal\<rparr>
       (w\<lparr>fences := (fences w)(p := (fences w p)\<lparr>fence_device := device\<rparr>)\<rparr>))"

definition fence_reset :: "ptr \<Rightarrow> 'a host_proc" where
  "fence_reset p w =
     set_host_fence p \<lparr>fence_result = mux_fence_not_ready\<rparr> (set_atomic_bool p False w)"

text \<open>The result as it is polled; \<^term>\<open>None\<close> when the assertion fails.\<close>

definition poll_result :: "ptr \<Rightarrow> 'a host_world_scheme \<Rightarrow> mux_result_t option" where
  "poll_result fence w =
     (let result = (if atomic_bools w fence then fence_result (host_fences w fence)
                    else mux_fence_not_ready)
      in if result = mux_error_internal then None else Some result)"

text \<open>
  The polling loop with \<open>n\<close> nanoseconds left; \<open>sleep\<close> is what the other threads do to the
  world while this one sleeps.
\<close>

fun poll_fence ::
  "nat \<Rightarrow> ('a host_world_scheme \<Rightarrow> 'a host_world_scheme) \<Rightarrow> ptr \<Rightarrow> 'a host_world_scheme
    \<Rightarrow> (mux_result_t \<times> 'a host_world_scheme) option" where
  "poll_fence 0 sleep fence w =
     (case poll_result fence w of None \<Rightarrow> None | Some result \<Rightarrow> Some (result, w))"
| "poll_fence (Suc n) sleep fence w =
     (let w1 = sleep w in
      case poll_result fence w1 of None \<Rightarrow> None
      | Some result \<Rightarrow> if result = mux_success then Some (mux_success, w1)
                       else poll_fence n sleep fence w1)"

definition fence_tryWait ::
  "nat \<Rightarrow> (thread_pool_work_item_s \<Rightarrow> 'a host_world_scheme \<Rightarrow> 'a host_world_scheme option)
    \<Rightarrow> ('a host_world_scheme \<Rightarrow> 'a host_world_scheme) \<Rightarrow> ptr \<Rightarrow> u64 \<Rightarrow> 'a host_world_scheme
    \<Rightarrow> (mux_result_t \<times> 'a host_world_scheme) option" where
  "fence_tryWait n call sleep fence timeout w =
     (if timeout = - 1
      then case wait_signal n call (fence_device (fences w fence)) fence w of None \<Rightarrow> None
        | Some w1 \<Rightarrow> (let result = fence_result (host_fences w1 fence) in
            if result = mux_error_internal then None else Some (result, w1))
      else case poll_result fence w of None \<Rightarrow> None
        | Some _ \<Rightarrow> poll_fence (unat timeout) sleep fence w)"

definition hostCreateFence :: "ptr \<Rightarrow> mux_allocator_info_s \<Rightarrow> ptr \<Rightarrow> 'a host_call" where
  "hostCreateFence device allocator_info out_fence w =
     (case allocator_create allocator_info Obj_fence (fence_construct device) w of (fence, w1) \<Rightarrow>
        if fence = 0 then (mux_error_out_of_memory, w1)
        else (mux_success, set_cell out_fence fence w1))"

definition hostDestroyFence :: "ptr \<Rightarrow> ptr \<Rightarrow> mux_allocator_info_s \<Rightarrow> 'a host_proc" where
  "hostDestroyFence device fence allocator_info w =
     allocator_destroy allocator_info (\<lambda>p w. w) fence w"

definition hostResetFence :: "ptr \<Rightarrow> 'a host_call" where
  "hostResetFence fence w = (mux_success, fence_reset fence w)"

section \<open>The queue\<close>

text \<open>\<^verbatim>\<open>std::find_if\<close>, with the position of the end when nothing is found.\<close>

fun find_if :: "('x \<Rightarrow> bool) \<Rightarrow> 'x list \<Rightarrow> nat" where
  "find_if p [] = 0"
| "find_if p (x # xs) = (if p x then 0 else Suc (find_if p xs))"

text \<open>The work item for a group; the signal is the fence, which may be null.\<close>

definition group_item :: "function_t \<Rightarrow> ptr \<Rightarrow> ptr \<Rightarrow> ptr \<Rightarrow> u64 \<Rightarrow> thread_pool_work_item_s" where
  "group_item function queue grp fence index =
     \<lparr>item_function = function, item_user_data = queue, item_user_data2 = grp,
      item_user_data3 = fence, item_index = index, item_signal = fence, item_count = queue\<rparr>"

abbreviation "process_item queue grp fence \<equiv>
  group_item Fn_threadPoolProcessCommands queue grp fence 0"

abbreviation "cleanup_item queue grp fence \<equiv>
  group_item Fn_threadPoolCleanup queue grp fence 1"

definition signalCompleted ::
  "ptr \<Rightarrow> ptr \<Rightarrow> bool \<Rightarrow> 'a host_world_scheme \<Rightarrow> 'a host_world_scheme option" where
  "signalCompleted queue grp terminate w =
     (let infos = signalInfos (host_queues w queue);
          i = find_if (\<lambda>info. fst info = grp) (sv_elems infos)
      in if i = length (sv_elems infos) then Some w
      else
        let device = command_buffer_device (command_buffers w grp);
            info = snd (sv_elems infos ! i)
        in if terminate
           then enqueue device (cleanup_item queue grp (signal_fence info)) w
           else
             let info' = info\<lparr>wait_count := wait_count info - 1\<rparr>;
                 infos' = infos\<lparr>sv_elems := (sv_elems infos)[i := (grp, info')]\<rparr>;
                 w1 = set_host_queue queue \<lparr>signalInfos = infos'\<rparr> w
             in if wait_count info' = 0
                then case enqueue device (process_item queue grp (signal_fence info)) w1 of
                    None \<Rightarrow> None
                  | Some w2 \<Rightarrow> (case sv_erase i (signalInfos (host_queues w2 queue)) of
                      None \<Rightarrow> None
                    | Some (_, infos2) \<Rightarrow>
                        Some (set_host_queue queue \<lparr>signalInfos = infos2\<rparr> w2))
                else Some w1)"

definition addGroup ::
  "ptr \<Rightarrow> ptr \<Rightarrow> ptr \<Rightarrow> u64 \<Rightarrow> 'a host_world_scheme \<Rightarrow> (mux_result_t \<times> 'a host_world_scheme) option" where
  "addGroup queue grp fence numWaits w =
     (if numWaits = 0
      then case enqueue (command_buffer_device (command_buffers w grp))
                  (process_item queue grp fence) w of
          None \<Rightarrow> None
        | Some w1 \<Rightarrow> Some (mux_success, w1)
      else case sv_push_back Obj_signal_info 8
                  (grp, \<lparr>wait_count = numWaits, signal_fence = fence\<rparr>)
                  (signalInfos (host_queues w queue)) w of
          (error, infos, w1) \<Rightarrow>
            (let w2 = set_host_queue queue \<lparr>signalInfos = infos\<rparr> w1
             in if error \<noteq> cargo_success then Some (mux_error_out_of_memory, w2)
                else Some (mux_success, w2)))"

section \<open>Semaphores\<close>

definition semaphore_construct :: "ptr \<Rightarrow> mux_allocator_info_s \<Rightarrow> ptr \<Rightarrow> 'a host_proc" where
  "semaphore_construct device allocator_info p w =
     set_host_semaphore p
       \<lparr>signalled = False, failed = False, waitingGroups = sv_new 8 p allocator_info\<rparr>
       (w\<lparr>semaphores := (semaphores w)(p := (semaphores w p)\<lparr>semaphore_device := device\<rparr>)\<rparr>)"

fun signal_groups ::
  "ptr \<Rightarrow> bool \<Rightarrow> ptr list \<Rightarrow> 'a host_world_scheme \<Rightarrow> 'a host_world_scheme option" where
  "signal_groups queue terminate [] w = Some w"
| "signal_groups queue terminate (grp # groups) w =
     (case signalCompleted queue grp terminate w of None \<Rightarrow> None
      | Some w1 \<Rightarrow> signal_groups queue terminate groups w1)"

definition semaphore_queue :: "ptr \<Rightarrow> 'a host_world_scheme \<Rightarrow> ptr" where
  "semaphore_queue s w = device_queue (host_devices w (semaphore_device (semaphores w s)))"

definition semaphore_signal ::
  "ptr \<Rightarrow> bool \<Rightarrow> 'a host_world_scheme \<Rightarrow> 'a host_world_scheme option" where
  "semaphore_signal s terminate w =
     (let w1 = set_host_semaphore s
                 ((host_semaphores w s)\<lparr>signalled := True, failed := terminate\<rparr>) w
      in signal_groups (semaphore_queue s w1) terminate
           (sv_elems (waitingGroups (host_semaphores w1 s))) w1)"

definition semaphore_addWait ::
  "ptr \<Rightarrow> ptr \<Rightarrow> 'a host_world_scheme \<Rightarrow> (mux_result_t \<times> 'a host_world_scheme) option" where
  "semaphore_addWait s grp w =
     (if signalled (host_semaphores w s)
      then case signalCompleted (semaphore_queue s w) grp (failed (host_semaphores w s)) w of
          None \<Rightarrow> None
        | Some w1 \<Rightarrow> Some (mux_success, w1)
      else case sv_push_back Obj_handle 8 grp (waitingGroups (host_semaphores w s)) w of
          (error, groups, w1) \<Rightarrow>
            (let w2 = set_host_semaphore s ((host_semaphores w1 s)\<lparr>waitingGroups := groups\<rparr>) w1
             in if error \<noteq> cargo_success then Some (mux_error_out_of_memory, w2)
                else Some (mux_success, w2)))"

definition semaphore_reset :: "ptr \<Rightarrow> 'a host_proc" where
  "semaphore_reset s w =
     set_host_semaphore s \<lparr>signalled = False, failed = False,
       waitingGroups = sv_clear (waitingGroups (host_semaphores w s))\<rparr> w"

definition semaphore_destruct :: "ptr \<Rightarrow> 'a host_proc" where
  "semaphore_destruct s w =
     (case sv_destroy 8 (waitingGroups (host_semaphores w s)) w of (groups, w1) \<Rightarrow>
        set_host_semaphore s ((host_semaphores w1 s)\<lparr>waitingGroups := groups\<rparr>) w1)"

definition hostCreateSemaphore :: "ptr \<Rightarrow> mux_allocator_info_s \<Rightarrow> ptr \<Rightarrow> 'a host_call" where
  "hostCreateSemaphore device allocator_info out_semaphore w =
     (case allocator_create allocator_info Obj_semaphore
             (semaphore_construct device allocator_info) w of (s, w1) \<Rightarrow>
        if s = 0 then (mux_error_out_of_memory, w1)
        else (mux_success, set_cell out_semaphore s w1))"

definition hostDestroySemaphore :: "ptr \<Rightarrow> ptr \<Rightarrow> mux_allocator_info_s \<Rightarrow> 'a host_proc" where
  "hostDestroySemaphore device s allocator_info w =
     allocator_destroy allocator_info semaphore_destruct s w"

definition hostResetSemaphore :: "ptr \<Rightarrow> 'a host_call" where
  "hostResetSemaphore s w = (mux_success, semaphore_reset s w)"

section \<open>Dispatch and waiting\<close>

definition hostGetQueue :: "ptr \<Rightarrow> u32 \<Rightarrow> u32 \<Rightarrow> ptr \<Rightarrow> 'a host_call" where
  "hostGetQueue device queue_type queue_index out_queue w =
     (mux_success, set_cell out_queue (device_queue (host_devices w device)) w)"

text \<open>The loop that registers the group with its wait semaphores; results are dropped.\<close>

fun add_waits ::
  "ptr \<Rightarrow> ptr list \<Rightarrow> 'a host_world_scheme \<Rightarrow> 'a host_world_scheme option" where
  "add_waits grp [] w = Some w"
| "add_waits grp (s # ss) w =
     (case semaphore_addWait s grp w of None \<Rightarrow> None
      | Some (_, w1) \<Rightarrow> add_waits grp ss w1)"

definition handle_list :: "'a mux_world_scheme \<Rightarrow> ptr \<Rightarrow> u32 \<Rightarrow> ptr list" where
  "handle_list w list n = map (handle_at w list) [0..<unat n]"

definition hostDispatch ::
  "ptr \<Rightarrow> ptr \<Rightarrow> ptr \<Rightarrow> ptr \<Rightarrow> u32 \<Rightarrow> ptr \<Rightarrow> u32 \<Rightarrow> ptr \<Rightarrow> ptr \<Rightarrow> 'a host_world_scheme
    \<Rightarrow> (mux_result_t \<times> 'a host_world_scheme) option" where
  "hostDispatch queue command_buffer fence wait_semaphores wait_semaphores_length
       sem_list sem_list_length user_fn data w =
     (let cb = host_command_buffers w command_buffer in
      case sv_insert Obj_handle 8 (length (sv_elems (signal_semaphores cb)))
             (handle_list w sem_list sem_list_length) (signal_semaphores cb) w of
        None \<Rightarrow> None
      | Some (Inl _, sems, w1) \<Rightarrow>
          Some (mux_error_out_of_memory,
            set_host_command_buffer command_buffer (cb\<lparr>signal_semaphores := sems\<rparr>) w1)
      | Some (Inr _, sems, w1) \<Rightarrow>
          (let w2 = set_host_command_buffer command_buffer
                      (cb\<lparr>signal_semaphores := sems, user_function := user_fn,
                          user_data := data\<rparr>) w1;
               w3 = (if fence \<noteq> 0 then fence_reset fence w2 else w2)
           in case addGroup queue command_buffer fence (ucast wait_semaphores_length) w3 of
             None \<Rightarrow> None
           | Some (_, w4) \<Rightarrow>
               (case add_waits command_buffer
                       (handle_list w4 wait_semaphores wait_semaphores_length) w4 of
                  None \<Rightarrow> None
                | Some w5 \<Rightarrow> Some (mux_success, w5))))"

definition hostTryWait ::
  "nat \<Rightarrow> (thread_pool_work_item_s \<Rightarrow> 'a host_world_scheme \<Rightarrow> 'a host_world_scheme option)
    \<Rightarrow> ('a host_world_scheme \<Rightarrow> 'a host_world_scheme) \<Rightarrow> ptr \<Rightarrow> u64 \<Rightarrow> ptr \<Rightarrow> 'a host_world_scheme
    \<Rightarrow> (mux_result_t \<times> 'a host_world_scheme) option" where
  "hostTryWait n call sleep queue timeout fence w = fence_tryWait n call sleep fence timeout w"

text \<open>\<^verbatim>\<open>hostWaitAll\<close> does not help the pool: it is \<^term>\<open>None\<close> while groups are running.\<close>

definition hostWaitAll ::
  "ptr \<Rightarrow> 'a host_world_scheme \<Rightarrow> (mux_result_t \<times> 'a host_world_scheme) option" where
  "hostWaitAll queue w = (if atomic_counts w queue = 0 then Some (mux_success, w) else None)"

end
