(* ===== verification/Host_Scheduler.thy ===== *)
theory Host_Scheduler
  imports Host_Queue
begin

text \<open>
  The correctness of the scheduling in \<^verbatim>\<open>queue.cpp\<close> and \<^verbatim>\<open>semaphore.cpp\<close> of the host target.

  \<^item> \<open>tracked\<close> is the map the vector \<^verbatim>\<open>signalInfos\<close> stands for, and \<open>waiting\<close> the list of
    groups of a semaphore.
  \<^item> \<open>sched_step\<close> interleaves dispatches, signals and resets, with the semaphores a group still
    waits for as ghost state; \<open>sched_inv\<close> ties the wait counts to them and is kept by every
    step. Each operation has a specification lemma from which the step lemma follows.
\<close>

section \<open>The map behind the tracking vector\<close>

definition infos :: "ptr \<Rightarrow> 'a host_world_scheme \<Rightarrow> (ptr \<times> signal_info_s) list" where
  "infos q w = sv_elems (signalInfos (host_queues w q))"

definition tracked :: "ptr \<Rightarrow> 'a host_world_scheme \<Rightarrow> ptr \<rightharpoonup> signal_info_s" where
  "tracked q w = map_of (infos q w)"

definition infos_ok :: "ptr \<Rightarrow> 'a host_world_scheme \<Rightarrow> bool" where
  "infos_ok q w \<longleftrightarrow>
     distinct (map fst (infos q w)) \<and> (\<forall>info \<in> set (infos q w). wait_count (snd info) \<noteq> 0)"

lemma find_if_replicate: "find_if p (replicate n x) = (if p x then 0 else n)"
  by (induction n) auto

lemma map_of_replicate_other: "a \<noteq> b \<Longrightarrow> map_of (replicate n (a, x)) b = None"
  by (induction n) auto

lemma find_if_le: "find_if p xs \<le> length xs"
  by (induction xs) auto

lemma map_of_find_if:
  "map_of xs g = (if find_if (\<lambda>x. fst x = g) xs = length xs then None
                  else Some (snd (xs ! find_if (\<lambda>x. fst x = g) xs)))"
  by (induction xs) auto

lemma find_if_fst:
  "find_if (\<lambda>x. fst x = g) xs < length xs \<Longrightarrow> fst (xs ! find_if (\<lambda>x. fst x = g) xs) = g"
  by (induction xs) auto

lemma map_of_update_found:
  "find_if (\<lambda>x. fst x = g) xs < length xs \<Longrightarrow>
     map_of (xs[find_if (\<lambda>x. fst x = g) xs := (g, v)]) = (map_of xs)(g \<mapsto> v)"
  by (induction xs) (auto simp: fun_upd_twist)

lemma map_fst_update_found:
  "map fst (xs[find_if (\<lambda>x. fst x = g) xs := (g, v)]) = map fst xs"
  by (induction xs) auto

lemma map_of_erase_found:
  assumes "distinct (map fst xs)"
  shows "map_of (take (find_if (\<lambda>x. fst x = g) xs) xs @ drop (Suc (find_if (\<lambda>x. fst x = g) xs)) xs)
           = (map_of xs)(g := None)"
  using assms
proof (induction xs)
  case (Cons x xs)
  then show ?case
    by (auto simp: fun_upd_twist fun_eq_iff map_of_eq_None_iff)
qed simp

lemma distinct_erase: "distinct (map fst xs) \<Longrightarrow> distinct (map fst (take i xs @ drop (Suc i) xs))"
  by (auto simp: take_map [symmetric] drop_map [symmetric] set_take_disj_set_drop_if_distinct)

lemma tracked_wait_count: "infos_ok q w \<Longrightarrow> tracked q w g = Some si \<Longrightarrow> wait_count si \<noteq> 0"
  unfolding infos_ok_def tracked_def by (auto dest: map_of_SomeD)

section \<open>What the scheduler leaves alone\<close>

definition sched_frame :: "'a host_world_scheme \<Rightarrow> 'a host_world_scheme \<Rightarrow> bool" where
  "sched_frame w w' \<longleftrightarrow>
     command_buffers w' = command_buffers w \<and> semaphores w' = semaphores w \<and>
     host_semaphores w' = host_semaphores w \<and> host_command_buffers w' = host_command_buffers w \<and>
     (\<forall>d. device_queue (host_devices w' d) = device_queue (host_devices w d)) \<and>
     cells w' = cells w \<and> mem w' = mem w \<and> live_blocks w' = live_blocks w"

lemma sched_frame_refl [simp]: "sched_frame w w"
  by (simp add: sched_frame_def)

lemma sched_frame_trans [trans]: "sched_frame w w1 \<Longrightarrow> sched_frame w1 w2 \<Longrightarrow> sched_frame w w2"
  by (simp add: sched_frame_def)

lemma enqueue_spec:
  assumes "pool_of_ok d w" and "length (queued d w) < 4095"
  shows "\<exists>w'. enqueue d item w = Some w' \<and> pool_of_ok d w' \<and> queued d w' = queued d w @ [item] \<and>
           host_queues w' = host_queues w \<and> sched_frame w w'"
proof -
  have ok: "pool_of_ok d (enqueue_begin item w)" and q: "queued d (enqueue_begin item w) = queued d w"
    using assms(1) by (simp_all add: pool_of_ok_def queued_def)
  from enqueue_commit_spec [OF ok, of item] assms(2) q
  obtain w' where w': "enqueue_commit d item (enqueue_begin item w) = Some w'"
    "queued d w' = queued d w @ [item]" "pool_of_ok d w'"
    by (auto split: option.splits)
  moreover have "host_queues w' = host_queues w \<and> sched_frame w w'"
    using w'(1) by (auto simp: enqueue_commit_def enqueue_begin_def host_setters sched_frame_def Let_def
        split: if_splits)
  ultimately show ?thesis
    by (auto simp: enqueue_def)
qed

definition notified :: "ptr \<Rightarrow> signal_info_s \<Rightarrow> signal_info_s option" where
  "notified g si = (if wait_count si = 1 then None else Some (si\<lparr>wait_count := wait_count si - 1\<rparr>))"

lemma signalCompleted_untracked: "tracked q w g = None \<Longrightarrow> signalCompleted q g terminate w = Some w"
  by (simp add: signalCompleted_def tracked_def infos_def map_of_find_if Let_def split: if_splits)

lemma signalCompleted_spec:
  assumes ok: "pool_of_ok d w" "infos_ok q w" and d: "command_buffer_device (command_buffers w g) = d"
    and space: "length (queued d w) < 4095" and si: "tracked q w g = Some si"
  shows "\<exists>w'. signalCompleted q g False w = Some w' \<and> pool_of_ok d w' \<and> infos_ok q w' \<and>
           tracked q w' = (tracked q w)(g := notified g si) \<and>
           queued d w' = queued d w
             @ (if wait_count si = 1 then [process_item q g (signal_fence si)] else []) \<and>
           sched_frame w w'"
proof -
  let ?xs = "infos q w"
  let ?i = "find_if (\<lambda>x. fst x = g) ?xs"
  have i: "?i < length ?xs" and snd: "snd (?xs ! ?i) = si"
    using si find_if_le [of "\<lambda>x. fst x = g" ?xs]
    by (auto simp: tracked_def map_of_find_if split: if_splits)
  let ?ys = "?xs[?i := (g, si\<lparr>wait_count := wait_count si - 1\<rparr>)]"
  let ?v = "(signalInfos (host_queues w q))\<lparr>sv_elems := ?ys\<rparr>"
  let ?w1 = "set_host_queue q \<lparr>signalInfos = ?v\<rparr> w"
  have w1: "pool_of_ok d ?w1" "queued d ?w1 = queued d w" "infos q ?w1 = ?ys" "sched_frame w ?w1"
    using ok by (simp_all add: pool_of_ok_def queued_def infos_def set_host_queue_def sched_frame_def)
  have dist: "distinct (map fst ?xs)"
    using ok by (simp add: infos_ok_def)
  show ?thesis
  proof (cases "wait_count si = 1")
    case False
    then have "signalCompleted q g False w = Some ?w1"
      using i snd by (simp add: signalCompleted_def infos_def Let_def)
    moreover have "infos_ok q ?w1"
      using ok(2) False dist i
      by (auto simp: infos_ok_def w1 map_fst_update_found dest!: set_update_subset_insert [THEN subsetD])
    moreover have "tracked q ?w1 = (tracked q w)(g := notified g si)"
      using False i by (simp add: tracked_def w1 map_of_update_found notified_def)
    ultimately show ?thesis
      using False w1 by auto
  next
    case True
    let ?item = "process_item q g (signal_fence si)"
    obtain w2 where w2: "enqueue d ?item ?w1 = Some w2" "pool_of_ok d w2"
      "queued d w2 = queued d w @ [?item]" "host_queues w2 = host_queues ?w1" "sched_frame ?w1 w2"
      using enqueue_spec [of d ?w1 ?item] w1 space by auto
    let ?zs = "take ?i ?xs @ drop (Suc ?i) ?xs"
    let ?w3 = "set_host_queue q
      \<lparr>signalInfos = (signalInfos (host_queues w q))\<lparr>sv_elems := ?zs\<rparr>\<rparr> w2"
    have "signalCompleted q g False w = Some ?w3"
      using i snd True d w2 
      by (simp add: signalCompleted_def infos_def Let_def sv_erase_def set_host_queue_def)
    moreover have w3: "infos q ?w3 = ?zs" "pool_of_ok d ?w3" "queued d ?w3 = queued d w2"
      "sched_frame w ?w3"
      using w2 sched_frame_trans [OF w1(4) w2(5)]
      by (simp_all add: infos_def set_host_queue_def pool_of_ok_def queued_def sched_frame_def)
    moreover have "infos_ok q ?w3"
      using ok(2) distinct_erase [OF dist, of ?i]
      by (auto simp: infos_ok_def w3 dest: in_set_takeD in_set_dropD)
    moreover have "tracked q ?w3 = (tracked q w)(g := notified g si)"
      using True map_of_erase_found [OF dist, of g] by (simp add: tracked_def w3 notified_def)
    ultimately show ?thesis
      using True w2(3) by auto
  qed
qed

text \<open>What is left of a tracking entry after \<open>n\<close> successful signals.\<close>

definition after_signals :: "nat \<Rightarrow> signal_info_s \<Rightarrow> signal_info_s option" where
  "after_signals n si =
     (if unat (wait_count si) \<le> n then None
      else Some (si\<lparr>wait_count := wait_count si - of_nat n\<rparr>))"

lemma after_signals_0: "wait_count si \<noteq> 0 \<Longrightarrow> after_signals 0 si = Some si"
  by (simp add: after_signals_def unat_eq_0)

lemma after_signals_Suc:
  assumes "wait_count si \<noteq> 0"
  shows "after_signals (Suc n) si = Option.bind (notified g si) (after_signals n)"
proof (cases "wait_count si = 1")
  case True
  then show ?thesis
    by (simp add: after_signals_def notified_def)
next
  case False
  then show ?thesis
    using assms by (auto simp: after_signals_def notified_def unat_minus_1)
qed

lemma signal_groups_spec:
  assumes "pool_of_ok d w" and "infos_ok q w"
    and "\<forall>g \<in> set gs. command_buffer_device (command_buffers w g) = d"
    and "length (queued d w) + length gs \<le> 4095"
  shows "\<exists>w' ready. signal_groups q False gs w = Some w' \<and> pool_of_ok d w' \<and> infos_ok q w' \<and>
     sched_frame w w' \<and> distinct ready \<and>
     set ready = {g. \<exists>si. tracked q w g = Some si \<and> unat (wait_count si) \<le> count_list gs g} \<and>
     queued d w' = queued d w
       @ map (\<lambda>g. process_item q g (signal_fence (the (tracked q w g)))) ready \<and>
     tracked q w' = (\<lambda>g. Option.bind (tracked q w g) (after_signals (count_list gs g)))"
  using assms
proof (induction gs arbitrary: w)
  case Nil
  have "tracked q w = (\<lambda>g. Option.bind (tracked q w g) (after_signals 0))"
  proof
    show "tracked q w g = Option.bind (tracked q w g) (after_signals 0)" for g
      using tracked_wait_count [OF Nil.prems(2)]
      by (cases "tracked q w g") (simp_all add: after_signals_0)
  qed
  moreover have "{g. \<exists>si. tracked q w g = Some si \<and> unat (wait_count si) \<le> 0} = {}"
    using tracked_wait_count [OF Nil.prems(2)] by (auto simp: unat_eq_0)
  ultimately show ?case
    using Nil.prems by (intro exI [of _ w] exI [of _ "[]"]) auto
next
  case (Cons g gs)
  show ?case
  proof (cases "tracked q w g")
    case None
    obtain w' ready where *: "signal_groups q False gs w = Some w'" "pool_of_ok d w'" "infos_ok q w'"
      "sched_frame w w'" "distinct ready"
      "set ready = {g. \<exists>si. tracked q w g = Some si \<and> unat (wait_count si) \<le> count_list gs g}"
      "queued d w' = queued d w
         @ map (\<lambda>g. process_item q g (signal_fence (the (tracked q w g)))) ready"
      "tracked q w' = (\<lambda>g. Option.bind (tracked q w g) (after_signals (count_list gs g)))"
      using Cons.IH [of w] Cons.prems by auto
    moreover have "signal_groups q False (g # gs) w = Some w'"
      using * None by (simp add: signalCompleted_untracked)
    moreover have "(\<lambda>g. Option.bind (tracked q w g) (after_signals (count_list gs g)))
        = (\<lambda>h. Option.bind (tracked q w h) (after_signals (count_list (g # gs) h)))"
      using None by (auto simp: fun_eq_iff)
    moreover have "{g. \<exists>si. tracked q w g = Some si \<and> unat (wait_count si) \<le> count_list gs g}
        = {h. \<exists>si. tracked q w h = Some si \<and> unat (wait_count si) \<le> count_list (g # gs) h}"
      using None by auto
    ultimately show ?thesis
      by (intro exI [of _ w'] exI [of _ ready]) simp
  next
    case (Some si)
    obtain w1 where w1: "signalCompleted q g False w = Some w1" "pool_of_ok d w1" "infos_ok q w1"
      "tracked q w1 = (tracked q w)(g := notified g si)"
      "queued d w1 = queued d w
         @ (if wait_count si = 1 then [process_item q g (signal_fence si)] else [])"
      "sched_frame w w1"
      using signalCompleted_spec [of d w q g si] Cons.prems Some by auto
    have cb: "\<forall>g \<in> set gs. command_buffer_device (command_buffers w1 g) = d"
      using Cons.prems(3) w1(6) by (simp add: sched_frame_def)
    have space: "length (queued d w1) + length gs \<le> 4095"
      using Cons.prems(4) by (simp add: w1(5))
    obtain w' ready where *: "signal_groups q False gs w1 = Some w'" "pool_of_ok d w'" "infos_ok q w'"
      "sched_frame w1 w'" "distinct ready"
      "set ready = {g. \<exists>si. tracked q w1 g = Some si \<and> unat (wait_count si) \<le> count_list gs g}"
      "queued d w' = queued d w1
         @ map (\<lambda>g. process_item q g (signal_fence (the (tracked q w1 g)))) ready"
      "tracked q w' = (\<lambda>g. Option.bind (tracked q w1 g) (after_signals (count_list gs g)))"
      using Cons.IH [OF w1(2,3) cb space] by auto
    let ?ready = "if wait_count si = 1 then g # ready else ready"
    have nz: "wait_count si \<noteq> 0"
      using tracked_wait_count [OF Cons.prems(2) Some] .
    have le: "unat (wait_count si - 1) \<le> n \<longleftrightarrow> unat (wait_count si) \<le> Suc n" for n
      using nz by (auto simp: unat_minus_1)
    have out: "wait_count si = 1 \<Longrightarrow> g \<notin> set ready"
      by (simp add: *(6) w1(4) notified_def)
    have set: "set ?ready
        = {h. \<exists>si. tracked q w h = Some si \<and> unat (wait_count si) \<le> count_list (g # gs) h}"
      using Some by (auto simp: *(6) w1(4) notified_def le split: if_splits)
    have fence: "signal_fence (the (tracked q w1 h)) = signal_fence (the (tracked q w h))"
      if "h \<in> set ready" for h
      using that Some by (auto simp: *(6) w1(4) notified_def split: if_splits)
    have queued: "queued d w' = queued d w
        @ map (\<lambda>g. process_item q g (signal_fence (the (tracked q w g)))) ?ready"
      using Some fence by (simp add: *(7) w1(5))
    have tracked: "tracked q w' = (\<lambda>h. Option.bind (tracked q w h) (after_signals (count_list (g # gs) h)))"
      using Some after_signals_Suc [OF nz, of _ g] by (auto simp: *(8) w1(4) fun_eq_iff)
    have "signal_groups q False (g # gs) w = Some w'"
      using * w1 by simp
    moreover have "distinct ?ready"
      using out *(5) by simp
    ultimately show ?thesis
      using * sched_frame_trans [OF w1(6) *(4)] set queued tracked
      by (intro exI [of _ w'] exI [of _ ?ready]) simp
  qed
qed

section \<open>Interleavings of dispatches and signals\<close>

text \<open>
  A configuration is the world and, for each command buffer, the multiset of semaphores it
  still waits for. A command buffer is dispatched again only after it has started; a
  semaphore is signalled only once and reset only when nobody waits for it; the vectors
  have room for what is appended. \<open>Sched_other\<close> is anything that leaves the state of the
  scheduler alone, such as the work of the threads of the pool.
\<close>

type_synonym 'a sched_config = "'a host_world_scheme \<times> (ptr \<Rightarrow> ptr multiset)"

definition waiting :: "ptr \<Rightarrow> 'a host_world_scheme \<Rightarrow> ptr list" where
  "waiting s w = sv_elems (waitingGroups (host_semaphores w s))"

definition succeeded :: "'a host_world_scheme \<Rightarrow> ptr \<Rightarrow> bool" where
  "succeeded w s \<longleftrightarrow> signalled (host_semaphores w s) \<and> \<not> failed (host_semaphores w s)"

definition one_device :: "ptr \<Rightarrow> ptr \<Rightarrow> 'a host_world_scheme \<Rightarrow> bool" where
  "one_device d q w \<longleftrightarrow>
     (\<forall>g. command_buffer_device (command_buffers w g) = d) \<and> (\<forall>s. semaphore_queue s w = q)"

definition room :: "ptr \<Rightarrow> ptr \<Rightarrow> ptr list \<Rightarrow> 'a host_world_scheme \<Rightarrow> bool" where
  "room d q ss w \<longleftrightarrow>
     length (infos q w) < sv_capacity (signalInfos (host_queues w q)) \<and>
     (\<forall>s \<in> set ss. length (waiting s w) + length ss
        \<le> sv_capacity (waitingGroups (host_semaphores w s))) \<and>
     length (queued d w) + length ss < 4095"

inductive sched_step :: "ptr \<Rightarrow> ptr \<Rightarrow> 'a sched_config \<Rightarrow> 'a sched_config \<Rightarrow> bool" for d q where
  Sched_dispatch: "tracked q w g = None \<Longrightarrow> room d q (handle_list w waits n) w \<Longrightarrow>
     hostDispatch q g fence waits n sems k fn data w = Some (mux_success, w') \<Longrightarrow>
     sched_step d q (w, W)
       (w', W(g := mset (filter (\<lambda>s. \<not> succeeded w s) (handle_list w waits n))))"
| Sched_signal: "\<not> signalled (host_semaphores w s) \<Longrightarrow>
     length (queued d w) + length (waiting s w) \<le> 4095 \<Longrightarrow>
     semaphore_signal s False w = Some w' \<Longrightarrow>
     sched_step d q (w, W) (w', \<lambda>g. filter_mset (\<lambda>x. x \<noteq> s) (W g))"
| Sched_fail: "\<not> signalled (host_semaphores w s) \<Longrightarrow>
     length (queued d w) + length (waiting s w) \<le> 4095 \<Longrightarrow>
     semaphore_signal s True w = Some w' \<Longrightarrow> sched_step d q (w, W) (w', W)"
| Sched_reset: "(\<forall>g. s \<notin># W g) \<Longrightarrow> sched_step d q (w, W) (semaphore_reset s w, W)"
| Sched_other: "pool_of_ok d w' \<Longrightarrow> host_queues w' = host_queues w \<Longrightarrow>
     command_buffers w' = command_buffers w \<Longrightarrow> host_semaphores w' = host_semaphores w \<Longrightarrow>
     (\<forall>s. semaphore_queue s w' = semaphore_queue s w) \<Longrightarrow> sched_step d q (w, W) (w', W)"

inductive sched_reach :: "ptr \<Rightarrow> ptr \<Rightarrow> 'a sched_config \<Rightarrow> 'a sched_config \<Rightarrow> bool" for d q where
  Sched_refl: "sched_reach d q c c"
| Sched_step: "sched_reach d q c e \<Longrightarrow> sched_step d q e f \<Longrightarrow> sched_reach d q c f"

text \<open>The invariant while \<open>r\<close> waits of the group \<open>g\<close> are not yet registered.\<close>

definition sched_inv_at :: "ptr \<Rightarrow> ptr \<Rightarrow> ptr \<Rightarrow> nat \<Rightarrow> 'a sched_config \<Rightarrow> bool" where
  "sched_inv_at d q g r c \<longleftrightarrow> (case c of (w, W) \<Rightarrow>
     pool_of_ok d w \<and> infos_ok q w \<and> one_device d q w \<and>
     (\<forall>h si. tracked q w h = Some si \<longrightarrow>
        unat (wait_count si) = size (W h) + (if h = g then r else 0)) \<and>
     (\<forall>h. tracked q w h = None \<longrightarrow> W h = {#} \<and> (h = g \<longrightarrow> r = 0)) \<and>
     (\<forall>s h. \<not> signalled (host_semaphores w s) \<longrightarrow> count_list (waiting s w) h = count (W h) s) \<and>
     (\<forall>s h. succeeded w s \<longrightarrow> s \<notin># W h))"

definition sched_inv :: "ptr \<Rightarrow> ptr \<Rightarrow> 'a sched_config \<Rightarrow> bool" where
  "sched_inv d q c \<longleftrightarrow> sched_inv_at d q 0 0 c"

lemma sched_inv_at_0: "sched_inv_at d q g 0 c = sched_inv d q c"
  by (simp add: sched_inv_def sched_inv_at_def split: prod.splits)

lemma sched_frameD:
  assumes "sched_frame w w'"
  shows "command_buffers w' = command_buffers w" "host_semaphores w' = host_semaphores w"
    "waiting s w' = waiting s w" "succeeded w' s = succeeded w s"
    "semaphore_queue s w' = semaphore_queue s w" "one_device d q w' = one_device d q w"
    "cells w' = cells w"
  using assms by (simp_all add: sched_frame_def waiting_def succeeded_def semaphore_queue_def
      one_device_def)

lemma set_host_semaphore_simps [simp]:
  "host_semaphores (set_host_semaphore s x w) = (host_semaphores w)(s := x)"
  "pool_of_ok d (set_host_semaphore s x w) = pool_of_ok d w"
  "queued d (set_host_semaphore s x w) = queued d w"
  "infos q (set_host_semaphore s x w) = infos q w"
  "tracked q (set_host_semaphore s x w) = tracked q w"
  "infos_ok q (set_host_semaphore s x w) = infos_ok q w"
  "semaphore_queue t (set_host_semaphore s x w) = semaphore_queue t w"
  "one_device d q (set_host_semaphore s x w) = one_device d q w"
  "command_buffers (set_host_semaphore s x w) = command_buffers w"
  "host_queues (set_host_semaphore s x w) = host_queues w"
  "cells (set_host_semaphore s x w) = cells w"
  by (simp_all add: set_host_semaphore_def pool_of_ok_def queued_def infos_def tracked_def
      infos_ok_def semaphore_queue_def one_device_def)

lemma waiting_set_host_semaphore [simp]:
  "waiting t (set_host_semaphore s x w)
     = (if t = s then sv_elems (waitingGroups x) else waiting t w)"
  by (simp add: waiting_def)

lemma succeeded_set_host_semaphore [simp]:
  "succeeded (set_host_semaphore s x w) t
     = (if t = s then signalled x \<and> \<not> failed x else succeeded w t)"
  by (simp add: succeeded_def)

lemma after_signals_unat:
  assumes "after_signals n si = Some si'"
  shows "unat (wait_count si') = unat (wait_count si) - n"
proof -
  have n: "n < unat (wait_count si)"
    using assms by (auto simp: after_signals_def split: if_splits)
  then have "n < 2 ^ 64"
    using unsigned_less [of "wait_count si", where 'a = nat] by simp
  then have "unat (of_nat n :: u64) = n"
    by (simp add: unat_of_nat)
  then show ?thesis
    using assms n by (auto simp: after_signals_def unat_minus_no_wrap)
qed

lemma sched_invD:
  assumes "sched_inv d q (w, W)"
  shows "pool_of_ok d w" "infos_ok q w" "one_device d q w"
    "tracked q w g = Some si \<Longrightarrow> unat (wait_count si) = size (W g)"
    "tracked q w g = None \<Longrightarrow> W g = {#}"
    "\<not> signalled (host_semaphores w s) \<Longrightarrow> count_list (waiting s w) g = count (W g) s"
    "succeeded w s \<Longrightarrow> s \<notin># W g"
  using assms by (auto simp: sched_inv_def sched_inv_at_def split: if_splits)

lemma sched_invI:
  assumes "pool_of_ok d w" "infos_ok q w" "one_device d q w"
    and "\<And>g si. tracked q w g = Some si \<Longrightarrow> unat (wait_count si) = size (W g)"
    and "\<And>g. tracked q w g = None \<Longrightarrow> W g = {#}"
    and "\<And>s g. \<not> signalled (host_semaphores w s) \<Longrightarrow> count_list (waiting s w) g = count (W g) s"
    and "\<And>s g. succeeded w s \<Longrightarrow> s \<notin># W g"
  shows "sched_inv d q (w, W)"
  using assms by (simp add: sched_inv_def sched_inv_at_def)

lemma sched_inv_tracked:
  assumes "sched_inv d q (w, W)"
  shows "tracked q w g = None \<longleftrightarrow> W g = {#}"
  using sched_invD(4,5) [OF assms, of g] tracked_wait_count [OF sched_invD(2) [OF assms], of g]
  by (cases "tracked q w g") (auto simp: unat_eq_0)

lemma size_other_than: "size {#x \<in># M. x \<noteq> s#} + count M s = size M"
  by (induction M) auto

lemma only_element: "size M \<le> count M s \<longleftrightarrow> set_mset M \<subseteq> {s}"
proof -
  have "size {#x \<in># M. x \<noteq> s#} = 0 \<longleftrightarrow> set_mset M \<subseteq> {s}"
    by (induction M) auto
  then show ?thesis
    using size_other_than [of s M] by linarith
qed

text \<open>A successful signal: which groups start, and what is left of the waits.\<close>

lemma semaphore_signal_spec:
  assumes inv: "sched_inv d q (w, W)" and s: "\<not> signalled (host_semaphores w s)"
    and space: "length (queued d w) + length (waiting s w) \<le> 4095"
  shows "\<exists>w' ready. semaphore_signal s False w = Some w' \<and> distinct ready \<and>
     set ready = {g. W g \<noteq> {#} \<and> set_mset (W g) \<subseteq> {s}} \<and>
     queued d w' = queued d w
       @ map (\<lambda>g. process_item q g (signal_fence (the (tracked q w g)))) ready \<and>
     sched_inv d q (w', \<lambda>g. filter_mset (\<lambda>x. x \<noteq> s) (W g))"
proof -
  let ?w1 = "set_host_semaphore s ((host_semaphores w s)\<lparr>signalled := True, failed := False\<rparr>) w"
  have dev: "semaphore_queue s w = q" "\<forall>g. command_buffer_device (command_buffers w g) = d"
    using sched_invD(3) [OF inv] by (simp_all add: one_device_def)
  have pre: "pool_of_ok d ?w1" "infos_ok q ?w1"
    "\<forall>g \<in> set (waiting s w). command_buffer_device (command_buffers ?w1 g) = d"
    "length (queued d ?w1) + length (waiting s w) \<le> 4095"
    using sched_invD(1,2) [OF inv] dev space by simp_all
  obtain w' ready where *: "signal_groups q False (waiting s w) ?w1 = Some w'" "pool_of_ok d w'"
    "infos_ok q w'" "sched_frame ?w1 w'" "distinct ready"
    "set ready = {g. \<exists>si. tracked q w g = Some si \<and> unat (wait_count si) \<le> count_list (waiting s w) g}"
    "queued d w' = queued d w
       @ map (\<lambda>g. process_item q g (signal_fence (the (tracked q w g)))) ready"
    "tracked q w' = (\<lambda>g. Option.bind (tracked q w g) (after_signals (count_list (waiting s w) g)))"
    using signal_groups_spec [OF pre] by auto
  have call: "semaphore_signal s False w = Some w'"
    using * dev by (simp add: semaphore_signal_def waiting_def Let_def)
  have cnt: "count_list (waiting s w) g = count (W g) s" for g
    using sched_invD(6) [OF inv s] .
  have left: "size {#x \<in># W g. x \<noteq> s#} = size (W g) - count (W g) s" for g
    using size_other_than [of s "W g"] by simp
  have "(\<exists>si. tracked q w g = Some si \<and> unat (wait_count si) \<le> count (W g) s)
      \<longleftrightarrow> W g \<noteq> {#} \<and> set_mset (W g) \<subseteq> {s}" for g
    using sched_inv_tracked [OF inv, of g] sched_invD(4) [OF inv, of g]
    by (cases "tracked q w g") (simp_all add: only_element)
  then have "set ready = {g. W g \<noteq> {#} \<and> set_mset (W g) \<subseteq> {s}}"
    by (simp add: *(6) cnt)
  moreover have "sched_inv d q (w', \<lambda>g. filter_mset (\<lambda>x. x \<noteq> s) (W g))"
  proof -
    note fr = sched_frameD [OF *(4)]
    have a: "unat (wait_count si) = size {#x \<in># W g. x \<noteq> s#}"
      if si: "tracked q w' g = Some si" for g si
    proof -
      from si obtain y where y: "tracked q w g = Some y" "after_signals (count (W g) s) y = Some si"
        by (auto simp: *(8) bind_eq_Some_conv cnt)
      show ?thesis
        using after_signals_unat [OF y(2)] sched_invD(4) [OF inv y(1)] left [of g] by simp
    qed
    have b: "{#x \<in># W g. x \<noteq> s#} = {#}" if "tracked q w' g = None" for g
    proof (cases "tracked q w g")
      case (Some si)
      then have "size (W g) \<le> count (W g) s"
        using that sched_invD(4) [OF inv Some] by (auto simp: *(8) after_signals_def cnt split: if_splits)
      then show ?thesis
        using left [of g] by simp
    qed (use sched_invD(5) [OF inv] in simp)
    have c: "count_list (waiting t w') g = count {#x \<in># W g. x \<noteq> s#} t"
      if "\<not> signalled (host_semaphores w' t)" for t g
      using that sched_invD(6) [OF inv, of t g] by (auto simp: fr split: if_splits)
    have e: "t \<notin># {#x \<in># W g. x \<noteq> s#}" if "succeeded w' t" for t g
      using that sched_invD(7) [OF inv, of t g] by (auto simp: fr split: if_splits)
    have base: "pool_of_ok d w'" "infos_ok q w'" "one_device d q w'"
      using *(2,3) sched_invD(3) [OF inv] by (simp_all add: fr)
    show ?thesis
      by (rule sched_invI) (use a b c e base in auto)
  qed
  ultimately show ?thesis
    using call *(5,7) by blast
qed

lemma signal_groups_fail_spec:
  assumes "pool_of_ok d w" and "\<forall>g \<in> set gs. command_buffer_device (command_buffers w g) = d"
    and "length (queued d w) + length gs \<le> 4095"
  shows "\<exists>w'. signal_groups q True gs w = Some w' \<and> pool_of_ok d w' \<and>
     host_queues w' = host_queues w \<and> sched_frame w w' \<and>
     queued d w' = queued d w @ map (\<lambda>g. cleanup_item q g (signal_fence (the (tracked q w g))))
       (filter (\<lambda>g. tracked q w g \<noteq> None) gs)"
  using assms
proof (induction gs arbitrary: w)
  case (Cons g gs)
  show ?case
  proof (cases "tracked q w g")
    case None
    then show ?thesis
      using Cons by (simp add: signalCompleted_untracked)
  next
    case (Some si)
    let ?item = "cleanup_item q g (signal_fence si)"
    obtain w1 where w1: "enqueue d ?item w = Some w1" "pool_of_ok d w1"
      "queued d w1 = queued d w @ [?item]" "host_queues w1 = host_queues w" "sched_frame w w1"
      using enqueue_spec [of d w ?item] Cons.prems by auto
    have call: "signalCompleted q g True w = Some w1"
      using Some w1(1) Cons.prems(2)
      by (auto simp: signalCompleted_def tracked_def infos_def map_of_find_if Let_def split: if_splits)
    have same: "tracked q w1 = tracked q w"
      by (simp add: tracked_def infos_def w1)
    have "\<forall>g \<in> set gs. command_buffer_device (command_buffers w1 g) = d"
      using Cons.prems(2) sched_frameD(1) [OF w1(5)] by simp
    then obtain w' where "signal_groups q True gs w1 = Some w'" "pool_of_ok d w'"
      "host_queues w' = host_queues w1" "sched_frame w1 w'"
      "queued d w' = queued d w1 @ map (\<lambda>g. cleanup_item q g (signal_fence (the (tracked q w g))))
         (filter (\<lambda>g. tracked q w g \<noteq> None) gs)"
      using Cons.IH [of w1] w1 Cons.prems(3) same by auto
    then show ?thesis
      using call w1 Some sched_frame_trans [OF w1(5)] by auto
  qed
qed simp

lemma same_infos:
  assumes "host_queues w' = host_queues w"
  shows "infos q w' = infos q w" "tracked q w' = tracked q w" "infos_ok q w' = infos_ok q w"
  using assms by (simp_all add: infos_def tracked_def infos_ok_def)

lemma sched_inv_fail:
  assumes inv: "sched_inv d q (w, W)" and s: "\<not> signalled (host_semaphores w s)"
    and space: "length (queued d w) + length (waiting s w) \<le> 4095"
    and call: "semaphore_signal s True w = Some w'"
  shows "sched_inv d q (w', W)"
proof -
  let ?w1 = "set_host_semaphore s ((host_semaphores w s)\<lparr>signalled := True, failed := True\<rparr>) w"
  have dev: "semaphore_queue s w = q" "\<forall>g. command_buffer_device (command_buffers w g) = d"
    using sched_invD(3) [OF inv] by (simp_all add: one_device_def)
  have "pool_of_ok d ?w1" and "\<forall>g \<in> set (waiting s w). command_buffer_device (command_buffers ?w1 g) = d"
    and "length (queued d ?w1) + length (waiting s w) \<le> 4095"
    using sched_invD(1) [OF inv] dev space by simp_all
  from signal_groups_fail_spec [OF this, of q] call dev
  have *: "pool_of_ok d w'" "host_queues w' = host_queues w" "sched_frame ?w1 w'"
    by (auto simp: semaphore_signal_def waiting_def Let_def)
  note fr = sched_frameD [OF *(3)] same_infos [OF *(2)]
  show ?thesis
    by (rule sched_invI)
       (use * sched_invD [OF inv] in \<open>auto simp: fr split: if_splits\<close>)
qed

lemma sched_inv_reset:
  assumes inv: "sched_inv d q (w, W)" and s: "\<forall>g. s \<notin># W g"
  shows "sched_inv d q (semaphore_reset s w, W)"
  by (rule sched_invI)
     (use sched_invD [OF inv] s in
       \<open>auto simp: semaphore_reset_def sv_clear_def not_in_iff split: if_splits\<close>)

lemma sched_inv_other:
  assumes inv: "sched_inv d q (w, W)" and "pool_of_ok d w'" and "host_queues w' = host_queues w"
    and "command_buffers w' = command_buffers w" and "host_semaphores w' = host_semaphores w"
    and "\<forall>s. semaphore_queue s w' = semaphore_queue s w"
  shows "sched_inv d q (w', W)"
  by (rule sched_invI)
     (use sched_invD [OF inv] assms in
       \<open>auto simp: same_infos [OF assms(3)] one_device_def waiting_def succeeded_def\<close>)

definition is_process :: "thread_pool_work_item_s \<Rightarrow> bool" where
  "is_process item \<longleftrightarrow> item_function item = Fn_threadPoolProcessCommands"

lemma is_process_simps [simp]:
  "is_process (process_item q g f)" "\<not> is_process (cleanup_item q g f)"
  by (simp_all add: is_process_def group_item_def)

lemma sched_inv_atD:
  assumes "sched_inv_at d q g r (w, W)"
  shows "pool_of_ok d w" "infos_ok q w" "one_device d q w"
    "tracked q w h = Some si \<Longrightarrow> unat (wait_count si) = size (W h) + (if h = g then r else 0)"
    "tracked q w h = None \<Longrightarrow> W h = {#} \<and> (h = g \<longrightarrow> r = 0)"
    "\<not> signalled (host_semaphores w s) \<Longrightarrow> count_list (waiting s w) h = count (W h) s"
    "succeeded w s \<Longrightarrow> s \<notin># W h"
  using assms unfolding sched_inv_at_def by auto

lemma sched_inv_atI:
  assumes "pool_of_ok d w" "infos_ok q w" "one_device d q w"
    and "\<And>h si. tracked q w h = Some si \<Longrightarrow> unat (wait_count si) = size (W h) + (if h = g then r else 0)"
    and "\<And>h. tracked q w h = None \<Longrightarrow> W h = {#} \<and> (h = g \<longrightarrow> r = 0)"
    and "\<And>s h. \<not> signalled (host_semaphores w s) \<Longrightarrow> count_list (waiting s w) h = count (W h) s"
    and "\<And>s h. succeeded w s \<Longrightarrow> s \<notin># W h"
  shows "sched_inv_at d q g r (w, W)"
  using assms unfolding sched_inv_at_def by simp

text \<open>What one registration does, in the three states a semaphore can be in.\<close>

definition registered :: "ptr \<Rightarrow> ptr \<Rightarrow> ptr \<Rightarrow> nat \<Rightarrow> ptr \<Rightarrow> signal_info_s \<Rightarrow> 'a host_world_scheme \<Rightarrow> (ptr \<Rightarrow> ptr multiset)
    \<Rightarrow> 'a host_world_scheme \<Rightarrow> bool" where
  "registered d q g r s si w W w' \<longleftrightarrow>
     sched_inv_at d q g r (w', if succeeded w s then W else W(g := add_mset s (W g))) \<and>
     (\<forall>t. succeeded w' t = succeeded w t \<and>
        sv_capacity (waitingGroups (host_semaphores w' t))
          = sv_capacity (waitingGroups (host_semaphores w t)) \<and>
        length (waiting t w') \<le> Suc (length (waiting t w))) \<and>
     (\<forall>si'. tracked q w' g = Some si' \<longrightarrow> signal_fence si' = signal_fence si) \<and>
     (\<exists>extra. queued d w' = queued d w @ extra \<and> length extra \<le> 1 \<and>
        filter is_process extra
          = (if tracked q w' g = None then [process_item q g (signal_fence si)] else []))"

lemma addWait_succeeded:
  assumes inv: "sched_inv_at d q g (Suc r) (w, W)" and s: "succeeded w s"
    and space: "length (queued d w) < 4095" and si: "tracked q w g = Some si"
  shows "\<exists>w'. semaphore_addWait s g w = Some (mux_success, w') \<and> registered d q g r s si w W w'"
proof -
  note I = sched_inv_atD [OF inv]
  have dev: "semaphore_queue s w = q" "command_buffer_device (command_buffers w g) = d"
    using I(3) by (simp_all add: one_device_def)
  obtain w' where w': "signalCompleted q g False w = Some w'" "pool_of_ok d w'" "infos_ok q w'"
    "tracked q w' = (tracked q w)(g := notified g si)"
    "queued d w' = queued d w
       @ (if wait_count si = 1 then [process_item q g (signal_fence si)] else [])"
    "sched_frame w w'"
    using signalCompleted_spec [OF I(1,2) dev(2) space si] by auto
  note fr = sched_frameD [OF w'(6)]
  have cnt: "unat (wait_count si) = Suc (size (W g) + r)"
    using I(4) [OF si] by simp
  have one: "wait_count si = 1 \<longleftrightarrow> W g = {#} \<and> r = 0"
    using cnt word_unat_eq_iff [of "wait_count si" 1] by auto
  have nz: "wait_count si \<noteq> 0"
    using cnt by auto
  have inv': "sched_inv_at d q g r (w', W)"
  proof (rule sched_inv_atI)
    show "unat (wait_count x) = size (W h) + (if h = g then r else 0)" if "tracked q w' h = Some x" for h x
      using that I(4) [of h] cnt nz by (auto simp: w' notified_def unat_minus_1 split: if_splits)
    show "W h = {#} \<and> (h = g \<longrightarrow> r = 0)" if "tracked q w' h = None" for h
      using that I(5) [of h] one by (auto simp: w' notified_def split: if_splits)
  qed (use w' I in \<open>auto simp: fr\<close>)
  have "semaphore_addWait s g w = Some (mux_success, w')"
    using s w' dev by (simp add: semaphore_addWait_def succeeded_def)
  moreover have "registered d q g r s si w W w'"
    using inv' s w' by (simp add: registered_def fr notified_def)
  ultimately show ?thesis
    by blast
qed

lemma addWait_failed:
  assumes inv: "sched_inv_at d q g (Suc r) (w, W)"
    and s: "signalled (host_semaphores w s)" "failed (host_semaphores w s)"
    and space: "length (queued d w) < 4095" and si: "tracked q w g = Some si"
  shows "\<exists>w'. semaphore_addWait s g w = Some (mux_success, w') \<and> registered d q g r s si w W w'"
proof -
  note I = sched_inv_atD [OF inv]
  have dev: "semaphore_queue s w = q" "\<forall>h. command_buffer_device (command_buffers w h) = d"
    using I(3) by (simp_all add: one_device_def)
  obtain w' where w': "signal_groups q True [g] w = Some w'" "pool_of_ok d w'"
    "host_queues w' = host_queues w" "sched_frame w w'"
    "queued d w' = queued d w @ [cleanup_item q g (signal_fence si)]"
    using signal_groups_fail_spec [of d w "[g]" q] I(1) dev space si by auto
  note fr = sched_frameD [OF w'(4)] same_infos [OF w'(3)]
  have "sched_inv_at d q g r (w', W(g := add_mset s (W g)))"
  proof (rule sched_inv_atI)
    show "unat (wait_count x) = size ((W(g := add_mset s (W g))) h) + (if h = g then r else 0)"
      if "tracked q w' h = Some x" for h x
      using that I(4) [of h] by (auto simp: fr)
    show "(W(g := add_mset s (W g))) h = {#} \<and> (h = g \<longrightarrow> r = 0)" if "tracked q w' h = None" for h
      using that I(5) [of h] si by (auto simp: fr)
    show "count_list (waiting t w') h = count ((W(g := add_mset s (W g))) h) t"
      if "\<not> signalled (host_semaphores w' t)" for t h
      using that I(6) [of t h] s by (auto simp: fr)
    show "t \<notin># (W(g := add_mset s (W g))) h" if "succeeded w' t" for t h
      using that I(7) [of t h] s by (auto simp: fr succeeded_def)
  qed (use w' I in \<open>auto simp: fr\<close>)
  then have "registered d q g r s si w W w'"
    using s si w' by (simp add: registered_def fr succeeded_def)
  moreover have "semaphore_addWait s g w = Some (mux_success, w')"
    using s w'(1) dev by (auto simp: semaphore_addWait_def split: option.splits)
  ultimately show ?thesis
    by blast
qed

lemma addWait_unsignalled:
  assumes inv: "sched_inv_at d q g (Suc r) (w, W)" and s: "\<not> signalled (host_semaphores w s)"
    and space: "length (waiting s w) < sv_capacity (waitingGroups (host_semaphores w s))"
    and si: "tracked q w g = Some si"
  shows "\<exists>w'. semaphore_addWait s g w = Some (mux_success, w') \<and> registered d q g r s si w W w'"
proof -
  note I = sched_inv_atD [OF inv]
  let ?x = "(host_semaphores w s)\<lparr>waitingGroups :=
    (waitingGroups (host_semaphores w s))\<lparr>sv_elems := waiting s w @ [g]\<rparr>\<rparr>"
  let ?w' = "set_host_semaphore s ?x w"
  have "sched_inv_at d q g r (?w', W(g := add_mset s (W g)))"
  proof (rule sched_inv_atI)
    show "unat (wait_count x) = size ((W(g := add_mset s (W g))) h) + (if h = g then r else 0)"
      if "tracked q ?w' h = Some x" for h x
      using that I(4) [of h] by auto
    show "(W(g := add_mset s (W g))) h = {#} \<and> (h = g \<longrightarrow> r = 0)" if "tracked q ?w' h = None" for h
      using that I(5) [of h] si by auto
    show "count_list (waiting t ?w') h = count ((W(g := add_mset s (W g))) h) t"
      if "\<not> signalled (host_semaphores ?w' t)" for t h
      using that I(6) [of t h] s by (auto split: if_splits)
    show "t \<notin># (W(g := add_mset s (W g))) h" if "succeeded ?w' t" for t h
      using that I(7) [of t h] s by (auto simp: succeeded_def split: if_splits)
  qed (use I in auto)
  then have "registered d q g r s si w W ?w'"
    using s si by (auto simp: registered_def succeeded_def)
  moreover have "semaphore_addWait s g w = Some (mux_success, ?w')"
    using s space by (simp add: semaphore_addWait_def waiting_def sv_push_back_room)
  ultimately show ?thesis
    by blast
qed

lemma addWait_spec:
  assumes inv: "sched_inv_at d q g (Suc r) (w, W)" and si: "tracked q w g = Some si"
    and "length (waiting s w) < sv_capacity (waitingGroups (host_semaphores w s))"
    and "length (queued d w) < 4095"
  shows "\<exists>w'. semaphore_addWait s g w = Some (mux_success, w') \<and> registered d q g r s si w W w'"
proof (cases "signalled (host_semaphores w s)")
  case True
  then show ?thesis
    using assms addWait_succeeded [of d q g r w W s si] addWait_failed [of d q g r w W s si]
    by (cases "failed (host_semaphores w s)") (simp_all add: succeeded_def)
qed (use assms addWait_unsignalled in blast)

lemma add_waits_spec:
  assumes "sched_inv_at d q g (length ss) (w, W)" and "tracked q w g = Some si"
    and "\<forall>s \<in> set ss. length (waiting s w) + length ss
           \<le> sv_capacity (waitingGroups (host_semaphores w s))"
    and "length (queued d w) + length ss \<le> 4095"
  shows "\<exists>w' extra. add_waits g ss w = Some w' \<and>
     sched_inv d q (w', W(g := W g + mset (filter (\<lambda>s. \<not> succeeded w s) ss))) \<and>
     queued d w' = queued d w @ extra \<and>
     filter is_process extra
       = (if tracked q w' g = None then [process_item q g (signal_fence si)] else [])"
  using assms
proof (induction ss arbitrary: w W si)
  case Nil
  then show ?case
    by (simp add: sched_inv_at_0)
next
  case (Cons s ss)
  let ?W1 = "if succeeded w s then W else W(g := add_mset s (W g))"
  obtain w1 where w1: "semaphore_addWait s g w = Some (mux_success, w1)"
    and reg: "registered d q g (length ss) s si w W w1"
    using addWait_spec [of d q g "length ss" w W si s] Cons.prems by auto
  from reg obtain extra1 where *: "sched_inv_at d q g (length ss) (w1, ?W1)"
    "\<forall>t. succeeded w1 t = succeeded w t"
    "\<forall>t. sv_capacity (waitingGroups (host_semaphores w1 t))
           = sv_capacity (waitingGroups (host_semaphores w t))"
    "\<forall>t. length (waiting t w1) \<le> Suc (length (waiting t w))"
    "\<forall>si'. tracked q w1 g = Some si' \<longrightarrow> signal_fence si' = signal_fence si"
    "queued d w1 = queued d w @ extra1" "length extra1 \<le> 1"
    "filter is_process extra1
       = (if tracked q w1 g = None then [process_item q g (signal_fence si)] else [])"
    by (auto simp: registered_def)
  have W: "?W1(g := ?W1 g + mset (filter (\<lambda>s. \<not> succeeded w1 s) ss))
      = W(g := W g + mset (filter (\<lambda>s. \<not> succeeded w s) (s # ss)))"
    by (auto simp: fun_eq_iff *(2))
  show ?case
  proof (cases "tracked q w1 g")
    case None
    then have "ss = []"
      using sched_inv_atD(5) [OF *(1)] by auto
    have "?W1 = W(g := W g + mset (filter (\<lambda>s. \<not> succeeded w s) (s # ss)))"
      using W \<open>ss = []\<close> by simp
    then have "sched_inv d q (w1, W(g := W g + mset (filter (\<lambda>s. \<not> succeeded w s) (s # ss))))"
      using *(1) \<open>ss = []\<close> by (simp only: sched_inv_at_0 list.size)
    moreover have "add_waits g (s # ss) w = Some w1"
      using w1 \<open>ss = []\<close> by simp
    ultimately show ?thesis
      using *(6,8) None by (intro exI [of _ w1] exI [of _ extra1] conjI) (assumption | simp)+
  next
    case (Some si1)
    have cap: "\<forall>t \<in> set ss. length (waiting t w1) + length ss
        \<le> sv_capacity (waitingGroups (host_semaphores w1 t))"
    proof
      fix t assume "t \<in> set ss"
      then have "Suc (length (waiting t w)) + length ss
          \<le> sv_capacity (waitingGroups (host_semaphores w1 t))"
        using Cons.prems(3) *(3) by simp
      moreover have "length (waiting t w1) \<le> Suc (length (waiting t w))"
        using *(4) by blast
      ultimately show "length (waiting t w1) + length ss
          \<le> sv_capacity (waitingGroups (host_semaphores w1 t))"
        by linarith
    qed
    have space: "length (queued d w1) + length ss \<le> 4095"
      using Cons.prems(4) *(6,7) by simp
    obtain w' extra where **: "add_waits g ss w1 = Some w'"
      "sched_inv d q (w', ?W1(g := ?W1 g + mset (filter (\<lambda>s. \<not> succeeded w1 s) ss)))"
      "queued d w' = queued d w1 @ extra"
      "filter is_process extra
         = (if tracked q w' g = None then [process_item q g (signal_fence si1)] else [])"
      using Cons.IH [OF *(1) Some cap space] by blast
    show ?thesis
      using w1 ** *(5,6,8) Some unfolding W
      by (intro exI [of _ w'] exI [of _ "extra1 @ extra"] conjI) (assumption | simp)+
  qed
qed

section \<open>Dispatch\<close>

definition sched_same :: "'a host_world_scheme \<Rightarrow> 'a host_world_scheme \<Rightarrow> bool" where
  "sched_same w w' \<longleftrightarrow>
     host_queues w' = host_queues w \<and> host_semaphores w' = host_semaphores w \<and>
     host_devices w' = host_devices w \<and> command_buffers w' = command_buffers w \<and>
     semaphores w' = semaphores w \<and> cells w' = cells w"

lemma sched_sameD:
  assumes "sched_same w w'"
  shows "pool_of_ok d w' = pool_of_ok d w" "queued d w' = queued d w" "infos q w' = infos q w"
    "tracked q w' = tracked q w" "infos_ok q w' = infos_ok q w" "one_device d q w' = one_device d q w"
    "waiting s w' = waiting s w" "succeeded w' = succeeded w" "cells w' = cells w"
    "host_semaphores w' = host_semaphores w" "host_queues w' = host_queues w"
    "command_buffers w' = command_buffers w"
  using assms by (auto simp: sched_same_def pool_of_ok_def queued_def infos_def tracked_def infos_ok_def
      one_device_def semaphore_queue_def waiting_def succeeded_def fun_eq_iff)

lemma sched_same_inv: "sched_same w w' \<Longrightarrow> sched_inv d q (w', W) = sched_inv d q (w, W)"
  by (simp add: sched_inv_def sched_inv_at_def sched_sameD)

lemma only_blocks_sched_same: "only_blocks w w' \<Longrightarrow> sched_same w w'"
  by (auto simp: only_blocks_def sched_same_def)

lemma sched_same_prepare:
  "sched_same w w1 \<Longrightarrow> sched_same w (set_host_command_buffer cb x w1)"
  "sched_same w w1 \<Longrightarrow> sched_same w (fence_reset f w1)"
  by (simp_all add: sched_same_def host_setters fence_reset_def)

lemma addGroup_tracked:
  assumes inv: "sched_inv d q (w, W)" and g: "tracked q w g = None" and n: "n \<noteq> 0"
    and room: "length (infos q w) < sv_capacity (signalInfos (host_queues w q))"
  shows "\<exists>w'. addGroup q g fence n w = Some (mux_success, w') \<and>
     sched_inv_at d q g (unat n) (w', W) \<and>
     tracked q w' g = Some \<lparr>wait_count = n, signal_fence = fence\<rparr> \<and>
     sched_frame w w' \<and> queued d w' = queued d w"
proof -
  let ?si = "\<lparr>wait_count = n, signal_fence = fence\<rparr>"
  let ?w' = "set_host_queue q \<lparr>signalInfos = (signalInfos (host_queues w q))
    \<lparr>sv_elems := infos q w @ [(g, ?si)]\<rparr>\<rparr> w"
  note I = sched_invD [OF inv]
  have call: "addGroup q g fence n w = Some (mux_success, ?w')"
    using n room by (simp add: addGroup_def infos_def sv_push_back_room)
  have infos: "infos q ?w' = infos q w @ [(g, ?si)]"
    by (simp add: infos_def set_host_queue_def)
  have tr: "tracked q ?w' = (tracked q w)(g \<mapsto> ?si)"
    using g by (auto simp: tracked_def infos map_add_def fun_eq_iff split: option.splits)
  have fr: "sched_frame w ?w'" and q: "queued d ?w' = queued d w" and p: "pool_of_ok d ?w'"
    using I(1) by (simp_all add: sched_frame_def set_host_queue_def queued_def pool_of_ok_def)
  have ok: "infos_ok q ?w'"
    using I(2) g n by (auto simp: infos_ok_def infos tracked_def map_of_eq_None_iff)
  have "sched_inv_at d q g (unat n) (?w', W)"
  proof (rule sched_inv_atI)
    show "unat (wait_count x) = size (W h) + (if h = g then unat n else 0)"
      if "tracked q ?w' h = Some x" for h x
      using that I(4) [of h] I(5) [OF g] by (auto simp: tr split: if_splits)
    show "W h = {#} \<and> (h = g \<longrightarrow> unat n = 0)" if "tracked q ?w' h = None" for h
      using that I(5) [of h] by (auto simp: tr split: if_splits)
  qed (use I ok p in \<open>auto simp: sched_frameD [OF fr]\<close>)
  then show ?thesis
    using call tr fr q by simp
qed

lemma addGroup_ready:
  assumes "pool_of_ok d w" and "one_device d q w" and "length (queued d w) < 4095"
  shows "\<exists>w'. addGroup q g fence 0 w = Some (mux_success, w') \<and> pool_of_ok d w' \<and>
     host_queues w' = host_queues w \<and> sched_frame w w' \<and>
     queued d w' = queued d w @ [process_item q g fence]"
  using enqueue_spec [OF assms(1,3), of "process_item q g fence"] assms(2)
  by (auto simp: addGroup_def one_device_def)

text \<open>Adding a group and registering its waits, from a state in which it is not tracked.\<close>

lemma add_and_wait_spec:
  assumes inv: "sched_inv d q (w, W)" and g: "tracked q w g = None" and room: "room d q ss w"
    and n: "unat n = length ss"
  shows "\<exists>w1 w' extra. addGroup q g fence n w = Some (mux_success, w1) \<and> cells w1 = cells w \<and>
     add_waits g ss w1 = Some w' \<and>
     sched_inv d q (w', W(g := mset (filter (\<lambda>s. \<not> succeeded w s) ss))) \<and>
     queued d w' = queued d w @ extra \<and>
     filter is_process extra = (if \<forall>s \<in> set ss. succeeded w s then [process_item q g fence] else [])"
proof (cases "n = 0")
  case True
  then have ss: "ss = []"
    using n by simp
  obtain w1 where w1: "addGroup q g fence 0 w = Some (mux_success, w1)" "pool_of_ok d w1"
    "host_queues w1 = host_queues w" "sched_frame w w1"
    "queued d w1 = queued d w @ [process_item q g fence]"
    using addGroup_ready [of d w q g fence] sched_invD(1,3) [OF inv] room ss by (auto simp: room_def)
  note fr = sched_frameD [OF w1(4)]
  have "sched_inv d q (w1, W)"
    by (rule sched_inv_other [OF inv]) (use w1 in \<open>auto simp: fr\<close>)
  then have "sched_inv d q (w1, W(g := mset (filter (\<lambda>s. \<not> succeeded w s) ss)))"
    using sched_invD(5) [OF inv g] ss by (simp add: fun_upd_idem)
  then show ?thesis
    using w1 True ss fr(7) by auto
next
  case False
  let ?si = "\<lparr>wait_count = n, signal_fence = fence\<rparr>"
  let ?W' = "W(g := mset (filter (\<lambda>s. \<not> succeeded w s) ss))"
  obtain w1 where w1: "addGroup q g fence n w = Some (mux_success, w1)"
    "sched_inv_at d q g (unat n) (w1, W)" "tracked q w1 g = Some ?si" "sched_frame w w1"
    "queued d w1 = queued d w"
    using addGroup_tracked [OF inv g False] room by (auto simp: room_def)
  note fr = sched_frameD [OF w1(4)]
  have Wg: "W g = {#}"
    using sched_invD(5) [OF inv g] .
  have "\<forall>s \<in> set ss. length (waiting s w1) + length ss
      \<le> sv_capacity (waitingGroups (host_semaphores w1 s))"
    and "length (queued d w1) + length ss \<le> 4095"
    using room w1(5) by (auto simp: room_def fr)
  then obtain w' extra where *: "add_waits g ss w1 = Some w'" "sched_inv d q (w', ?W')"
    "queued d w' = queued d w @ extra"
    "filter is_process extra = (if tracked q w' g = None then [process_item q g fence] else [])"
    using add_waits_spec [of d q g ss w1 W ?si] w1 n Wg by (auto simp: fr)
  have "tracked q w' g = None \<longleftrightarrow> (\<forall>s \<in> set ss. succeeded w s)"
    using sched_inv_tracked [OF *(2), of g] by (auto simp: filter_empty_conv)
  then show ?thesis
    using w1(1) * fr(7) by (intro exI [of _ w1] exI [of _ w'] exI [of _ extra] conjI) (assumption | simp)+
qed

lemma hostDispatch_spec:
  assumes inv: "sched_inv d q (w, W)" and g: "tracked q w g = None"
    and room: "room d q (handle_list w waits n) w"
  shows "\<exists>r w'. hostDispatch q g fence waits n sems k fn data w = Some (r, w') \<and>
     (r = mux_success \<and>
      sched_inv d q (w', W(g := mset (filter (\<lambda>s. \<not> succeeded w s) (handle_list w waits n)))) \<and>
      (\<exists>extra. queued d w' = queued d w @ extra \<and> filter is_process extra =
         (if \<forall>s \<in> set (handle_list w waits n). succeeded w s then [process_item q g fence] else []))
      \<or> r = mux_error_out_of_memory \<and> sched_same w w')"
proof -
  let ?ss = "handle_list w waits n"
  let ?cb = "host_command_buffers w g"
  obtain r v w1 where ins: "sv_insert Obj_handle 8 (length (sv_elems (signal_semaphores ?cb)))
      (handle_list w sems k) (signal_semaphores ?cb) w = Some (r, v, w1)"
    by (cases "sv_insert Obj_handle 8 (length (sv_elems (signal_semaphores ?cb)))
      (handle_list w sems k) (signal_semaphores ?cb) w") (auto simp: sv_insert_def split: prod.splits if_splits)
  have same1: "sched_same w w1"
    by (rule only_blocks_sched_same [OF sv_insert_only_blocks [OF ins]])
  show ?thesis
  proof (cases r)
    case (Inl e)
    then show ?thesis
      using ins same1 by (auto simp: hostDispatch_def Let_def intro: sched_same_prepare)
  next
    case (Inr p)
    let ?w2 = "set_host_command_buffer g (?cb\<lparr>signal_semaphores := v, user_function := fn,
      user_data := data\<rparr>) w1"
    let ?w3 = "if fence \<noteq> 0 then fence_reset fence ?w2 else ?w2"
    have same: "sched_same w ?w3"
      using same1 by (simp add: sched_same_prepare)
    note S = sched_sameD [OF same]
    have inv3: "sched_inv d q (?w3, W)"
      using inv unfolding sched_same_inv [OF same] .
    have g3: "tracked q ?w3 g = None" and room3: "room d q ?ss ?w3"
      using g room unfolding room_def S by auto
    have len: "unat (ucast n :: u64) = length ?ss"
      by (simp add: handle_list_def unat_ucast_32_64)
    obtain w4 w' extra where *: "addGroup q g fence (ucast n) ?w3 = Some (mux_success, w4)"
      "cells w4 = cells ?w3" "add_waits g ?ss w4 = Some w'"
      "sched_inv d q (w', W(g := mset (filter (\<lambda>s. \<not> succeeded ?w3 s) ?ss)))"
      "queued d w' = queued d ?w3 @ extra"
      "filter is_process extra = (if \<forall>s \<in> set ?ss. succeeded ?w3 s then [process_item q g fence] else [])"
      using add_and_wait_spec [OF inv3 g3 room3 len] by blast
    have hl: "handle_list w4 waits n = ?ss"
      using *(2) S(9) by (simp add: handle_list_def handle_at_def)
    have "hostDispatch q g fence waits n sems k fn data w = Some (mux_success, w')"
      using ins Inr *(1,3) hl by (simp add: hostDispatch_def Let_def)
    then show ?thesis
      using *(4-6) unfolding S by blast
  qed
qed

lemma sched_inv_step:
  assumes "sched_step d q c e" and "sched_inv d q c"
  shows "sched_inv d q e"
  using assms
proof (cases rule: sched_step.cases)
  case (Sched_dispatch w g waits n fence sems k fn data w' W)
  then show ?thesis
    using hostDispatch_spec [of d q w W g waits n fence sems k fn data] assms(2) by auto
next
  case (Sched_signal w s w' W)
  then show ?thesis
    using semaphore_signal_spec [of d q w W s] assms(2) by auto
qed (use assms(2) sched_inv_fail sched_inv_reset sched_inv_other in blast)+

lemma sched_inv_reach: "sched_reach d q c e \<Longrightarrow> sched_inv d q c \<Longrightarrow> sched_inv d q e"
  by (induction rule: sched_reach.induct) (auto intro: sched_inv_step)

lemma sched_inv_initial:
  assumes "pool_of_ok d w" and "infos q w = []" and "one_device d q w" and "\<forall>s. waiting s w = []"
  shows "sched_inv d q (w, \<lambda>_. {#})"
  by (rule sched_invI) (use assms in \<open>auto simp: tracked_def infos_ok_def\<close>)

definition demo_sched_world :: host_world where
  "demo_sched_world = set_cell 0x100 0x80 (set_cell 0x108 0x88 empty_host_world)"

lemmas sched_eval = hostDispatch_def handle_list_def handle_at_def set_cell_def sv_insert_def
  sv_extend_def sv_new_def addGroup_def sv_push_back_def semaphore_addWait_def host_setters
  fence_reset_def semaphore_signal_def signalCompleted_def semaphore_queue_def sv_erase_def
  enqueue_def enqueue_begin_def enqueue_commit_def

lemma demo_sched_world_initial:
  "pool_of_ok 0 demo_sched_world" "infos 0x700 demo_sched_world = []"
  "one_device 0 0x700 demo_sched_world" "\<forall>s. waiting s demo_sched_world = []"
  "queued 0 demo_sched_world = []" "tracked 0x700 demo_sched_world g = None"
  by (simp_all add: demo_sched_world_def set_cell_def pool_of_ok_def infos_def sv_new_def
      one_device_def semaphore_queue_def waiting_def queued_def tracked_def)

lemma demo_dispatch:
  "\<exists>w1. hostDispatch 0x700 0x900 0x50 0x100 1 0 0 0 0 demo_sched_world = Some (mux_success, w1) \<and>
     \<not> signalled (host_semaphores w1 0x80) \<and> queued 0 w1 = [] \<and> waiting 0x80 w1 = [0x900] \<and>
     signal_fence (the (tracked 0x700 w1 0x900)) = 0x50"
  by (simp add: sched_eval demo_sched_world_def waiting_def queued_def tracked_def infos_def Let_def)

text \<open>An allocator that has run out of memory, and a queue whose tracking vector is full.\<close>

definition full_allocator :: mux_allocator_info_s where
  "full_allocator = \<lparr>alloc_fn = Some (\<lambda>u r bs. (0, bs)), free_fn = Some (\<lambda>u p bs. bs(p := None)),
     alloc_user_data = 0\<rparr>"

definition busy_queue_world :: host_world where
  "busy_queue_world = set_host_queue 0x700 \<lparr>signalInfos = (sv_new 8 0x10 full_allocator)
     \<lparr>sv_elems := replicate 8 (1, \<lparr>wait_count = 1, signal_fence = 0\<rparr>)\<rparr>\<rparr>
     demo_sched_world"

section \<open>Properties\<close>



text \<open>
  C20: In every such interleaving, \<^verbatim>\<open>hostDispatch\<close> of a command buffer that is not waiting
  returns, and hands the command buffer to the thread pool at once exactly when each of its
  wait semaphores has already been signalled successfully; when it reports that it is out of
  memory it has handed over nothing.
\<close>

theorem dispatch_starts_iff_ready:
  assumes "pool_of_ok d w0" and "infos q w0 = []" and "one_device d q w0" and "\<forall>s. waiting s w0 = []"
    and "sched_reach d q (w0, \<lambda>_. {#}) (w, W)"
    and "tracked q w g = None" and "room d q (handle_list w waits n) w"
  shows "\<exists>r w'. hostDispatch q g fence waits n sems k fn data w = Some (r, w') \<and>
     (r = mux_success \<and> (\<exists>extra. queued d w' = queued d w @ extra \<and> filter is_process extra =
         (if \<forall>s \<in> set (handle_list w waits n). succeeded w s then [process_item q g fence] else []))
      \<or> r = mux_error_out_of_memory \<and> queued d w' = queued d w)"
proof -
  have "sched_inv d q (w, W)"
    by (rule sched_inv_reach [OF assms(5) sched_inv_initial [OF assms(1-4)]])
  from hostDispatch_spec [OF this assms(6,7), of fence sems k fn data] show ?thesis
    by (elim exE conjE disjE) (auto simp: sched_sameD(2))
qed

theorem dispatch_starts_iff_ready_witness:
  "\<exists>r w'. hostDispatch 0x700 0x900 0x50 0 0 0 0 0 0 demo_sched_world = Some (r, w') \<and>
     (r = mux_success \<and> filter is_process (queued 0 w') = [process_item 0x700 0x900 0x50]
      \<or> r = mux_error_out_of_memory \<and> queued 0 w' = [])"
proof -
  have hl: "handle_list demo_sched_world 0 0 = []"
    by (simp add: handle_list_def)
  have "room 0 0x700 (handle_list demo_sched_world 0 0) demo_sched_world"
    by (simp add: room_def hl demo_sched_world_initial)
       (simp add: demo_sched_world_def set_cell_def sv_new_def)
  from dispatch_starts_iff_ready [OF demo_sched_world_initial(1-4) Sched_refl demo_sched_world_initial(6) this,
      of "0x900" "0x50" 0 0 0 0]
  show ?thesis
    by (auto simp: demo_sched_world_initial hl)
qed


text \<open>
  When \<^verbatim>\<open>signalInfos\<close> cannot grow, \<^verbatim>\<open>hostDispatch\<close> still reports success, but the command
  buffer is not tracked and the signal it waits for does not start it.
\<close>

lemma dispatch_hides_allocation_failure:
  "case hostDispatch 0x700 0x900 0x50 0x100 1 0 0 0 0 busy_queue_world of None \<Rightarrow> False
   | Some (r, w1) \<Rightarrow> r = mux_success \<and> tracked 0x700 w1 0x900 = None \<and>
       (case semaphore_signal 0x80 False w1 of None \<Rightarrow> False | Some w2 \<Rightarrow> queued 0 w2 = [])"
  by (simp add: sched_eval busy_queue_world_def demo_sched_world_def full_allocator_def sv_reserve_def
      allocator_alloc_def tracked_def infos_def queued_def Let_def find_if_replicate map_of_replicate_other)

end
