(* ===== verification/Host_Objects.thy ===== *)
theory Host_Objects
  imports Host_World Mux_Commands
begin

text \<open>
  Buffers, memories and query pools of the host target, after \<^verbatim>\<open>buffer.cpp\<close>, \<^verbatim>\<open>memory.cpp\<close> and
  \<^verbatim>\<open>query_pool.cpp\<close> of \<^verbatim>\<open>modules/mux/targets/host/source\<close>. The lemmas show that allocating and
  freeing a memory leaves the heap as it was, whichever allocation fails, and which bytes
  \<^verbatim>\<open>hostGetQueryPoolResults\<close> writes.
\<close>

definition memset0 :: "ptr \<Rightarrow> u64 \<Rightarrow> byte_memory \<Rightarrow> byte_memory" where
  "memset0 p n m = (\<lambda>a. if a - p < n then 0 else m a)"

section \<open>Buffers\<close>

abbreviation (input) HEAP_ALL :: u32 where "HEAP_ALL \<equiv> 1"
abbreviation (input) HEAP_BUFFER :: u32 where "HEAP_BUFFER \<equiv> 2"
abbreviation (input) HEAP_IMAGE :: u32 where "HEAP_IMAGE \<equiv> 4"

definition buffer_construct :: "mux_memory_requirements_s \<Rightarrow> ptr \<Rightarrow> 'a host_proc" where
  "buffer_construct requirements p w =
     w\<lparr>buffers := (buffers w)(p := (buffers w p)\<lparr>buffer_requirements := requirements\<rparr>),
       host_buffers := (host_buffers w)(p := \<lparr>buffer_data = 0\<rparr>)\<rparr>"

definition hostCreateBuffer :: "ptr \<Rightarrow> u64 \<Rightarrow> mux_allocator_info_s \<Rightarrow> ptr \<Rightarrow> 'a host_call" where
  "hostCreateBuffer device sz allocator_info out_buffer w =
     (case allocator_create allocator_info Obj_buffer
             (buffer_construct
                \<lparr>req_size = sz, req_alignment = 16, req_supported_heaps = HEAP_BUFFER\<rparr>) w of
        (buffer, w1) \<Rightarrow>
          if buffer = 0 then (mux_error_out_of_memory, w1)
          else (mux_success, set_cell out_buffer buffer w1))"

definition hostDestroyBuffer :: "ptr \<Rightarrow> ptr \<Rightarrow> mux_allocator_info_s \<Rightarrow> 'a host_proc" where
  "hostDestroyBuffer device buffer allocator_info w =
     allocator_destroy allocator_info (\<lambda>p w. w) buffer w"

definition hostBindBufferMemory :: "ptr \<Rightarrow> ptr \<Rightarrow> ptr \<Rightarrow> u64 \<Rightarrow> 'a host_call" where
  "hostBindBufferMemory device memory buffer offset w =
     (mux_success, w\<lparr>host_buffers := (host_buffers w)
        (buffer := \<lparr>buffer_data = memory_data (host_memories w memory) + offset\<rparr>)\<rparr>)"

section \<open>Memory\<close>

definition memory_construct :: "u64 \<Rightarrow> u32 \<Rightarrow> ptr \<Rightarrow> bool \<Rightarrow> ptr \<Rightarrow> 'a host_proc" where
  "memory_construct sz properties data use_host p w =
     w\<lparr>memories := (memories w)(p := (memories w p)
         \<lparr>memory_size := sz, memory_properties := properties, memory_handle := data\<rparr>),
       host_memories := (host_memories w)(p := \<lparr>memory_data = data, useHost = use_host\<rparr>)\<rparr>"

definition hostAllocateMemory ::
  "ptr \<Rightarrow> u64 \<Rightarrow> u32 \<Rightarrow> u32 \<Rightarrow> u32 \<Rightarrow> u32 \<Rightarrow> mux_allocator_info_s \<Rightarrow> ptr \<Rightarrow> 'a host_call" where
  "hostAllocateMemory device sz heap properties allocation_type alignment allocator_info
       out_memory w =
     (if heap \<notin> {HEAP_ALL, HEAP_BUFFER, HEAP_IMAGE} then (mux_error_invalid_value, w)
      else case allocator_alloc allocator_info (Request_bytes sz (ucast (max 128 alignment))) w of
        (host_pointer, w1) \<Rightarrow>
          if host_pointer = 0 then (mux_error_out_of_memory, w1)
          else case allocator_create allocator_info Obj_memory
                      (memory_construct sz properties host_pointer False) w1 of
            (memory, w2) \<Rightarrow>
              if memory = 0
              then (mux_error_out_of_memory, allocator_free allocator_info host_pointer w2)
              else (mux_success, set_cell out_memory memory w2))"

definition hostCreateMemoryFromHost ::
  "ptr \<Rightarrow> u64 \<Rightarrow> ptr \<Rightarrow> mux_allocator_info_s \<Rightarrow> ptr \<Rightarrow> 'a host_call" where
  "hostCreateMemoryFromHost device sz host_pointer allocator_info out_memory w =
     (case allocator_create allocator_info Obj_memory
             (memory_construct sz
                (mux_memory_property_host_visible OR mux_memory_property_host_coherent)
                host_pointer True) w of
        (memory, w1) \<Rightarrow>
          if memory = 0 then (mux_error_out_of_memory, w1)
          else (mux_success, set_cell out_memory memory w1))"

definition hostFreeMemory :: "ptr \<Rightarrow> ptr \<Rightarrow> mux_allocator_info_s \<Rightarrow> 'a host_proc" where
  "hostFreeMemory device memory allocator_info w =
     (let w1 = (if \<not> useHost (host_memories w memory)
                then allocator_free allocator_info (memory_data (host_memories w memory)) w
                else w)
      in allocator_destroy allocator_info (\<lambda>p w. w) memory w1)"

definition hostMapMemory :: "ptr \<Rightarrow> ptr \<Rightarrow> u64 \<Rightarrow> u64 \<Rightarrow> ptr \<Rightarrow> 'a host_call" where
  "hostMapMemory device memory offset sz out_data w =
     (mux_success, set_cell out_data (memory_data (host_memories w memory) + offset) w)"

definition hostFlushMappedMemoryToDevice :: "ptr \<Rightarrow> ptr \<Rightarrow> u64 \<Rightarrow> u64 \<Rightarrow> 'a host_call" where
  "hostFlushMappedMemoryToDevice device memory offset sz w = (mux_success, w)"

definition hostFlushMappedMemoryFromDevice :: "ptr \<Rightarrow> ptr \<Rightarrow> u64 \<Rightarrow> u64 \<Rightarrow> 'a host_call" where
  "hostFlushMappedMemoryFromDevice device memory offset sz w = (mux_success, w)"

definition hostUnmapMemory :: "ptr \<Rightarrow> ptr \<Rightarrow> 'a host_call" where
  "hostUnmapMemory device memory w = (mux_success, w)"

section \<open>Query pools\<close>

text \<open>\<^verbatim>\<open>sizeof(query_pool_s)\<close> and \<^verbatim>\<open>alignof(query_pool_s)\<close>: three 32-bit and three 64-bit members.\<close>

abbreviation (input) sizeof_query_pool :: u64 where "sizeof_query_pool \<equiv> 40"

definition query_data_offset :: "u32 \<Rightarrow> u64" where
  "query_data_offset query_type =
     (if query_type = mux_query_type_duration
      then sizeof_query_pool + sizeof_duration_result - sizeof_query_pool mod sizeof_duration_result
      else 0)"

definition query_pool_reset :: "ptr \<Rightarrow> 'a host_proc" where
  "query_pool_reset pool w =
     (if query_pool_type (query_pools w pool) = mux_query_type_duration
      then w\<lparr>mem := memset0 (pool_data (host_query_pools w pool))
                      (pool_size (host_query_pools w pool)) (mem w)\<rparr>
      else w)"

definition query_pool_reset_range :: "ptr \<Rightarrow> u64 \<Rightarrow> u64 \<Rightarrow> 'a host_proc" where
  "query_pool_reset_range pool offset cnt w =
     (if query_pool_type (query_pools w pool) = mux_query_type_duration
      then w\<lparr>mem := memset0 (pool_data (host_query_pools w pool) + offset * sizeof_duration_result)
                      (cnt * sizeof_duration_result) (mem w)\<rparr>
      else w)"

definition getDurationQueryAt :: "ptr \<Rightarrow> u32 \<Rightarrow> 'a host_world_scheme \<Rightarrow> ptr" where
  "getDurationQueryAt pool index w =
     pool_data (host_query_pools w pool) + sizeof_duration_result * ucast index"

definition query_pool_create ::
  "u32 \<Rightarrow> u32 \<Rightarrow> mux_allocator_info_s \<Rightarrow> 'a host_world_scheme
    \<Rightarrow> (mux_result_t + ptr) \<times> 'a host_world_scheme" where
  "query_pool_create query_type query_count allocator w =
     (let query_size = (if query_type = mux_query_type_duration
                        then sizeof_duration_result * ucast query_count else 0);
          query_align = (if query_type = mux_query_type_duration then 8 else 0)
      in case allocator_alloc allocator
                (Request_bytes (query_data_offset query_type + query_size) (max 8 query_align)) w of
        (memory, w1) \<Rightarrow>
          if memory = 0 then (Inl mux_error_out_of_memory, w1)
          else (Inr memory, query_pool_reset memory
            (w1\<lparr>query_pools := (query_pools w1)(memory := (query_pools w1 memory)
                   \<lparr>query_pool_type := query_type, query_pool_count := query_count\<rparr>),
                host_query_pools := (host_query_pools w1)(memory :=
                   \<lparr>pool_data = memory + query_data_offset query_type,
                    pool_size = query_size\<rparr>)\<rparr>)))"

definition hostGetSupportedQueryCounters ::
  "ptr \<Rightarrow> u32 \<Rightarrow> u32 \<Rightarrow> ptr \<Rightarrow> ptr \<Rightarrow> ptr \<Rightarrow> 'a host_call" where
  "hostGetSupportedQueryCounters device queue_type cnt out_counters out_descriptions out_count w =
     (mux_error_feature_unsupported, w)"

definition hostCreateQueryPool ::
  "ptr \<Rightarrow> u32 \<Rightarrow> u32 \<Rightarrow> ptr \<Rightarrow> mux_allocator_info_s \<Rightarrow> ptr \<Rightarrow> 'a host_call" where
  "hostCreateQueryPool queue query_type query_count query_configs allocator_info out_query_pool w =
     (case query_pool_create query_type query_count allocator_info w of
        (Inl error, w1) \<Rightarrow> (error, w1)
      | (Inr pool, w1) \<Rightarrow> (mux_success, set_cell out_query_pool pool w1))"

definition hostDestroyQueryPool :: "ptr \<Rightarrow> ptr \<Rightarrow> mux_allocator_info_s \<Rightarrow> 'a host_proc" where
  "hostDestroyQueryPool queue pool allocator_info w =
     allocator_destroy allocator_info (\<lambda>p w. w) pool w"

definition hostGetQueryCounterRequiredPasses :: "ptr \<Rightarrow> u32 \<Rightarrow> ptr \<Rightarrow> ptr \<Rightarrow> 'a host_call" where
  "hostGetQueryCounterRequiredPasses queue query_count query_counter_configs out_pass_count w =
     (mux_error_feature_unsupported, w)"

text \<open>The loop over the queries; \<open>end_index\<close> is the 32-bit sum of index and count.\<close>

function copy_results :: "ptr \<Rightarrow> u32 \<Rightarrow> u64 \<Rightarrow> u32 \<Rightarrow> ptr \<Rightarrow> 'a host_proc" where
  "copy_results pool end_index stride index results w =
     (if index < end_index
      then copy_results pool end_index stride (index + 1) (results + stride)
             (w\<lparr>mem := memcpy results (getDurationQueryAt pool index w) sizeof_duration_result (mem w)\<rparr>)
      else w)"
  by pat_completeness auto

termination
  by (relation "measure (\<lambda>(pool, end_index, stride, index, results, w). unat end_index - unat index)")
     (auto simp: word_less_nat_alt unat_plus_1_less)

declare copy_results.simps [simp del]

definition hostGetQueryPoolResults ::
  "ptr \<Rightarrow> ptr \<Rightarrow> u32 \<Rightarrow> u32 \<Rightarrow> u64 \<Rightarrow> ptr \<Rightarrow> u64 \<Rightarrow> 'a host_call" where
  "hostGetQueryPoolResults queue pool query_index query_count sz data stride w =
     (if query_pool_type (query_pools w pool) = mux_query_type_duration
      then (mux_success, copy_results pool (query_index + query_count) stride query_index data w)
      else if query_pool_type (query_pools w pool) = mux_query_type_counter
      then (mux_error_feature_unsupported, w)
      else (mux_error_invalid_value, w))"

text \<open>A pool with two results at \<^verbatim>\<open>0x200\<close> whose bytes are their addresses.\<close>

definition demo_query_world :: host_world where
  "demo_query_world = empty_host_world
     \<lparr>queues := (\<lambda>_. \<lparr>queue_id = 0x00080001, queue_device = 0x10\<rparr>),
      query_pools := (\<lambda>_. \<lparr>query_pool_id = 0x000B0001, query_pool_type = mux_query_type_duration,
        query_pool_count = 2\<rparr>),
      host_query_pools := (\<lambda>_. \<lparr>pool_data = 0x200, pool_size = 32\<rparr>),
      mem := (\<lambda>a. ucast a)\<rparr>"

section \<open>Properties\<close>

lemma copy_results_frame:
  "\<exists>m. copy_results pool e stride index results w = w\<lparr>mem := m\<rparr>"
proof (induction pool e stride index results w rule: copy_results.induct)
  case (1 pool e stride index results w)
  show ?case
  proof (cases "index < e")
    case True
    from 1 [OF this] obtain m where
      "copy_results pool e stride (index + 1) (results + stride)
        (w\<lparr>mem := memcpy results (getDurationQueryAt pool index w) sizeof_duration_result (mem w)\<rparr>)
       = w\<lparr>mem := m\<rparr>"
      by auto
    then show ?thesis
      using True by (subst copy_results.simps) auto
  next
    case False
    then show ?thesis
      by (subst copy_results.simps) (auto intro: exI [of _ "mem w"])
  qed
qed

lemma unat_sub_ge:
  fixes a s :: u64
  assumes "unat s + k \<le> unat a"
  shows "k \<le> unat (a - s)"
  using assms by (simp add: unat_minus_no_wrap)

lemma unat_below:
  fixes s :: u64
  assumes "j < unat s"
  shows "unat (of_nat j - s) = 2 ^ 64 + j - unat s"
proof -
  have "j < 2 ^ 64"
    using assms unsigned_less [of s, where 'a = nat] by simp
  then have "unat (of_nat j :: u64) = j"
    by (simp add: unat_of_nat)
  then show ?thesis
    using assms unat_sub_if' [of "of_nat j" s] by simp
qed

lemma copy_results_bytes:
  assumes "unat e = unat index + n" and "16 \<le> unat stride" and "n * unat stride < 2 ^ 64"
    and "\<forall>k < 16 * unat e. n * unat stride
           \<le> unat (pool_data (host_query_pools w pool) + of_nat k - results)"
  shows "(\<forall>a. n * unat stride \<le> unat (a - results) \<longrightarrow>
            mem (copy_results pool e stride index results w) a = mem w a) \<and>
         (\<forall>i < n. \<forall>j < 16. mem (copy_results pool e stride index results w)
              (results + of_nat (i * unat stride + j))
            = mem w (pool_data (host_query_pools w pool) + of_nat (16 * (unat index + i) + j)))"
  using assms
proof (induction n arbitrary: index results w)
  case 0
  then have "\<not> index < e"
    by (simp add: word_less_nat_alt)
  then show ?case
    by (subst (1 2) copy_results.simps) simp
next
  case (Suc n)
  let ?base = "pool_data (host_query_pools w pool)"
  let ?m1 = "memcpy results (getDurationQueryAt pool index w) sizeof_duration_result (mem w)"
  let ?w1 = "w\<lparr>mem := ?m1\<rparr>"
  let ?R = "mem (copy_results pool e stride index results w)"
  have less: "index < e"
    using Suc.prems(1) by (simp add: word_less_nat_alt)
  have R: "?R = mem (copy_results pool e stride (index + 1) (results + stride) ?w1)"
    using less by (subst copy_results.simps) simp
  have idx: "unat (index + 1) = Suc (unat index)"
    using less unat_plus_1_less by (simp add: word_less_nat_alt)
  have src: "getDurationQueryAt pool index w = ?base + of_nat (16 * unat index)"
    by (simp add: getDurationQueryAt_def of_nat_unat)
  have step: "n * unat stride \<le> unat (a - (results + stride))"
    if "Suc n * unat stride \<le> unat (a - results)" for a
    using unat_sub_ge [of stride "n * unat stride" "a - results"] that by (simp add: algebra_simps)
  have small: "16 \<le> unat (a - results)" if "Suc n * unat stride \<le> unat (a - results)" for a
    using that Suc.prems(2) by simp
  have out1: "?m1 a = mem w a" if "16 \<le> unat (a - results)" for a
    using that by (simp add: memcpy_outside word_less_nat_alt)
  have IH: "(\<forall>a. n * unat stride \<le> unat (a - (results + stride)) \<longrightarrow> ?R a = ?m1 a) \<and>
         (\<forall>i < n. \<forall>j < 16. ?R (results + stride + of_nat (i * unat stride + j))
            = ?m1 (?base + of_nat (16 * (Suc (unat index) + i) + j)))"
  proof -
    have "\<forall>k < 16 * unat e. n * unat stride
           \<le> unat (pool_data (host_query_pools ?w1 pool) + of_nat k - (results + stride))"
      using Suc.prems(4) step by simp
    then show ?thesis
      unfolding R using Suc.IH [of "index + 1" ?w1 "results + stride"] Suc.prems(1-3) idx by simp
  qed
  have A: "?R a = mem w a" if "Suc n * unat stride \<le> unat (a - results)" for a
    using IH step [OF that] out1 [OF small [OF that]] by simp
  have B0: "?R (results + of_nat j) = mem w (?base + of_nat (16 * unat index + j))" if "j < 16" for j
  proof -
    have "n * unat stride \<le> unat (results + of_nat j - (results + stride))"
      using unat_below [of j stride] that Suc.prems(2,3) by (simp add: algebra_simps)
    then have "?R (results + of_nat j) = ?m1 (results + of_nat j)"
      using IH by blast
    also have "\<dots> = mem w (getDurationQueryAt pool index w + of_nat j)"
      using that by (intro memcpy_inside)
        (simp add: word_less_nat_alt unat_of_nat)
    finally show ?thesis
      by (simp add: src add.assoc)
  qed
  have BS: "?R (results + of_nat (Suc i * unat stride + j))
      = mem w (?base + of_nat (16 * (unat index + Suc i) + j))" if "i < n" "j < 16" for i j
  proof -
    have "?R (results + of_nat (Suc i * unat stride + j))
        = ?m1 (?base + of_nat (16 * (Suc (unat index) + i) + j))"
      using IH that by (simp add: algebra_simps of_nat_unat)
    moreover have "16 * (Suc (unat index) + i) + j < 16 * unat e"
      using that Suc.prems(1) by simp
    ultimately show ?thesis
      using out1 small Suc.prems(4) by (simp del: of_nat_add of_nat_mult mult_Suc)
  qed
  show ?case
  proof (intro conjI allI impI)
    fix i j assume "i < Suc n" "(j :: nat) < 16"
    then show "?R (results + of_nat (i * unat stride + j))
      = mem w (?base + of_nat (16 * (unat index + i) + j))"
      using B0 BS by (cases i) auto
  qed (use A in blast)
qed

lemma hostAllocateMemory_cases:
  assumes a: "allocator_ok a"
    and call: "hostAllocateMemory device sz heap properties ty alignment a out w = (r, w')"
  shows "(r \<noteq> mux_success \<and> w' = w) \<or>
     (r = mux_success \<and> (\<exists>p m. p \<noteq> 0 \<and> m \<noteq> 0 \<and> p \<noteq> m \<and>
        live_blocks w p = None \<and> live_blocks w m = None \<and>
        w' = set_cell out m (memory_construct sz properties p False m
          (w\<lparr>live_blocks := (live_blocks w)
              (p \<mapsto> Request_bytes sz (ucast (max 128 alignment)), m \<mapsto> Request_object Obj_memory)\<rparr>))))"
proof (cases "heap \<in> {HEAP_ALL, HEAP_BUFFER, HEAP_IMAGE}")
  case True
  let ?req = "Request_bytes sz (ucast (max 128 alignment))"
  obtain p w1 where al: "allocator_alloc a ?req w = (p, w1)"
    by fastforce
  obtain m w2 where al2: "allocator_alloc a (Request_object Obj_memory) w1 = (m, w2)"
    by fastforce
  have call': "(if p = 0 then (mux_error_out_of_memory, w1)
      else case allocator_create a Obj_memory (memory_construct sz properties p False) w1 of
        (memory, w2) \<Rightarrow> if memory = 0 then (mux_error_out_of_memory, allocator_free a p w2)
          else (mux_success, set_cell out memory w2)) = (r, w')"
    using call True unfolding hostAllocateMemory_def
    by (simp only: al prod.case simp_thms if_False)
  show ?thesis
  proof (rule allocator_alloc_cases [OF a al], goal_cases null fresh)
    case null
    then show ?case
      using call' by auto
  next
    case fresh
    show ?case
    proof (rule allocator_alloc_cases [OF a al2], goal_cases null2 fresh2)
      case null2
      then show ?case
        using call' al2 fresh(1) free_after_alloc [OF a al fresh(1)]
        by (auto simp: allocator_create_def)
    next
      case fresh2
      then show ?case
        using call' al2 fresh by (auto simp: allocator_create_def split: if_splits)
    qed
  qed
qed (use call in \<open>simp add: hostAllocateMemory_def\<close>)

text \<open>
  C34: \<^verbatim>\<open>hostAllocateMemory\<close> either succeeds and holds exactly two more blocks of the
  allocator than before, the data and the memory object, both of which \<^verbatim>\<open>hostFreeMemory\<close> gives
  back; or fails and changes nothing at all, whichever of the two allocations was refused.
\<close>

theorem memory_blocks_balanced:
  assumes "allocator_ok a"
    and "hostAllocateMemory device sz heap properties ty alignment a out w = (r, w')"
  shows "if r = mux_success
     then let m = cells w' out; p = memory_data (host_memories w' m)
       in live_blocks w' = (live_blocks w)
            (p \<mapsto> Request_bytes sz (ucast (max 128 alignment)), m \<mapsto> Request_object Obj_memory) \<and>
          live_blocks (hostFreeMemory device m a w') = live_blocks w
     else w' = w"
  using hostAllocateMemory_cases [OF assms] assms(1)
  by (auto simp: Let_def hostFreeMemory_def allocator_destroy_def allocator_free_eq set_cell_def
      memory_construct_def fun_upd_idem fun_upd_twist)

theorem memory_blocks_balanced_witness:
  "\<exists>w'. hostAllocateMemory 0x30 64 HEAP_BUFFER 1 1 0 two_slot_allocator 0x40 empty_host_world
      = (mux_success, w') \<and>
     live_blocks (hostFreeMemory 0x30 (cells w' 0x40) two_slot_allocator w') = Map.empty"
proof -
  obtain r w' where call: "hostAllocateMemory 0x30 64 HEAP_BUFFER 1 1 0 two_slot_allocator 0x40
      empty_host_world = (r, w')"
    by fastforce
  then have "r = mux_success"
    by (auto simp: hostAllocateMemory_def allocator_create_def allocator_alloc_def
        two_slot_allocator_def)
  then show ?thesis
    using memory_blocks_balanced [OF two_slot_allocator_ok call] call by (simp add: Let_def)
qed

text \<open>
  C35: \<^verbatim>\<open>hostGetQueryPoolResults\<close> returns success for a duration pool and copies result
  \<open>query_index + i\<close> to the bytes at \<open>i * stride\<close>, for every \<open>i < query_count\<close>; it writes nothing past
  \<open>query_count * stride\<close> bytes, where the results and the destination do not overlap.
\<close>

theorem query_results_copied:
  assumes "query_pool_type (query_pools w pool) = mux_query_type_duration"
    and "unat query_index + unat query_count < 2 ^ 32"
    and "16 \<le> unat stride" and "unat query_count * unat stride < 2 ^ 64"
    and "\<forall>k < 16 * (unat query_index + unat query_count). unat query_count * unat stride
           \<le> unat (pool_data (host_query_pools w pool) + of_nat k - data)"
  shows "\<exists>w'. hostGetQueryPoolResults queue pool query_index query_count sz data stride w
       = (mux_success, w') \<and>
     (\<forall>i < unat query_count. \<forall>j < 16. mem w' (data + of_nat (i * unat stride + j))
        = mem w (pool_data (host_query_pools w pool) + of_nat (16 * (unat query_index + i) + j))) \<and>
     (\<forall>a. unat query_count * unat stride \<le> unat (a - data) \<longrightarrow> mem w' a = mem w a)"
proof -
  have e: "unat (query_index + query_count) = unat query_index + unat query_count"
    using assms(2) by (simp add: unat_plus_no_wrap)
  show ?thesis
    using copy_results_bytes [OF e assms(3,4), of w pool data] assms(1,5)
    by (auto simp: hostGetQueryPoolResults_def e)
qed

theorem query_results_copied_witness:
  "\<exists>w'. hostGetQueryPoolResults 0 0x300 1 1 16 0x100 16 demo_query_world = (mux_success, w') \<and>
     mem w' 0x103 = 0x13"
proof -
  have "16 \<le> unat (0x200 + of_nat k - 0x100 :: u64)" if "k < 32" for k
  proof -
    have "(0x200 + of_nat k - 0x100 :: u64) = of_nat (256 + k)"
      by simp
    then show ?thesis
      using that by (simp del: of_nat_add of_nat_numeral add: unat_of_nat)
  qed
  then show ?thesis
    using query_results_copied [of demo_query_world "0x300" 1 1 16 "0x100" 0 16]
    by (auto simp: demo_query_world_def dest!: spec [of _ 3])
qed

text \<open>
  The size check of \<^verbatim>\<open>muxGetQueryPoolResults\<close> counts the results without their
  stride, so that a call which passes it with room for 32 bytes writes the byte at offset 35.
\<close>

lemma query_results_overrun:
  "\<exists>w'. muxGetQueryPoolResults hostGetQueryPoolResults 0x30 0x40 0 2 32 0x1000 32 demo_query_world
      = (mux_success, w') \<and> mem demo_query_world 0x1023 = 0x23 \<and> mem w' 0x1023 = 0x13"
  by (simp add: muxGetQueryPoolResults_def demo_query_world_def mux_valid objectIsInvalid_def
      getObjectId_def mux_ids hostGetQueryPoolResults_def copy_results.simps getDurationQueryAt_def
      memcpy_def)

end
