(* ===== verification/Host_Kernel.thy ===== *)
theory Host_Kernel
  imports Host_World
begin

text \<open>
  The kernels of the host target, after \<^verbatim>\<open>kernel.cpp\<close> and \<^verbatim>\<open>builtin_kernel.cpp\<close> of
  \<^verbatim>\<open>modules/mux/targets/host/source\<close>: creating and destroying them, the choice of the variant for
  a work-group size, the sub-group queries and the slices of the built-in kernel
  \<^verbatim>\<open>copy_buffer\<close>. The lemmas show that the choice is total and takes the widest variant that
  fits, that sub-groups tile the work-group, and that slices tile the range.
\<close>

section \<open>Strings\<close>

text \<open>\<^verbatim>\<open>a.find(b) != std::string::npos\<close>.\<close>

fun string_contains :: "string \<Rightarrow> string \<Rightarrow> bool" where
  "string_contains [] b = (b = [])"
| "string_contains (x # xs) b = (take (length b) (x # xs) = b \<or> string_contains xs b)"

section \<open>Kernel objects\<close>

definition setPreferredSizes :: "ptr \<Rightarrow> 'a host_proc" where
  "setPreferredSizes knl w =
     (let info = info_of w (kernel_device (kernels w knl)) in
      w\<lparr>kernels := (kernels w)(knl := (kernels w knl)
        \<lparr>preferred_local_size_x := ucast (min 64 (max_work_group_size_x info)),
         preferred_local_size_y := ucast (min 4 (max_work_group_size_y info)),
         preferred_local_size_z := ucast (min 4 (max_work_group_size_z info))\<rparr>)\<rparr>)"

definition set_kernel :: "ptr \<Rightarrow> ptr \<Rightarrow> u64 \<Rightarrow> host_kernel_s \<Rightarrow> 'a host_proc" where
  "set_kernel device p local_memory k w =
     w\<lparr>kernels := (kernels w)(p := (kernels w p)
         \<lparr>kernel_device := device, local_memory_size := local_memory\<rparr>),
       host_kernels := (host_kernels w)(p := k)\<rparr>"

text \<open>
  The constructor for a built-in kernel. \<open>malloc\<close> is the default allocator of
  \<^verbatim>\<open>cargo::small_vector\<close>; the first element of a vector needs no allocation.
\<close>

definition kernel_construct_builtin ::
  "mux_allocator_info_s \<Rightarrow> ptr \<Rightarrow> mux_allocator_info_s \<Rightarrow> string \<Rightarrow> ptr \<Rightarrow> ptr \<Rightarrow> 'a host_proc" where
  "kernel_construct_builtin malloc device allocator_info name fn p w =
     (case sv_push_back Obj_kernel_variant 4
             \<lparr>variant_name = name, hook = fn, local_memory_used = 0, min_work_width = 1,
              pref_work_width = 1, sub_group_size = 0\<rparr> (sv_new 4 p malloc) w of
        (_, variants, w1) \<Rightarrow>
          setPreferredSizes p (set_kernel device p 0
            \<lparr>is_builtin_kernel = True, kernel_allocator_info = allocator_info,
             variant_data = variants\<rparr> w1))"

text \<open>The constructor for the kernel of a binary; the caller moves its vector of variants in.\<close>

definition kernel_construct ::
  "ptr \<Rightarrow> mux_allocator_info_s \<Rightarrow> kernel_variant_s small_vector \<Rightarrow> ptr \<Rightarrow> 'a host_proc" where
  "kernel_construct device allocator_info variants p w =
     setPreferredSizes p (set_kernel device p
       (fold (\<lambda>v m. max m (local_memory_used v)) (sv_elems variants) 0)
       \<lparr>is_builtin_kernel = False, kernel_allocator_info = allocator_info,
        variant_data = fst (sv_move_new 4 p variants)\<rparr> w)"

text \<open>
  \<open>builtin_kernel_map\<close> is the member of the device info, in the order of iteration; \<open>n\<close> bounds
  the length of the name, and \<^term>\<open>None\<close> means that the name is longer.
\<close>

definition hostCreateBuiltInKernel ::
  "nat \<Rightarrow> (string \<times> ptr) list \<Rightarrow> mux_allocator_info_s
    \<Rightarrow> ptr \<Rightarrow> ptr \<Rightarrow> u64 \<Rightarrow> mux_allocator_info_s \<Rightarrow> ptr \<Rightarrow> 'a host_world_scheme
    \<Rightarrow> (mux_result_t \<times> 'a host_world_scheme) option" where
  "hostCreateBuiltInKernel n builtin_kernel_map malloc device name name_length allocator_info
       out_kernel w =
     (case c_string_at n (mem w) name of None \<Rightarrow> None
      | Some kernel_name \<Rightarrow>
          Some (case find (\<lambda>entry. string_contains (fst entry) kernel_name) builtin_kernel_map of
              None \<Rightarrow> (mux_error_invalid_value, w)
            | Some (builtin_name, fn) \<Rightarrow>
                (case allocator_create allocator_info Obj_kernel
                        (kernel_construct_builtin malloc device allocator_info builtin_name fn) w of
                   (knl, w1) \<Rightarrow>
                     if knl = 0 then (mux_error_out_of_memory, w1)
                     else (mux_success, set_cell out_kernel knl w1))))"

definition binary_variant :: "string \<Rightarrow> binary_kernel_s \<Rightarrow> kernel_variant_s" where
  "binary_variant name v =
     \<lparr>variant_name = name, hook = binary_hook v,
      local_memory_used = ucast (binary_local_memory_used v),
      min_work_width = binary_min_work_width v, pref_work_width = binary_pref_work_width v,
      sub_group_size = binary_sub_group_size v\<rparr>"

text \<open>
  \<open>frame\<close> is the address of the local vector of variants, which is destroyed on every path; a
  vector that was moved from owns no block.
\<close>

definition hostCreateKernel ::
  "mux_allocator_info_s \<Rightarrow> ptr \<Rightarrow> ptr \<Rightarrow> ptr \<Rightarrow> ptr \<Rightarrow> u64 \<Rightarrow> mux_allocator_info_s \<Rightarrow> ptr \<Rightarrow> 'a host_call" where
  "hostCreateKernel malloc frame device executable name name_length allocator_info out_kernel w =
     (let refName = string_at (mem w) name name_length in
      case executable_kernels (host_executables w executable) refName of
        None \<Rightarrow> (mux_error_missing_kernel, w)
      | Some entry \<Rightarrow>
          (case sv_push_all Obj_kernel_variant 4 (map (binary_variant refName) entry)
                  (sv_new 4 frame malloc) w of
             (err, variants, w1) \<Rightarrow>
               if err \<noteq> cargo_success
               then (mux_error_out_of_memory, snd (sv_destroy 4 variants w1))
               else case allocator_create allocator_info Obj_kernel
                           (kernel_construct device allocator_info variants) w1 of
                 (knl, w2) \<Rightarrow>
                   if knl = 0 then (mux_error_out_of_memory, snd (sv_destroy 4 variants w2))
                   else (mux_success, set_cell out_kernel knl
                          (snd (sv_destroy 4 (snd (sv_move_new 4 knl variants)) w2)))))"

definition kernel_destruct :: "ptr \<Rightarrow> 'a host_proc" where
  "kernel_destruct knl w =
     (case sv_destroy 4 (variant_data (host_kernels w knl)) w of (variants, w1) \<Rightarrow>
        w1\<lparr>host_kernels := (host_kernels w1)
             (knl := (host_kernels w1 knl)\<lparr>variant_data := variants\<rparr>)\<rparr>)"

definition hostDestroyKernel :: "ptr \<Rightarrow> ptr \<Rightarrow> mux_allocator_info_s \<Rightarrow> 'a host_proc" where
  "hostDestroyKernel device knl allocator_info w =
     allocator_destroy allocator_info kernel_destruct knl w"

section \<open>Choosing a variant\<close>

text \<open>The remainder of a \<^verbatim>\<open>size_t\<close> by a \<^verbatim>\<open>uint32_t\<close>; the remainder by zero is undefined.\<close>

definition size_mod :: "u64 \<Rightarrow> u32 \<Rightarrow> u64 option" where
  "size_mod a b = (if b = 0 then None else Some (a mod ucast b))"

definition isLegalKernelVariant :: "kernel_variant_s \<Rightarrow> u64 \<Rightarrow> u64 \<Rightarrow> u64 \<Rightarrow> bool option" where
  "isLegalKernelVariant variant local_size_x local_size_y local_size_z =
     (case size_mod local_size_x (min_work_width variant) of None \<Rightarrow> None
      | Some r \<Rightarrow>
          if r \<noteq> 0 then Some False
          else if sub_group_size variant \<noteq> 0
          then map_option (\<lambda>r. r = 0) (size_mod local_size_x (sub_group_size variant))
          else Some True)"

text \<open>Whether the variant \<open>v\<close> replaces the best one so far.\<close>

definition replaces_variant :: "u64 \<Rightarrow> kernel_variant_s \<Rightarrow> kernel_variant_s \<Rightarrow> bool option" where
  "replaces_variant local_size_x best v =
     (if pref_work_width v = pref_work_width best
      then Some (sub_group_size best = 0 \<and> sub_group_size v \<noteq> 0)
      else if pref_work_width v > pref_work_width best \<and> local_size_x \<ge> ucast (pref_work_width v)
      then case size_mod local_size_x (pref_work_width v) of None \<Rightarrow> None
        | Some r \<Rightarrow>
            if r = 0 then Some True
            else map_option (\<lambda>r. r \<noteq> 0) (size_mod local_size_x (pref_work_width best))
      else Some False)"

fun best_variant ::
  "u64 \<Rightarrow> u64 \<Rightarrow> u64 \<Rightarrow> kernel_variant_s option \<Rightarrow> kernel_variant_s list
    \<Rightarrow> kernel_variant_s option option" where
  "best_variant x y z best [] = Some best"
| "best_variant x y z best (v # vs) =
     (case isLegalKernelVariant v x y z of None \<Rightarrow> None
      | Some False \<Rightarrow> best_variant x y z best vs
      | Some True \<Rightarrow>
          (case best of None \<Rightarrow> best_variant x y z (Some v) vs
           | Some b \<Rightarrow>
               (case replaces_variant x b v of None \<Rightarrow> None
                | Some r \<Rightarrow> best_variant x y z (Some (if r then v else b)) vs)))"

definition getKernelVariantForWGSize ::
  "ptr \<Rightarrow> u64 \<Rightarrow> u64 \<Rightarrow> u64 \<Rightarrow> 'a host_world_scheme \<Rightarrow> (mux_result_t + kernel_variant_s) option" where
  "getKernelVariantForWGSize knl x y z w =
     (case best_variant x y z None (sv_elems (variant_data (host_kernels w knl))) of
        None \<Rightarrow> None
      | Some None \<Rightarrow> Some (Inl mux_error_failure)
      | Some (Some v) \<Rightarrow> Some (Inr v))"

section \<open>Sub-groups\<close>

definition hostQuerySubGroupSizeForLocalSize ::
  "ptr \<Rightarrow> u64 \<Rightarrow> u64 \<Rightarrow> u64 \<Rightarrow> ptr \<Rightarrow> 'a host_world_scheme
    \<Rightarrow> (mux_result_t \<times> 'a host_world_scheme) option" where
  "hostQuerySubGroupSizeForLocalSize knl x y z out_sub_group_size w =
     (case getKernelVariantForWGSize knl x y z w of None \<Rightarrow> None
      | Some (Inl err) \<Rightarrow> Some (err, w)
      | Some (Inr variant) \<Rightarrow>
          Some (mux_success, set_cell out_sub_group_size
            (if sub_group_size variant = 0 then x * y * z
             else min x (ucast (sub_group_size variant))) w))"

definition hostQueryWFVInfoForLocalSize ::
  "ptr \<Rightarrow> u64 \<Rightarrow> u64 \<Rightarrow> u64 \<Rightarrow> ptr \<Rightarrow> ptr \<Rightarrow> ptr \<Rightarrow> ptr \<Rightarrow> 'a host_call" where
  "hostQueryWFVInfoForLocalSize knl x y z out_status out_x out_y out_z w =
     (mux_error_feature_unsupported, w)"

definition hostQueryLocalSizeForSubGroupCount ::
  "ptr \<Rightarrow> u64 \<Rightarrow> ptr \<Rightarrow> ptr \<Rightarrow> ptr \<Rightarrow> 'a host_call" where
  "hostQueryLocalSizeForSubGroupCount knl sub_group_count out_x out_y out_z w =
     (let v = (if sub_group_count = 1 then 1 else 0)
      in (mux_success, set_cell out_z v (set_cell out_y v (set_cell out_x v w))))"

definition min_sub_group_size :: "kernel_variant_s list \<Rightarrow> u64" where
  "min_sub_group_size vs =
     fold (\<lambda>v m. if sub_group_size v \<noteq> 0 \<and> m > ucast (sub_group_size v)
                 then ucast (sub_group_size v) else m) vs (- 1)"

definition hostQueryMaxNumSubGroups :: "ptr \<Rightarrow> ptr \<Rightarrow> 'a host_call" where
  "hostQueryMaxNumSubGroups knl out_max_num_sub_groups w =
     (let smallest = min_sub_group_size (sv_elems (variant_data (host_kernels w knl)))
      in (mux_success, set_cell out_max_num_sub_groups
           (if smallest = - 1 then 1
            else ucast (max_concurrent_work_items (info_of w (kernel_device (kernels w knl))))
                   div smallest) w))"

section \<open>A built-in kernel\<close>

text \<open>The range of elements that slice \<open>idx\<close> of \<open>total_slices\<close> copies in \<^verbatim>\<open>copy_buffer\<close>.\<close>

definition copy_buffer_bounds :: "u64 list \<Rightarrow> u64 \<Rightarrow> u64 \<Rightarrow> u64 \<times> u64" where
  "copy_buffer_bounds sizes idx total_slices =
     (let total = sizes ! 0 * sizes ! 1 * sizes ! 2;
          slice_size = total div total_slices;
          remainder = total mod total_slices;
          upper = slice_size * (idx + 1)
      in (slice_size * idx,
          if remainder \<noteq> 0 \<and> total_slices - 1 = idx then upper + remainder else upper))"

section \<open>What a good choice is\<close>

text \<open>A variant is legal for a work-group, and a whole number of its preferred widths fits it.\<close>

definition legal_for :: "u64 \<Rightarrow> kernel_variant_s \<Rightarrow> bool" where
  "legal_for x v \<longleftrightarrow> x mod ucast (min_work_width v) = 0 \<and>
     (sub_group_size v \<noteq> 0 \<longrightarrow> x mod ucast (sub_group_size v) = 0)"

definition fits :: "u64 \<Rightarrow> kernel_variant_s \<Rightarrow> bool" where
  "fits x v \<longleftrightarrow> ucast (pref_work_width v) \<le> x \<and> x mod ucast (pref_work_width v) = 0"

text \<open>What the scan of \<open>vs\<close> that starts with \<open>best\<close> may return.\<close>

definition best_ok ::
  "u64 \<Rightarrow> kernel_variant_s option \<Rightarrow> kernel_variant_s list \<Rightarrow> kernel_variant_s option \<Rightarrow> bool" where
  "best_ok x best vs res \<longleftrightarrow> (case res of
       None \<Rightarrow> best = None \<and> (\<forall>v \<in> set vs. \<not> legal_for x v)
     | Some r \<Rightarrow> (r \<in> set vs \<or> best = Some r) \<and> legal_for x r \<and>
         (\<forall>b. best = Some b \<longrightarrow> pref_work_width b \<le> pref_work_width r) \<and>
         (\<forall>v \<in> set vs. legal_for x v \<longrightarrow> fits x v \<longrightarrow> pref_work_width v \<le> pref_work_width r))"

definition demo_variant :: "u32 \<Rightarrow> u32 \<Rightarrow> kernel_variant_s" where
  "demo_variant width sub_group = \<lparr>variant_name = ''f'', hook = 0x10, local_memory_used = 0,
     min_work_width = 1, pref_work_width = width, sub_group_size = sub_group\<rparr>"

definition demo_kernel_world :: host_world where
  "demo_kernel_world = empty_host_world\<lparr>host_kernels := (\<lambda>_.
     \<lparr>is_builtin_kernel = False, kernel_allocator_info = two_slot_allocator,
      variant_data = (sv_new 4 0x10 two_slot_allocator)
        \<lparr>sv_elems := [demo_variant 1 0, demo_variant 4 0, demo_variant 8 8, demo_variant 4 4]\<rparr>\<rparr>)\<rparr>"

section \<open>Properties of the choice\<close>

lemma isLegal_eq:
  "min_work_width v \<noteq> 0 \<Longrightarrow> isLegalKernelVariant v x y z = Some (legal_for x v)"
  by (simp add: isLegalKernelVariant_def size_mod_def legal_for_def)

lemma replaces_eq:
  assumes "pref_work_width best \<noteq> 0"
  shows "\<exists>r. replaces_variant x best v = Some r \<and>
     (r \<longrightarrow> pref_work_width best \<le> pref_work_width v) \<and>
     (\<not> r \<longrightarrow> fits x v \<longrightarrow> pref_work_width v \<le> pref_work_width best)"
proof -
  consider (same) "pref_work_width v = pref_work_width best"
    | (wider) "pref_work_width best < pref_work_width v" "ucast (pref_work_width v) \<le> x"
    | (narrower) "pref_work_width v \<noteq> pref_work_width best"
        "\<not> (pref_work_width best < pref_work_width v \<and> ucast (pref_work_width v) \<le> x)"
    by blast
  then show ?thesis
  proof cases
    case same
    then show ?thesis
      by (simp add: replaces_variant_def)
  next
    case wider
    then have "pref_work_width v \<noteq> 0" and "pref_work_width v \<noteq> pref_work_width best"
      by auto
    then show ?thesis
      using wider assms
      by (cases "x mod ucast (pref_work_width v) = 0")
         (simp_all add: replaces_variant_def size_mod_def fits_def less_imp_le ex_bool_eq)
  next
    case narrower
    then have "replaces_variant x best v = Some False"
      unfolding replaces_variant_def by (simp only: if_False)
    then show ?thesis
      using narrower(2) by (auto simp: fits_def not_less)
  qed
qed

lemma best_ok_Nil: "(\<forall>b. best = Some b \<longrightarrow> legal_for x b) \<Longrightarrow> best_ok x best [] best"
  by (auto simp: best_ok_def split: option.splits)

lemma best_ok_skip: "\<not> legal_for x v \<Longrightarrow> best_ok x best vs res \<Longrightarrow> best_ok x best (v # vs) res"
  by (auto simp: best_ok_def split: option.splits)

lemma best_ok_first: "best_ok x (Some v) vs res \<Longrightarrow> best_ok x None (v # vs) res"
  by (auto simp: best_ok_def split: option.splits)

lemma best_ok_replace:
  "pref_work_width b \<le> pref_work_width v \<Longrightarrow> best_ok x (Some v) vs res \<Longrightarrow>
     best_ok x (Some b) (v # vs) res"
  by (cases res) (auto simp: best_ok_def)

lemma best_ok_keep:
  "(fits x v \<longrightarrow> pref_work_width v \<le> pref_work_width b) \<Longrightarrow> best_ok x (Some b) vs res \<Longrightarrow>
     best_ok x (Some b) (v # vs) res"
  by (cases res) (auto simp: best_ok_def)

lemma best_variant_spec:
  assumes "\<forall>v \<in> set vs. min_work_width v \<noteq> 0 \<and> pref_work_width v \<noteq> 0"
    and "\<forall>b. best = Some b \<longrightarrow> pref_work_width b \<noteq> 0 \<and> legal_for x b"
  shows "\<exists>res. best_variant x y z best vs = Some res \<and> best_ok x best vs res"
  using assms
proof (induction vs arbitrary: best)
  case Nil
  then show ?case
    by (simp add: best_ok_Nil)
next
  case (Cons v vs)
  have v: "min_work_width v \<noteq> 0" "pref_work_width v \<noteq> 0"
    and vs: "\<forall>v \<in> set vs. min_work_width v \<noteq> 0 \<and> pref_work_width v \<noteq> 0"
    using Cons.prems(1) by simp_all
  note eq = isLegal_eq [OF v(1), of x y z]
  show ?case
  proof (cases "legal_for x v")
    case False
    then show ?thesis
      using Cons.IH [OF vs Cons.prems(2)] eq best_ok_skip by fastforce
  next
    case legal: True
    show ?thesis
    proof (cases best)
      case None
      from Cons.IH [OF vs, of "Some v"] v legal obtain res where
        "best_variant x y z (Some v) vs = Some res" "best_ok x (Some v) vs res"
        by blast
      then show ?thesis
        using None legal eq best_ok_first by simp
    next
      case (Some b)
      obtain r where r: "replaces_variant x b v = Some r"
        "r \<longrightarrow> pref_work_width b \<le> pref_work_width v"
        "\<not> r \<longrightarrow> fits x v \<longrightarrow> pref_work_width v \<le> pref_work_width b"
        using replaces_eq [of b x v] Cons.prems(2) Some by blast
      let ?b = "if r then v else b"
      have "\<forall>c. Some ?b = Some c \<longrightarrow> pref_work_width c \<noteq> 0 \<and> legal_for x c"
        using v legal Cons.prems(2) Some by simp
      from Cons.IH [OF vs this] obtain res where
        res: "best_variant x y z (Some ?b) vs = Some res" "best_ok x (Some ?b) vs res"
        by blast
      have "best_ok x (Some b) (v # vs) res"
        using res(2) r best_ok_replace [of b v x vs res] best_ok_keep [of x v b vs res]
        by (cases r) simp_all
      then show ?thesis
        using res(1) r(1) Some legal eq by simp
    qed
  qed
qed

lemma variant_cases:
  assumes "\<forall>v \<in> set (sv_elems (variant_data (host_kernels w knl))).
             min_work_width v \<noteq> 0 \<and> pref_work_width v \<noteq> 0"
  obtains (none) "getKernelVariantForWGSize knl x y z w = Some (Inl mux_error_failure)"
      "best_ok x None (sv_elems (variant_data (host_kernels w knl))) None"
    | (some) v where "getKernelVariantForWGSize knl x y z w = Some (Inr v)"
      "best_ok x None (sv_elems (variant_data (host_kernels w knl))) (Some v)"
proof -
  obtain res where res: "best_variant x y z None (sv_elems (variant_data (host_kernels w knl))) = Some res"
    "best_ok x None (sv_elems (variant_data (host_kernels w knl))) res"
    using best_variant_spec [OF assms, of None x y z] by blast
  show thesis
    using res none some by (cases res) (simp_all add: getKernelVariantForWGSize_def)
qed

text \<open>
  C22: where no variant has a zero width, \<^verbatim>\<open>getKernelVariantForWGSize\<close> never divides by zero; it
  returns a variant of the kernel that is legal for the work-group and at least as wide as every
  legal variant whose preferred width divides the local size, or fails, exactly when no variant of
  the kernel is legal.
\<close>

theorem variant_choice:
  assumes "\<forall>v \<in> set (sv_elems (variant_data (host_kernels w knl))).
             min_work_width v \<noteq> 0 \<and> pref_work_width v \<noteq> 0"
  shows "case getKernelVariantForWGSize knl x y z w of
       Some (Inr v) \<Rightarrow> v \<in> set (sv_elems (variant_data (host_kernels w knl))) \<and> legal_for x v \<and>
         (\<forall>u \<in> set (sv_elems (variant_data (host_kernels w knl))).
            legal_for x u \<longrightarrow> fits x u \<longrightarrow> pref_work_width u \<le> pref_work_width v)
     | Some (Inl e) \<Rightarrow> e = mux_error_failure \<and>
         (\<forall>u \<in> set (sv_elems (variant_data (host_kernels w knl))). \<not> legal_for x u)
     | None \<Rightarrow> False"
  by (rule variant_cases [OF assms, of x y z]) (simp_all add: best_ok_def)

theorem variant_choice_witness:
  "getKernelVariantForWGSize 0x30 12 1 1 demo_kernel_world = Some (Inr (demo_variant 4 4)) \<and>
   legal_for 12 (demo_variant 4 4) \<and> fits 12 (demo_variant 4 0)"
proof -
  have run: "getKernelVariantForWGSize 0x30 12 1 1 demo_kernel_world = Some (Inr (demo_variant 4 4))"
    by (simp add: getKernelVariantForWGSize_def demo_kernel_world_def isLegalKernelVariant_def size_mod_def replaces_variant_def
      demo_variant_def)
  show ?thesis
    using variant_choice [of demo_kernel_world "0x30" 12 1 1] run
    by (simp add: demo_kernel_world_def) (simp add: demo_variant_def fits_def)
qed

lemma sub_group_size_ok:
  assumes "legal_for x v" and "x \<noteq> 0" and "sub_group_size v \<noteq> 0"
  shows "min x (ucast (sub_group_size v)) = ucast (sub_group_size v)"
    and "unat (sub_group_size v) dvd unat x"
proof -
  have "unat (x mod ucast (sub_group_size v)) = 0"
    using assms(1,3) by (simp only: legal_for_def simp_thms unat_0)
  then have "unat x mod unat (sub_group_size v) = 0"
    by (simp only: unat_mod unat_ucast_32_64)
  then show d: "unat (sub_group_size v) dvd unat x"
    by (rule mod_0_imp_dvd)
  have "0 < unat x"
    using assms(2) by simp
  then have "unat (sub_group_size v) \<le> unat x"
    using d by (intro dvd_imp_le)
  then have "ucast (sub_group_size v) \<le> x"
    by (simp only: word_le_nat_alt unat_ucast_32_64)
  then show "min x (ucast (sub_group_size v)) = ucast (sub_group_size v)"
    by (rule min_absorb2)
qed

text \<open>
  The sub-group size which \<^verbatim>\<open>hostQuerySubGroupSizeForLocalSize\<close> reports divides the number of
  work-items of the work-group, when that number fits a \<^verbatim>\<open>size_t\<close>.
\<close>

lemma sub_groups_tile:
  assumes "\<forall>v \<in> set (sv_elems (variant_data (host_kernels w knl))).
             min_work_width v \<noteq> 0 \<and> pref_work_width v \<noteq> 0"
    and "x \<noteq> 0" and "unat x * unat y * unat z < 2 ^ 64"
    and "hostQuerySubGroupSizeForLocalSize knl x y z out w = Some (mux_success, w')"
  shows "unat (cells w' out) dvd unat x * unat y * unat z"
proof -
  obtain v where v: "getKernelVariantForWGSize knl x y z w = Some (Inr v)" and legal: "legal_for x v"
    using assms(4) by (rule_tac variant_cases [OF assms(1), of x y z])
      (simp_all add: hostQuerySubGroupSizeForLocalSize_def best_ok_def)
  have w': "w' = set_cell out (if sub_group_size v = 0 then x * y * z
             else min x (ucast (sub_group_size v))) w"
    using assms(4) v by (simp add: hostQuerySubGroupSizeForLocalSize_def)
  show ?thesis
  proof (cases "sub_group_size v = 0")
    case True
    have "x * y * z = of_nat (unat x * unat y * unat z)"
      by (simp add: of_nat_unat)
    then have "unat (x * y * z) = unat x * unat y * unat z"
      using assms(3) unat_of_nat [of "unat x * unat y * unat z", where 'a = 64] by simp
    then show ?thesis
      using True by (simp add: w' set_cell_def)
  next
    case False
    then have "cells w' out = ucast (sub_group_size v)"
      by (simp add: w' set_cell_def sub_group_size_ok(1) [OF legal assms(2)])
    then have "unat (cells w' out) = unat (sub_group_size v)"
      by simp
    then show ?thesis
      using sub_group_size_ok(2) [OF legal assms(2) False] by (simp only: dvd_mult2)
  qed
qed

section \<open>Properties of the slices\<close>

lemma slice_unique:
  fixes q n k :: nat
  assumes "0 < n"
  shows "\<exists>!i. i < n \<and> q * i \<le> k \<and> (Suc i = n \<or> k < q * Suc i)"
  using assms
proof (induction n)
  case (Suc n)
  show ?case
  proof (cases "q * n \<le> k")
    case True
    have "i = n" if "i < Suc n" "Suc i = Suc n \<or> k < q * Suc i" for i
      using that True mult_le_mono2 [of "Suc i" n q] by fastforce
    then show ?thesis
      using True by (intro ex1I [of _ n]) auto
  next
    case False
    then have n: "0 < n"
      by (cases n) auto
    have "(i < Suc n \<and> q * i \<le> k \<and> (Suc i = Suc n \<or> k < q * Suc i))
        \<longleftrightarrow> (i < n \<and> q * i \<le> k \<and> (Suc i = n \<or> k < q * Suc i))" for i
      using False by (cases "i = n") auto
    then show ?thesis
      using Suc.IH [OF n] by simp
  qed
qed simp

lemma copy_buffer_bounds_nat:
  assumes i: "i < unat n" and t: "t = sizes ! 0 * sizes ! 1 * sizes ! 2"
  shows "unat (fst (copy_buffer_bounds sizes (of_nat i) n)) = unat t div unat n * i"
    and "unat (snd (copy_buffer_bounds sizes (of_nat i) n))
           = (if Suc i = unat n then unat t else unat t div unat n * Suc i)"
proof -
  let ?q = "unat t div unat n"
  have T: "unat t < 2 ^ 64" and n: "unat n < 2 ^ 64"
    using unsigned_less [of t, where 'a = nat] unsigned_less [of n, where 'a = nat] by simp_all
  have unat_i: "unat (of_nat i :: u64) = i" "unat (of_nat i + 1 :: u64) = Suc i"
    using i n by (simp_all add: unat_of_nat unat_word_ariths)
  have "?q * Suc i \<le> ?q * unat n" and "?q * unat n \<le> unat t"
    using i by (simp_all only: Suc_le_eq mult_le_mono2 div_times_less_eq_dividend)
  then have le: "?q * Suc i < 2 ^ 64"
    using T by linarith
  then have le': "?q * i < 2 ^ 64"
    by (simp only: mult_Suc_right)
  have lower: "unat (t div n * of_nat i) = ?q * i"
    using le' by (subst unat_times_no_wrap) (simp_all add: unat_div unat_i)
  have upper: "unat (t div n * (of_nat i + 1)) = ?q * Suc i"
    using le by (subst unat_times_no_wrap) (simp_all add: unat_div unat_i)
  show "unat (fst (copy_buffer_bounds sizes (of_nat i) n)) = ?q * i"
    unfolding copy_buffer_bounds_def Let_def fst_conv t [symmetric] by (rule lower)
  have last: "n - 1 = of_nat i \<longleftrightarrow> Suc i = unat n"
  proof -
    have "n \<noteq> 0"
      using i by auto
    then have "unat (n - 1) = unat n - 1"
      by (rule unat_minus_1)
    then show ?thesis
      using i unat_i(1) unfolding word_unat_eq_iff by linarith
  qed
  have sum: "?q * unat n + unat t mod unat n = unat t"
    by (rule div_mult_mod_eq)
  have all: "unat (t div n * (of_nat i + 1) + t mod n) = unat t" if "Suc i = unat n"
  proof -
    have "unat (t div n * (of_nat i + 1)) + unat (t mod n) = unat t"
      using sum that by (simp only: upper unat_mod)
    then show ?thesis
      using T by (subst unat_plus_no_wrap) simp_all
  qed
  have none: "?q * Suc i = unat t" if "Suc i = unat n" "t mod n = 0"
    using sum unfolding unat_mod [symmetric] that by (simp only: unsigned_0 add_0_right)
  show "unat (snd (copy_buffer_bounds sizes (of_nat i) n))
      = (if Suc i = unat n then unat t else ?q * Suc i)"
    unfolding copy_buffer_bounds_def Let_def snd_conv t [symmetric] last
    using all none upper by (simp del: mult_Suc_right)
qed

text \<open>
  C33: the slices of the built-in kernel \<^verbatim>\<open>copy_buffer\<close> tile the range: every element is
  copied by exactly one slice, also where the number of slices does not divide the number of
  elements.
\<close>

theorem copy_buffer_slices_tile:
  assumes "total_slices \<noteq> 0" and "k < unat (sizes ! 0 * sizes ! 1 * sizes ! 2)"
  shows "\<exists>!i. i < unat total_slices \<and>
     unat (fst (copy_buffer_bounds sizes (of_nat i) total_slices)) \<le> k \<and>
     k < unat (snd (copy_buffer_bounds sizes (of_nat i) total_slices))"
proof -
  let ?n = "unat total_slices" and ?T = "unat (sizes ! 0 * sizes ! 1 * sizes ! 2)"
  let ?q = "?T div ?n"
  have n: "0 < ?n"
    using assms(1) by simp
  have bounds: "(unat (fst (copy_buffer_bounds sizes (of_nat i) total_slices)) \<le> k \<and>
     k < unat (snd (copy_buffer_bounds sizes (of_nat i) total_slices)))
      \<longleftrightarrow> ?q * i \<le> k \<and> (Suc i = ?n \<or> k < ?q * Suc i)" if "i < ?n" for i
    unfolding copy_buffer_bounds_nat [OF that refl]
    by (cases "Suc i = ?n") (simp_all only: assms(2) if_True if_False simp_thms)
  show ?thesis
    using slice_unique [OF n, of ?q k] by (simp only: bounds cong: conj_cong)
qed

theorem copy_buffer_slices_tile_witness:
  "\<exists>!i. i < unat (3 :: u64) \<and>
     unat (fst (copy_buffer_bounds [10, 1, 1] (of_nat i) 3)) \<le> 9 \<and>
     9 < unat (snd (copy_buffer_bounds [10, 1, 1] (of_nat i) 3))"
  by (rule copy_buffer_slices_tile) simp_all

end
