(* ===== verification/Host_Command_Buffer.thy ===== *)
theory Host_Command_Buffer
  imports Host_Objects Host_Scheduler
begin

text \<open>
  The command buffers of the host target (\<^verbatim>\<open>command_buffer.cpp\<close> of
  \<^verbatim>\<open>modules/mux/targets/host/source\<close>): recording commands, packing the arguments of ND-ranges,
  updating, cloning and destroying. The arrays that a caller passes are lists. An operation is
  \<^term>\<open>None\<close> where the code reads outside an array or through a null pointer, or where an assertion
  fails; \<open>frame\<close> is the address of a local variable that the code passes by address. The
  \<^verbatim>\<open>ndrange_info_s\<close> objects are allocated by \<^verbatim>\<open>new\<close>, not by the allocator of the caller.
\<close>

section \<open>Packed arguments\<close>

fun descriptor_size :: "mux_descriptor_info_s \<Rightarrow> u64" where
  "descriptor_size (Descriptor_sampler s) = 8"
| "descriptor_size (Descriptor_buffer b off) = 8"
| "descriptor_size Descriptor_null_buffer = 8"
| "descriptor_size (Descriptor_image i) = 8"
| "descriptor_size (Descriptor_plain_old_data data len) = len"
| "descriptor_size (Descriptor_shared_local_buffer sz) = 8"
| "descriptor_size (Descriptor_custom_buffer data sz space) = 0"

text \<open>The offsets of the arguments from \<open>offset\<close> on, and the offset after the last.\<close>

fun packed_offsets :: "u64 \<Rightarrow> mux_descriptor_info_s list \<Rightarrow> u64 list \<times> u64" where
  "packed_offsets offset [] = ([], offset)"
| "packed_offsets offset (d # ds) =
     (case packed_offsets (offset + descriptor_size d) ds of (os, sz) \<Rightarrow> (offset # os, sz))"

definition calcPackedArgsAllocSize ::
  "mux_descriptor_info_s dynamic_array \<Rightarrow> u64 dynamic_array \<Rightarrow> u64 \<times> u64 dynamic_array" where
  "calcPackedArgsAllocSize descriptors offsets =
     (case packed_offsets 0 (da_elems descriptors) of (os, sz) \<Rightarrow>
        (sz, offsets\<lparr>da_elems := os\<rparr>))"

text \<open>One argument at the address \<open>p\<close>, and the step of the offset after it.\<close>

fun write_argument ::
  "(ptr \<Rightarrow> host_buffer_s) \<Rightarrow> mux_descriptor_info_s \<Rightarrow> ptr \<Rightarrow> byte_memory \<Rightarrow> byte_memory \<times> u64" where
  "write_argument bufs (Descriptor_buffer b off) p m = (store64 p (buffer_data (bufs b) + off) m, 8)"
| "write_argument bufs (Descriptor_image i) p m = (m, 0)"
| "write_argument bufs (Descriptor_sampler s) p m = (m, 0)"
| "write_argument bufs (Descriptor_plain_old_data data len) p m = (memcpy p data len m, len)"
| "write_argument bufs (Descriptor_shared_local_buffer sz) p m = (store64 p sz m, 8)"
| "write_argument bufs Descriptor_null_buffer p m = (store64 p 0 m, 8)"
| "write_argument bufs (Descriptor_custom_buffer data sz space) p m = (m, 0)"

fun write_arguments ::
  "(ptr \<Rightarrow> host_buffer_s) \<Rightarrow> mux_descriptor_info_s list \<Rightarrow> ptr \<Rightarrow> byte_memory \<Rightarrow> byte_memory" where
  "write_arguments bufs [] p m = m"
| "write_arguments bufs (d # ds) p m =
     (case write_argument bufs d p m of (m1, n) \<Rightarrow> write_arguments bufs ds (p + n) m1)"

definition populatePackedArgs :: "ptr \<Rightarrow> mux_descriptor_info_s dynamic_array \<Rightarrow> 'a host_proc" where
  "populatePackedArgs packed_args_alloc descriptors w =
     w\<lparr>mem := write_arguments (host_buffers w) (da_elems descriptors) packed_args_alloc (mem w)\<rparr>"

section \<open>Objects\<close>

text \<open>The constructor does not initialise \<^verbatim>\<open>user_function\<close> and \<^verbatim>\<open>user_data\<close>.\<close>

definition command_buffer_construct ::
  "ptr \<Rightarrow> mux_allocator_info_s \<Rightarrow> ptr \<Rightarrow> ptr \<Rightarrow> 'a host_proc" where
  "command_buffer_construct device allocator_info fence p w =
     set_host_command_buffer p ((host_command_buffers w p)
       \<lparr>commands := sv_new 16 p allocator_info, ndranges := sv_new 4 p allocator_info,
        cb_sync_points := sv_new 4 p allocator_info,
        signal_semaphores := sv_new 8 p allocator_info,
        cb_fence := fence, cb_allocator_info := allocator_info\<rparr>)
       (w\<lparr>command_buffers := (command_buffers w)
            (p := (command_buffers w p)\<lparr>command_buffer_device := device\<rparr>)\<rparr>)"

definition ndrange_destroy :: "ndrange_info_s \<Rightarrow> 'a host_proc" where
  "ndrange_destroy info w = da_destroy (arg_addresses info) (da_destroy (ndr_descriptors info) w)"

text \<open>The destructor destroys the fence, then the members in the reverse order of declaration.\<close>

definition command_buffer_destruct :: "ptr \<Rightarrow> 'a host_proc" where
  "command_buffer_destruct p w =
     (let cb = host_command_buffers w p;
          w1 = hostDestroyFence (command_buffer_device (command_buffers w p)) (cb_fence cb)
                 (cb_allocator_info cb) w;
          w2 = snd (sv_destroy 8 (signal_semaphores cb) w1);
          w3 = snd (sv_destroy 4 (cb_sync_points cb) w2);
          w4 = fold ndrange_destroy (sv_elems (ndranges cb)) w3;
          w5 = snd (sv_destroy 4 (ndranges cb) w4)
      in snd (sv_destroy 16 (commands cb) w5))"

definition sync_point_construct :: "ptr \<Rightarrow> ptr \<Rightarrow> 'a host_proc" where
  "sync_point_construct command_buffer p w =
     w\<lparr>sync_points := (sync_points w)
         (p := (sync_points w p)\<lparr>sync_point_command_buffer := command_buffer\<rparr>)\<rparr>"

text \<open>
  \<^verbatim>\<open>ndrange_info_s::clone\<close>; the local arrays are destroyed in the reverse order on every path,
  an array whose allocation failed and one that was moved from own nothing.
\<close>

definition ndrange_clone ::
  "ndrange_info_s \<Rightarrow> mux_allocator_info_s \<Rightarrow> 'a host_world_scheme
    \<Rightarrow> (mux_result_t + ndrange_info_s) \<times> 'a host_world_scheme" where
  "ndrange_clone info allocator_info w =
     (let n = da_size (ndr_descriptors info) in
      case da_alloc Obj_descriptor_info (Descriptor_buffer 0 0) n (da_new allocator_info) w of
        (e1, clone_descriptors, w1) \<Rightarrow>
      if e1 \<noteq> cargo_success then (Inl mux_error_out_of_memory, da_destroy clone_descriptors w1)
      else let clone_descriptors = clone_descriptors\<lparr>da_elems := da_elems (ndr_descriptors info)\<rparr> in
      case da_alloc Obj_size_t (0 :: u64) n (da_new allocator_info) w1 of (e2, clone_offsets, w2) \<Rightarrow>
      if e2 \<noteq> cargo_success
      then (Inl mux_error_out_of_memory, da_destroy clone_descriptors (da_destroy clone_offsets w2))
      else case calcPackedArgsAllocSize clone_descriptors clone_offsets of
        (packed_args_alloc_size, clone_offsets) \<Rightarrow>
      case allocator_alloc allocator_info (Request_bytes packed_args_alloc_size 1) w2 of
        (packed_args_allocation, w3) \<Rightarrow>
      if packed_args_allocation = 0
      then (Inl mux_error_out_of_memory, da_destroy clone_descriptors (da_destroy clone_offsets w3))
      else case da_alloc Obj_byte_ptr 0 n (da_new allocator_info) w3 of
        (e4, clone_arg_addresses, w4) \<Rightarrow>
      if e4 \<noteq> cargo_success
      then (Inl mux_error_out_of_memory,
            da_destroy clone_descriptors (da_destroy clone_offsets (da_destroy clone_arg_addresses w4)))
      else let clone_arg_addresses = clone_arg_addresses
                 \<lparr>da_elems := map ((+) packed_args_allocation) (da_elems clone_offsets)\<rparr>;
               w5 = w4\<lparr>mem := memcpy packed_args_allocation (packed_args info)
                                 packed_args_alloc_size (mem w4)\<rparr>
        in (Inr (info\<lparr>packed_args := packed_args_allocation,
                      arg_addresses := fst (da_move_new clone_arg_addresses),
                      ndr_descriptors := fst (da_move_new clone_descriptors)\<rparr>),
            da_destroy clone_offsets w5))"

section \<open>Recording\<close>

definition hostCreateCommandBuffer ::
  "ptr \<Rightarrow> ptr \<Rightarrow> ptr \<Rightarrow> mux_allocator_info_s \<Rightarrow> ptr \<Rightarrow> 'a host_call" where
  "hostCreateCommandBuffer frame device callback_info allocator_info out_command_buffer w =
     (case hostCreateFence device allocator_info frame w of (result, w1) \<Rightarrow>
      if result \<noteq> mux_success then (mux_error_out_of_memory, w1)
      else case allocator_create allocator_info Obj_command_buffer
                  (command_buffer_construct device allocator_info (cells w1 frame)) w1 of
        (command_buffer, w2) \<Rightarrow>
          if command_buffer = 0 then (mux_error_out_of_memory, w2)
          else (mux_success, set_cell out_command_buffer command_buffer w2))"

text \<open>The block at the end of every function that records a command.\<close>

definition add_sync_point :: "ptr \<Rightarrow> ptr \<Rightarrow> 'a host_call" where
  "add_sync_point command_buffer sync_point w =
     (if sync_point = 0 then (mux_success, w)
      else case allocator_create (cb_allocator_info (host_command_buffers w command_buffer))
                  Obj_sync_point (sync_point_construct command_buffer) w of (out_sync_point, w1) \<Rightarrow>
        if out_sync_point = 0 then (mux_error_out_of_memory, w1)
        else case sv_push_back Obj_handle 4 out_sync_point
                    (cb_sync_points (host_command_buffers w1 command_buffer)) w1 of
          (error, points, w2) \<Rightarrow>
            (let w3 = set_host_command_buffer command_buffer
                        ((host_command_buffers w2 command_buffer)\<lparr>cb_sync_points := points\<rparr>) w2
             in if error \<noteq> cargo_success then (mux_error_out_of_memory, w3)
                else (mux_success, set_cell sync_point out_sync_point w3)))"

text \<open>\<^verbatim>\<open>commands.emplace_back\<close> for a sequence of commands, up to the first failure.\<close>

definition push_commands ::
  "ptr \<Rightarrow> command_info_s list \<Rightarrow> 'a host_world_scheme \<Rightarrow> cargo_result \<times> 'a host_world_scheme" where
  "push_commands command_buffer new w =
     (case sv_push_all Obj_command_info 16 new
             (commands (host_command_buffers w command_buffer)) w of (error, cmds, w1) \<Rightarrow>
        (error, set_host_command_buffer command_buffer
           ((host_command_buffers w1 command_buffer)\<lparr>commands := cmds\<rparr>) w1))"

definition record_commands :: "ptr \<Rightarrow> command_info_s list \<Rightarrow> ptr \<Rightarrow> 'a host_call" where
  "record_commands command_buffer new sync_point w =
     (case push_commands command_buffer new w of (error, w1) \<Rightarrow>
        if error \<noteq> cargo_success then (mux_error_out_of_memory, w1)
        else add_sync_point command_buffer sync_point w1)"

definition hostCommandReadBuffer ::
  "ptr \<Rightarrow> ptr \<Rightarrow> u64 \<Rightarrow> ptr \<Rightarrow> u64 \<Rightarrow> u32 \<Rightarrow> ptr \<Rightarrow> ptr \<Rightarrow> 'a host_call" where
  "hostCommandReadBuffer command_buffer buffer offset host_pointer sz
       num_sync_points_in_wait_list sync_point_wait_list sync_point w =
     record_commands command_buffer [Command_read_buffer buffer offset host_pointer sz] sync_point w"

definition hostCommandWriteBuffer ::
  "ptr \<Rightarrow> ptr \<Rightarrow> u64 \<Rightarrow> ptr \<Rightarrow> u64 \<Rightarrow> u32 \<Rightarrow> ptr \<Rightarrow> ptr \<Rightarrow> 'a host_call" where
  "hostCommandWriteBuffer command_buffer buffer offset host_pointer sz
       num_sync_points_in_wait_list sync_point_wait_list sync_point w =
     record_commands command_buffer [Command_write_buffer buffer offset host_pointer sz] sync_point w"

definition hostCommandCopyBuffer ::
  "ptr \<Rightarrow> ptr \<Rightarrow> u64 \<Rightarrow> ptr \<Rightarrow> u64 \<Rightarrow> u64 \<Rightarrow> u32 \<Rightarrow> ptr \<Rightarrow> ptr \<Rightarrow> 'a host_call" where
  "hostCommandCopyBuffer command_buffer src_buffer src_offset dst_buffer dst_offset sz
       num_sync_points_in_wait_list sync_point_wait_list sync_point w =
     record_commands command_buffer
       [Command_copy_buffer src_buffer src_offset dst_buffer dst_offset sz] sync_point w"

text \<open>
  The rows of a region in the order of the loops over \<open>z\<close> and \<open>y\<close>: the offset of the source, the
  offset of the destination and the size of each.
\<close>

definition host_row_offset :: "mux_extent_3d_s \<Rightarrow> mux_extent_2d_s \<Rightarrow> nat \<Rightarrow> nat \<Rightarrow> u64" where
  "host_row_offset origin desc z y =
     (let slice_offset = (ext_z origin + of_nat z) * ext2_y desc;
          row = (ext_y origin + of_nat y) * ext2_x desc
      in slice_offset + row + ext_x origin)"

definition region_rows :: "mux_buffer_region_info_s \<Rightarrow> (u64 \<times> u64 \<times> u64) list" where
  "region_rows r =
     concat (map (\<lambda>z. map (\<lambda>y. (host_row_offset (src_origin r) (src_desc r) z y,
                               host_row_offset (dst_origin r) (dst_desc r) z y, ext_x (region r)))
                       [0..<unat (ext_y (region r))])
                 [0..<unat (ext_z (region r))])"

text \<open>
  The three functions that record regions differ in the command they make of a row. The first
  \<^verbatim>\<open>reserve\<close> is for the number of regions, the second for the number of rows.
\<close>

definition reserve_commands ::
  "ptr \<Rightarrow> u64 \<Rightarrow> 'a host_world_scheme \<Rightarrow> cargo_result \<times> 'a host_world_scheme" where
  "reserve_commands command_buffer n w =
     (case sv_reserve Obj_command_info 16 (unat n)
             (commands (host_command_buffers w command_buffer)) w of (error, cmds, w1) \<Rightarrow>
        (error, set_host_command_buffer command_buffer
           ((host_command_buffers w1 command_buffer)\<lparr>commands := cmds\<rparr>) w1))"

definition record_regions ::
  "ptr \<Rightarrow> (u64 \<times> u64 \<times> u64 \<Rightarrow> command_info_s) \<Rightarrow> mux_buffer_region_info_s list \<Rightarrow> ptr \<Rightarrow> 'a host_call" where
  "record_regions command_buffer command regions sync_point w =
     (let cmds = of_nat (length (sv_elems (commands (host_command_buffers w command_buffer)))) :: u64
      in case reserve_commands command_buffer (cmds + of_nat (length regions)) w of (e1, w1) \<Rightarrow>
      if e1 \<noteq> cargo_success then (mux_error_out_of_memory, w1)
      else let cmd_count = fold (\<lambda>r n. n + ext_z (region r) * ext_y (region r)) regions 0 + cmds in
      case reserve_commands command_buffer cmd_count w1 of (e2, w2) \<Rightarrow>
      if e2 \<noteq> cargo_success then (mux_error_out_of_memory, w2)
      else record_commands command_buffer (map command (concat (map region_rows regions)))
             sync_point w2)"

definition hostCommandReadBufferRegions ::
  "ptr \<Rightarrow> ptr \<Rightarrow> ptr \<Rightarrow> mux_buffer_region_info_s list \<Rightarrow> u32 \<Rightarrow> ptr \<Rightarrow> ptr \<Rightarrow> 'a host_call" where
  "hostCommandReadBufferRegions command_buffer buffer host_pointer regions
       num_sync_points_in_wait_list sync_point_wait_list sync_point w =
     record_regions command_buffer
       (\<lambda>(src_offset, dst_offset, sz). Command_read_buffer buffer src_offset (host_pointer + dst_offset) sz)
       regions sync_point w"

definition hostCommandWriteBufferRegions ::
  "ptr \<Rightarrow> ptr \<Rightarrow> ptr \<Rightarrow> mux_buffer_region_info_s list \<Rightarrow> u32 \<Rightarrow> ptr \<Rightarrow> ptr \<Rightarrow> 'a host_call" where
  "hostCommandWriteBufferRegions command_buffer buffer host_pointer regions
       num_sync_points_in_wait_list sync_point_wait_list sync_point w =
     record_regions command_buffer
       (\<lambda>(src_offset, dst_offset, sz). Command_write_buffer buffer src_offset (host_pointer + dst_offset) sz)
       regions sync_point w"

definition hostCommandCopyBufferRegions ::
  "ptr \<Rightarrow> ptr \<Rightarrow> ptr \<Rightarrow> mux_buffer_region_info_s list \<Rightarrow> u32 \<Rightarrow> ptr \<Rightarrow> ptr \<Rightarrow> 'a host_call" where
  "hostCommandCopyBufferRegions command_buffer src_buffer dst_buffer regions
       num_sync_points_in_wait_list sync_point_wait_list sync_point w =
     record_regions command_buffer
       (\<lambda>(src_offset, dst_offset, sz). Command_copy_buffer src_buffer src_offset dst_buffer dst_offset sz)
       regions sync_point w"

text \<open>The pattern is copied to an array of 128 bytes.\<close>

definition hostCommandFillBuffer ::
  "ptr \<Rightarrow> ptr \<Rightarrow> u64 \<Rightarrow> u64 \<Rightarrow> ptr \<Rightarrow> u64 \<Rightarrow> u32 \<Rightarrow> ptr \<Rightarrow> ptr \<Rightarrow> 'a host_world_scheme
    \<Rightarrow> (mux_result_t \<times> 'a host_world_scheme) option" where
  "hostCommandFillBuffer command_buffer buffer offset sz pattern_pointer pattern_size
       num_sync_points_in_wait_list sync_point_wait_list sync_point w =
     (if pattern_size > 128 then None
      else Some (record_commands command_buffer
             [Command_fill_buffer buffer offset sz
                (map (\<lambda>i. mem w (pattern_pointer + of_nat i)) [0..<unat pattern_size]) pattern_size]
             sync_point w))"

text \<open>The image commands of the build without image support.\<close>

definition hostCommandReadImage ::
  "ptr \<Rightarrow> ptr \<Rightarrow> mux_offset_3d_s \<Rightarrow> mux_extent_3d_s \<Rightarrow> u64 \<Rightarrow> u64 \<Rightarrow> ptr \<Rightarrow> u32 \<Rightarrow> ptr \<Rightarrow> ptr
    \<Rightarrow> 'a host_call" where
  "hostCommandReadImage command_buffer img offset extent row_size slice_size pointer
       num_sync_points_in_wait_list sync_point_wait_list sync_point w =
     (mux_error_feature_unsupported, w)"

definition hostCommandWriteImage ::
  "ptr \<Rightarrow> ptr \<Rightarrow> mux_offset_3d_s \<Rightarrow> mux_extent_3d_s \<Rightarrow> u64 \<Rightarrow> u64 \<Rightarrow> ptr \<Rightarrow> u32 \<Rightarrow> ptr \<Rightarrow> ptr
    \<Rightarrow> 'a host_call" where
  "hostCommandWriteImage command_buffer img offset extent row_size slice_size pointer
       num_sync_points_in_wait_list sync_point_wait_list sync_point w =
     (mux_error_feature_unsupported, w)"

definition hostCommandFillImage ::
  "ptr \<Rightarrow> ptr \<Rightarrow> ptr \<Rightarrow> u32 \<Rightarrow> mux_offset_3d_s \<Rightarrow> mux_extent_3d_s \<Rightarrow> u32 \<Rightarrow> ptr \<Rightarrow> ptr
    \<Rightarrow> 'a host_call" where
  "hostCommandFillImage command_buffer img color color_size offset extent
       num_sync_points_in_wait_list sync_point_wait_list sync_point w =
     (mux_error_feature_unsupported, w)"

definition hostCommandCopyImage ::
  "ptr \<Rightarrow> ptr \<Rightarrow> ptr \<Rightarrow> mux_offset_3d_s \<Rightarrow> mux_offset_3d_s \<Rightarrow> mux_extent_3d_s \<Rightarrow> u32 \<Rightarrow> ptr \<Rightarrow> ptr
    \<Rightarrow> 'a host_call" where
  "hostCommandCopyImage command_buffer src_image dst_image src_offset dst_offset extent
       num_sync_points_in_wait_list sync_point_wait_list sync_point w =
     (mux_error_feature_unsupported, w)"

definition hostCommandCopyImageToBuffer ::
  "ptr \<Rightarrow> ptr \<Rightarrow> ptr \<Rightarrow> mux_offset_3d_s \<Rightarrow> u64 \<Rightarrow> mux_extent_3d_s \<Rightarrow> u32 \<Rightarrow> ptr \<Rightarrow> ptr
    \<Rightarrow> 'a host_call" where
  "hostCommandCopyImageToBuffer command_buffer src_image dst_buffer src_offset dst_offset extent
       num_sync_points_in_wait_list sync_point_wait_list sync_point w =
     (mux_error_feature_unsupported, w)"

definition hostCommandCopyBufferToImage ::
  "ptr \<Rightarrow> ptr \<Rightarrow> ptr \<Rightarrow> u32 \<Rightarrow> mux_offset_3d_s \<Rightarrow> mux_extent_3d_s \<Rightarrow> u32 \<Rightarrow> ptr \<Rightarrow> ptr
    \<Rightarrow> 'a host_call" where
  "hostCommandCopyBufferToImage command_buffer src_buffer dst_image src_offset dst_offset extent
       num_sync_points_in_wait_list sync_point_wait_list sync_point w =
     (mux_error_feature_unsupported, w)"

section \<open>ND-ranges\<close>

text \<open>Element \<open>i\<close> of an array of the options, null being \<^term>\<open>None\<close>.\<close>

definition option_at :: "u64 list option \<Rightarrow> nat \<Rightarrow> u64 option" where
  "option_at xs i =
     (case xs of None \<Rightarrow> None | Some xs \<Rightarrow> if i < length xs then Some (xs ! i) else None)"

text \<open>The global size, the global offset and the local size.\<close>

definition ndrange_sizes ::
  "mux_ndrange_options_s \<Rightarrow> (u64 list \<times> u64 list \<times> u64 list) option" where
  "ndrange_sizes options =
     (let in_range = (\<lambda>i. of_nat i < nd_dimensions options) in
      case (those (map (\<lambda>i. if in_range i then option_at (nd_global_size options) i else Some 1) [0, 1, 2]),
            those (map (\<lambda>i. if in_range i then option_at (nd_global_offset options) i else Some 0) [0, 1, 2]),
            those (map (option_at (Some (nd_local_size options))) [0, 1, 2])) of
        (Some gs, Some go, Some ls) \<Rightarrow> Some (gs, go, ls)
      | _ \<Rightarrow> None)"

text \<open>The last part of \<^verbatim>\<open>hostCommandNDRange\<close>, when the arguments are packed.\<close>

definition push_ndrange :: "ptr \<Rightarrow> ptr \<Rightarrow> ndrange_info_s \<Rightarrow> ptr \<Rightarrow> 'a host_call" where
  "push_ndrange command_buffer knl info sync_point w =
     (case sv_push_back Obj_ndrange_info_ptr 4 info
             (ndranges (host_command_buffers w command_buffer)) w of (error, ranges, w1) \<Rightarrow>
        let w2 = set_host_command_buffer command_buffer
                   ((host_command_buffers w1 command_buffer)\<lparr>ndranges := ranges\<rparr>) w1
        in if error \<noteq> cargo_success then (mux_error_out_of_memory, ndrange_destroy info w2)
           else record_commands command_buffer
                  [Command_ndrange knl (length (sv_elems ranges) - 1)] sync_point w2)"

definition hostCommandNDRange ::
  "ptr \<Rightarrow> ptr \<Rightarrow> mux_ndrange_options_s \<Rightarrow> u32 \<Rightarrow> ptr \<Rightarrow> ptr \<Rightarrow> 'a host_world_scheme
    \<Rightarrow> (mux_result_t \<times> 'a host_world_scheme) option" where
  "hostCommandNDRange command_buffer knl options num_sync_points_in_wait_list
       sync_point_wait_list sync_point w =
     (let allocator = kernel_allocator_info (host_kernels w knl);
          n = length (nd_descriptors options)
      in case ndrange_sizes options of None \<Rightarrow> None
      | Some (gs, go, ls) \<Rightarrow> Some (
      case da_alloc Obj_descriptor_info (Descriptor_buffer 0 0) n (da_new allocator) w of
        (e1, descriptors, w1) \<Rightarrow>
      if e1 \<noteq> cargo_success then (mux_error_out_of_memory, da_destroy descriptors w1)
      else let descriptors = descriptors\<lparr>da_elems := nd_descriptors options\<rparr> in
      case da_alloc Obj_size_t (0 :: u64) n (da_new allocator) w1 of (e2, offsets, w2) \<Rightarrow>
      if e2 \<noteq> cargo_success
      then (mux_error_out_of_memory, da_destroy descriptors (da_destroy offsets w2))
      else case calcPackedArgsAllocSize descriptors offsets of (packed_args_alloc_size, offsets) \<Rightarrow>
      case allocator_alloc allocator (Request_bytes packed_args_alloc_size 1) w2 of
        (packed_args_allocation, w3) \<Rightarrow>
      if packed_args_allocation = 0
      then (mux_error_out_of_memory, da_destroy descriptors (da_destroy offsets w3))
      else case da_alloc Obj_byte_ptr 0 n (da_new allocator) w3 of (e4, addresses, w4) \<Rightarrow>
      if e4 \<noteq> cargo_success
      then (mux_error_out_of_memory,
            da_destroy descriptors (da_destroy offsets (da_destroy addresses w4)))
      else let addresses = addresses
                 \<lparr>da_elems := map ((+) packed_args_allocation) (da_elems offsets)\<rparr>
           in case push_ndrange command_buffer knl
                     \<lparr>packed_args = packed_args_allocation, arg_addresses = addresses,
                      ndr_descriptors = descriptors, global_size = gs, global_offset = go,
                      local_size = ls, dimensions = nd_dimensions options\<rparr> sync_point
                     (populatePackedArgs packed_args_allocation descriptors w4) of
             (result, w5) \<Rightarrow> (result, da_destroy offsets w5)))"

text \<open>
  The loop of \<^verbatim>\<open>hostUpdateDescriptors\<close>: what was written before an error stays. The lists may be
  longer than \<open>num_args\<close>, but not shorter.
\<close>

definition update_argument ::
  "(ptr \<Rightarrow> host_buffer_s) \<Rightarrow> mux_descriptor_info_s \<Rightarrow> ptr \<Rightarrow> byte_memory \<Rightarrow> byte_memory option" where
  "update_argument bufs d p m =
     (case d of
        Descriptor_buffer b off \<Rightarrow> Some (store64 p (buffer_data (bufs b) + off) m)
      | Descriptor_plain_old_data data len \<Rightarrow> Some (memcpy p data len m)
      | Descriptor_shared_local_buffer sz \<Rightarrow> Some (store64 p sz m)
      | Descriptor_null_buffer \<Rightarrow> Some (store64 p 0 m)
      | _ \<Rightarrow> None)"

fun update_arguments ::
  "ndrange_info_s \<Rightarrow> nat \<Rightarrow> u64 list \<Rightarrow> mux_descriptor_info_s list \<Rightarrow> 'a host_world_scheme
    \<Rightarrow> (mux_result_t \<times> 'a host_world_scheme) option" where
  "update_arguments info 0 indices descriptors w = Some (mux_success, w)"
| "update_arguments info (Suc n) (index # indices) (d # ds) w =
     (case da_index (arg_addresses info) (unat index) of None \<Rightarrow> None
      | Some arg_address \<Rightarrow>
          (case update_argument (host_buffers w) d arg_address (mem w) of
             None \<Rightarrow> Some (mux_error_invalid_value, w)
           | Some m \<Rightarrow> update_arguments info n indices ds (w\<lparr>mem := m\<rparr>)))"
| "update_arguments info (Suc n) _ _ w = None"

definition hostUpdateDescriptors ::
  "ptr \<Rightarrow> u32 \<Rightarrow> u64 \<Rightarrow> u64 list \<Rightarrow> mux_descriptor_info_s list \<Rightarrow> 'a host_world_scheme
    \<Rightarrow> (mux_result_t \<times> 'a host_world_scheme) option" where
  "hostUpdateDescriptors command_buffer command_id num_args arg_indices descriptors w =
     (let cb = host_command_buffers w command_buffer in
      case sv_index (commands cb) (unat command_id) of None \<Rightarrow> None
      | Some (Command_ndrange knl i) \<Rightarrow>
          update_arguments (sv_elems (ndranges cb) ! i) (unat num_args) arg_indices descriptors w
      | Some _ \<Rightarrow> Some (mux_error_invalid_value, w))"

section \<open>Callbacks and queries\<close>

definition hostCommandUserCallback ::
  "ptr \<Rightarrow> ptr \<Rightarrow> ptr \<Rightarrow> u32 \<Rightarrow> ptr \<Rightarrow> ptr \<Rightarrow> 'a host_call" where
  "hostCommandUserCallback command_buffer user_fn data num_sync_points_in_wait_list
       sync_point_wait_list sync_point w =
     record_commands command_buffer [Command_user_callback user_fn data] sync_point w"

definition hostCommandBeginQuery ::
  "ptr \<Rightarrow> ptr \<Rightarrow> u32 \<Rightarrow> u32 \<Rightarrow> u32 \<Rightarrow> ptr \<Rightarrow> ptr \<Rightarrow> 'a host_call" where
  "hostCommandBeginQuery command_buffer query_pool query_index query_count
       num_sync_points_in_wait_list sync_point_wait_list sync_point w =
     record_commands command_buffer [Command_begin_query query_pool query_index query_count]
       sync_point w"

definition hostCommandEndQuery ::
  "ptr \<Rightarrow> ptr \<Rightarrow> u32 \<Rightarrow> u32 \<Rightarrow> u32 \<Rightarrow> ptr \<Rightarrow> ptr \<Rightarrow> 'a host_call" where
  "hostCommandEndQuery command_buffer query_pool query_index query_count
       num_sync_points_in_wait_list sync_point_wait_list sync_point w =
     (if Command_begin_query query_pool query_index query_count
           \<notin> set (sv_elems (commands (host_command_buffers w command_buffer)))
      then (mux_error_invalid_value, w)
      else record_commands command_buffer [Command_end_query query_pool query_index query_count]
             sync_point w)"

definition hostCommandResetQueryPool ::
  "ptr \<Rightarrow> ptr \<Rightarrow> u32 \<Rightarrow> u32 \<Rightarrow> u32 \<Rightarrow> ptr \<Rightarrow> ptr \<Rightarrow> 'a host_call" where
  "hostCommandResetQueryPool command_buffer query_pool query_index query_count
       num_sync_points_in_wait_list sync_point_wait_list sync_point w =
     record_commands command_buffer [Command_reset_query_pool query_pool query_index query_count]
       sync_point w"

section \<open>Life time\<close>

definition hostResetCommandBuffer :: "ptr \<Rightarrow> 'a host_call" where
  "hostResetCommandBuffer command_buffer w =
     (mux_success, set_host_command_buffer command_buffer
        ((host_command_buffers w command_buffer)
           \<lparr>commands := sv_clear (commands (host_command_buffers w command_buffer))\<rparr>) w)"

definition hostFinalizeCommandBuffer :: "ptr \<Rightarrow> 'a host_call" where
  "hostFinalizeCommandBuffer command_buffer w =
     (if command_buffer = 0 then (mux_error_null_out_parameter, w) else (mux_success, w))"

text \<open>The loop over the commands of the original; \<open>ranges\<close> are the ND-ranges of the original.\<close>

fun clone_commands ::
  "mux_allocator_info_s \<Rightarrow> ptr \<Rightarrow> ndrange_info_s list \<Rightarrow> command_info_s list \<Rightarrow> 'a host_call" where
  "clone_commands allocator_info clone ranges [] w = (mux_success, w)"
| "clone_commands allocator_info clone ranges (command # cmds) w =
     (case command of
        Command_ndrange knl i \<Rightarrow>
          (case ndrange_clone (ranges ! i) allocator_info w of
             (Inl error, w1) \<Rightarrow> (error, w1)
           | (Inr info, w1) \<Rightarrow>
               (case push_ndrange clone knl info 0 w1 of (result, w2) \<Rightarrow>
                  if result \<noteq> mux_success then (result, w2)
                  else clone_commands allocator_info clone ranges cmds w2))
      | _ \<Rightarrow>
          (case push_commands clone [command] w of (error, w1) \<Rightarrow>
             if error \<noteq> cargo_success then (mux_error_out_of_memory, w1)
             else clone_commands allocator_info clone ranges cmds w1))"

definition hostCloneCommandBuffer ::
  "ptr \<Rightarrow> mux_allocator_info_s \<Rightarrow> ptr \<Rightarrow> ptr \<Rightarrow> 'a host_call" where
  "hostCloneCommandBuffer device allocator_info command_buffer out_command_buffer w =
     (case allocator_create allocator_info Obj_fence (fence_construct device) w of (fence, w1) \<Rightarrow>
      if fence = 0 then (mux_error_out_of_memory, w1)
      else case allocator_create allocator_info Obj_command_buffer
                  (command_buffer_construct device allocator_info fence) w1 of (clone, w2) \<Rightarrow>
      if clone = 0 then (mux_error_out_of_memory, w2)
      else let cb = host_command_buffers w2 command_buffer in
      case clone_commands allocator_info clone (sv_elems (ndranges cb)) (sv_elems (commands cb)) w2 of
        (result, w3) \<Rightarrow>
          if result \<noteq> mux_success then (result, w3)
          else (mux_success, set_cell out_command_buffer clone w3))"

definition hostDestroyCommandBuffer :: "ptr \<Rightarrow> ptr \<Rightarrow> mux_allocator_info_s \<Rightarrow> 'a host_proc" where
  "hostDestroyCommandBuffer device command_buffer allocator_info w =
     (let cb = host_command_buffers w command_buffer;
          w1 = fold (\<lambda>range. allocator_free allocator_info (packed_args range))
                 (sv_elems (ndranges cb)) w;
          w2 = fold (allocator_destroy allocator_info (\<lambda>p w. w)) (sv_elems (cb_sync_points cb)) w1
      in allocator_destroy allocator_info command_buffer_destruct command_buffer w2)"

section \<open>Recording\<close>

text \<open>Recording changes the commands of the buffer and the blocks of the allocator, nothing else.\<close>

definition recorded :: "ptr \<Rightarrow> command_info_s list \<Rightarrow> 'a host_world_scheme \<Rightarrow> 'a host_world_scheme \<Rightarrow> bool" where
  "recorded cb cmds w w' \<longleftrightarrow>
     (\<exists>v bs. w' = set_host_command_buffer cb ((host_command_buffers w cb)\<lparr>commands := v\<rparr>)
                    (w\<lparr>live_blocks := bs\<rparr>) \<and>
        sv_elems v = cmds \<and> sv_ok Obj_command_info 16 v w')"

abbreviation "commands_ok cb w \<equiv> sv_ok Obj_command_info 16 (commands (host_command_buffers w cb)) w"

abbreviation "commands_of cb w \<equiv> sv_elems (commands (host_command_buffers w cb))"

lemma sv_ok_live_blocks: "live_blocks w' = live_blocks w \<Longrightarrow> sv_ok T N v w' = sv_ok T N v w"
  by (simp add: sv_ok_def)

lemma recordedI:
  assumes "only_blocks w w1" and "sv_elems v = cmds" and "sv_ok Obj_command_info 16 v w1"
  shows "recorded cb cmds w (set_host_command_buffer cb ((host_command_buffers w1 cb)\<lparr>commands := v\<rparr>) w1)"
proof -
  obtain bs where w1: "w1 = w\<lparr>live_blocks := bs\<rparr>"
    using assms(1) by (auto simp: only_blocks_def)
  have "sv_ok Obj_command_info 16 v
      (set_host_command_buffer cb ((host_command_buffers w1 cb)\<lparr>commands := v\<rparr>) w1)"
    using assms(3) by (subst sv_ok_live_blocks [where w = w1]) (simp_all add: set_host_command_buffer_def)
  then show ?thesis
    unfolding recorded_def using assms(2) w1 by auto
qed

lemma recorded_trans [trans]:
  assumes "recorded cb xs w w1" and "recorded cb ys w1 w2"
  shows "recorded cb ys w w2"
proof -
  obtain v bs where v: "w1 = set_host_command_buffer cb ((host_command_buffers w cb)\<lparr>commands := v\<rparr>)
      (w\<lparr>live_blocks := bs\<rparr>)"
    using assms(1) by (auto simp: recorded_def)
  obtain v' bs' where v': "w2 = set_host_command_buffer cb ((host_command_buffers w1 cb)\<lparr>commands := v'\<rparr>)
      (w1\<lparr>live_blocks := bs'\<rparr>)" "sv_elems v' = ys" "sv_ok Obj_command_info 16 v' w2"
    using assms(2) by (auto simp: recorded_def)
  have "w2 = set_host_command_buffer cb ((host_command_buffers w cb)\<lparr>commands := v'\<rparr>)
      (w\<lparr>live_blocks := bs'\<rparr>)"
    unfolding v'(1) v by (simp add: set_host_command_buffer_def)
  then show ?thesis
    unfolding recorded_def using v'(2,3) by blast
qed

lemma recordedD:
  assumes "recorded cb cmds w w'"
  shows "commands_of cb w' = cmds" and "commands_ok cb w'" and "mem w' = mem w"
    and "host_buffers w' = host_buffers w" and "cells w' = cells w" and "queues w' = queues w"
    and "host_devices w' = host_devices w" and "fences w' = fences w"
    and "host_fences w' = host_fences w" and "command_buffers w' = command_buffers w"
    and "atomic_counts w' = atomic_counts w" and "atomic_bools w' = atomic_bools w"
    and "query_pools w' = query_pools w" and "devices w' = devices w"
    and "signal_semaphores (host_command_buffers w' cb) = signal_semaphores (host_command_buffers w cb)"
    and "device_infos w' = device_infos w" and "buffers w' = buffers w"
  using assms by (auto simp: recorded_def set_host_command_buffer_def)

lemma push_commands_spec:
  assumes ok: "commands_ok cb w" and call: "push_commands cb new w = (e, w')"
  shows "\<exists>k \<le> length new. recorded cb (commands_of cb w @ take k new) w w' \<and>
           (if k = length new then e = cargo_success else e = cargo_bad_alloc)"
proof -
  obtain e1 v w1 where push: "sv_push_all Obj_command_info 16 new
      (commands (host_command_buffers w cb)) w = (e1, v, w1)"
    by (metis prod_cases3)
  from sv.push_all_prefix [OF ok push] obtain k where k: "k \<le> length new"
    "sv_elems v = commands_of cb w @ take k new"
    "if k = length new then e1 = cargo_success else e1 = cargo_bad_alloc"
    and v: "sv_ok Obj_command_info 16 v w1"
    by blast
  have "e = e1" and w': "w' = set_host_command_buffer cb ((host_command_buffers w1 cb)\<lparr>commands := v\<rparr>) w1"
    using call push by (auto simp: push_commands_def)
  then show ?thesis
    using k recordedI [OF sv_push_all_world [OF ok push] k(2) v] by (intro exI [of _ k]) simp
qed

lemma record_commands_spec:
  assumes ok: "commands_ok cb w" and call: "record_commands cb new 0 w = (r, w')"
  shows "\<exists>k \<le> length new. recorded cb (commands_of cb w @ take k new) w w' \<and>
           (if k = length new then r = mux_success else r = mux_error_out_of_memory)"
proof -
  obtain e w1 where push: "push_commands cb new w = (e, w1)"
    by fastforce
  from push_commands_spec [OF ok push] obtain k where k: "k \<le> length new"
    "recorded cb (commands_of cb w @ take k new) w w1"
    "if k = length new then e = cargo_success else e = cargo_bad_alloc"
    by blast
  have "w' = w1" "r = (if e = cargo_success then mux_success else mux_error_out_of_memory)"
    using call push by (auto simp: record_commands_def add_sync_point_def split: if_splits)
  then show ?thesis
    using k by (intro exI [of _ k]) (auto split: if_splits)
qed

lemma reserve_commands_spec:
  assumes ok: "commands_ok cb w" and call: "reserve_commands cb n w = (e, w')"
  shows "recorded cb (commands_of cb w) w w'"
proof -
  obtain v w1 where res: "sv_reserve Obj_command_info 16 (unat n)
      (commands (host_command_buffers w cb)) w = (e, v, w1)"
    and w': "w' = set_host_command_buffer cb ((host_command_buffers w1 cb)\<lparr>commands := v\<rparr>) w1"
    using call by (auto simp: reserve_commands_def split: prod.splits)
  have "sv_elems v = commands_of cb w" "sv_ok Obj_command_info 16 v w1" "only_blocks w w1"
    using sv_reserve_spec [OF ok res] ok by (auto simp: sv_grown_def)
  then show ?thesis
    unfolding w' by (intro recordedI)
qed

lemma record_regions_spec:
  assumes ok: "commands_ok cb w" and call: "record_regions cb command regions 0 w = (mux_success, w')"
  shows "recorded cb (commands_of cb w @ map command (concat (map region_rows regions))) w w'"
proof -
  let ?n = "of_nat (length (commands_of cb w)) :: u64"
  let ?c = "fold (\<lambda>r n. n + ext_z (region r) * ext_y (region r)) regions 0 + ?n"
  obtain e1 w1 where r1: "reserve_commands cb (?n + of_nat (length regions)) w = (e1, w1)"
    by fastforce
  obtain e2 w2 where r2: "reserve_commands cb ?c w1 = (e2, w2)"
    by fastforce
  note w1 = reserve_commands_spec [OF ok r1]
  note w2 = reserve_commands_spec [OF recordedD(2) [OF w1] r2]
  have rec: "record_commands cb (map command (concat (map region_rows regions))) 0 w2 = (mux_success, w')"
    using call r1 r2 by (simp add: record_regions_def Let_def split: if_splits)
  from record_commands_spec [OF recordedD(2) [OF w2] rec]
  have "recorded cb (commands_of cb w2 @ map command (concat (map region_rows regions))) w2 w'"
    by (auto split: if_splits)
  then show ?thesis
    using recorded_trans [OF recorded_trans [OF w1 w2]] recordedD(1) [OF w1] recordedD(1) [OF w2] by simp
qed

end
