(* ===== verification/Host_Execute.thy ===== *)
theory Host_Execute
  imports Host_Command_Buffer Host_Kernel
begin

text \<open>
  What the threads of the pool execute (\<^verbatim>\<open>queue.cpp\<close> of \<^verbatim>\<open>modules/mux/targets/host/source\<close>): the
  commands of a command buffer one after the other, and the completion of the buffer. The compiled
  kernels, the callbacks of the application and the clock are not part of the target: they are the
  fields of \<open>host_env\<close>, which also names the addresses of the local variables of \<^verbatim>\<open>commandNDRange\<close>
  (one per level of nesting, because a thread that waits for an ND-range executes other items).
\<close>

record schedule_info_s =
  sched_global_size :: "u64 list"
  sched_global_offset :: "u64 list"
  sched_local_size :: "u64 list"
  sched_slice :: u64
  sched_total_slices :: u64
  sched_work_dim :: u32

text \<open>
  \<open>env_hook h\<close> is the kernel at the address \<open>h\<close>; \<open>env_completed f\<close> and \<open>env_callback f\<close> are the
  functions of the application at the address \<open>f\<close>; each is \<^term>\<open>None\<close> when it does not return.
  \<open>env_clock w i\<close> are the two readings of the clock around command \<open>i\<close> of a buffer that is started
  in the world \<open>w\<close>.
\<close>

record 'a host_env =
  env_hook :: "ptr \<Rightarrow> ptr \<Rightarrow> schedule_info_s \<Rightarrow> 'a host_world_scheme \<Rightarrow> 'a host_world_scheme option"
  env_completed :: "ptr \<Rightarrow> ptr \<Rightarrow> mux_result_t \<Rightarrow> ptr \<Rightarrow> 'a host_world_scheme \<Rightarrow> 'a host_world_scheme option"
  env_callback :: "ptr \<Rightarrow> ptr \<Rightarrow> ptr \<Rightarrow> ptr \<Rightarrow> 'a host_world_scheme \<Rightarrow> 'a host_world_scheme option"
  env_clock :: "'a host_world_scheme \<Rightarrow> nat \<Rightarrow> u64 \<times> u64"
  env_frame :: "nat \<Rightarrow> ptr"

section \<open>Completion\<close>

fun signal_all :: "bool \<Rightarrow> ptr list \<Rightarrow> 'a host_world_scheme \<Rightarrow> 'a host_world_scheme option" where
  "signal_all terminate [] w = Some w"
| "signal_all terminate (s # ss) w =
     (case semaphore_signal s terminate w of None \<Rightarrow> None
      | Some w1 \<Rightarrow> signal_all terminate ss w1)"

definition threadPoolCleanup ::
  "'a host_env \<Rightarrow> ptr \<Rightarrow> ptr \<Rightarrow> ptr \<Rightarrow> u64 \<Rightarrow> 'a host_world_scheme \<Rightarrow> 'a host_world_scheme option" where
  "threadPoolCleanup env queue command_buffer fence terminate w =
     (let result = (if terminate \<noteq> 0 then mux_error_fence_failure else mux_success);
          w1 = (if fence \<noteq> 0 then set_host_fence fence \<lparr>fence_result = result\<rparr> w else w);
          cb = host_command_buffers w1 command_buffer
      in case (if user_function cb \<noteq> 0
               then env_completed env (user_function cb) command_buffer result (user_data cb) w1
               else Some w1) of None \<Rightarrow> None
      | Some w2 \<Rightarrow>
        (case signal_all (terminate \<noteq> 0)
                (sv_elems (signal_semaphores (host_command_buffers w2 command_buffer))) w2 of
           None \<Rightarrow> None
         | Some w3 \<Rightarrow>
             (let cb3 = host_command_buffers w3 command_buffer
              in Some (set_host_command_buffer command_buffer
                   (cb3\<lparr>signal_semaphores := sv_clear (signal_semaphores cb3)\<rparr>) w3))))"

section \<open>Buffer commands\<close>

definition commandReadBuffer :: "ptr \<Rightarrow> u64 \<Rightarrow> ptr \<Rightarrow> u64 \<Rightarrow> 'a host_proc" where
  "commandReadBuffer buffer offset host_pointer sz w =
     w\<lparr>mem := memcpy host_pointer (buffer_data (host_buffers w buffer) + offset) sz (mem w)\<rparr>"

definition commandWriteBuffer :: "ptr \<Rightarrow> u64 \<Rightarrow> ptr \<Rightarrow> u64 \<Rightarrow> 'a host_proc" where
  "commandWriteBuffer buffer offset host_pointer sz w =
     w\<lparr>mem := memcpy (buffer_data (host_buffers w buffer) + offset) host_pointer sz (mem w)\<rparr>"

text \<open>\<^verbatim>\<open>memcpy\<close> of the array \<open>bytes\<close>.\<close>

definition store_bytes :: "ptr \<Rightarrow> u8 list \<Rightarrow> byte_memory \<Rightarrow> byte_memory" where
  "store_bytes p bytes m = (\<lambda>a. if unat (a - p) < length bytes then bytes ! unat (a - p) else m a)"

text \<open>The loop that doubles the filled range; it does not end when \<open>sz\<close> is zero.\<close>

partial_function (option) fill_loop ::
  "ptr \<Rightarrow> ptr \<Rightarrow> ptr \<Rightarrow> u64 \<Rightarrow> byte_memory \<Rightarrow> (ptr \<times> byte_memory) option" where
  "fill_loop start finish current sz m =
     (if current + sz < finish
      then fill_loop start finish (current + sz) (sz * 2) (memcpy current start sz m)
      else Some (current, m))"

declare fill_loop.simps [code]

definition commandFillBuffer ::
  "ptr \<Rightarrow> u64 \<Rightarrow> u64 \<Rightarrow> u8 list \<Rightarrow> u64 \<Rightarrow> 'a host_world_scheme \<Rightarrow> 'a host_world_scheme option" where
  "commandFillBuffer buffer offset fill_size pattern pattern_size w =
     (let start = buffer_data (host_buffers w buffer) + offset;
          finish = start + fill_size
      in case fill_loop start finish (start + pattern_size) pattern_size
                (store_bytes start (take (unat pattern_size) pattern) (mem w)) of
        None \<Rightarrow> None
      | Some (current, m) \<Rightarrow> Some (w\<lparr>mem := memcpy current start (finish - current) m\<rparr>))"

definition commandCopyBuffer :: "ptr \<Rightarrow> u64 \<Rightarrow> ptr \<Rightarrow> u64 \<Rightarrow> u64 \<Rightarrow> 'a host_proc" where
  "commandCopyBuffer src_buffer src_offset dst_buffer dst_offset sz w =
     w\<lparr>mem := memcpy (buffer_data (host_buffers w dst_buffer) + dst_offset)
                (buffer_data (host_buffers w src_buffer) + src_offset) sz (mem w)\<rparr>"

section \<open>ND-ranges\<close>

abbreviation (input) slice_multiplier :: u64 where "slice_multiplier \<equiv> 1"

text \<open>The function that the pool executes for a slice.\<close>

definition ndrange_slice ::
  "'a host_env \<Rightarrow> ptr \<Rightarrow> ptr \<Rightarrow> u64 \<Rightarrow> 'a host_world_scheme \<Rightarrow> 'a host_world_scheme option" where
  "ndrange_slice env variant_ptr ndrange_ptr index w =
     (case local_ndranges w ndrange_ptr of (knl, info) \<Rightarrow>
      if \<exists>k \<in> set [0..<unat (dimensions info)]. global_size info ! k = 0 then Some w
      else env_hook env (hook (local_variants w variant_ptr)) (packed_args info)
             \<lparr>sched_global_size = global_size info, sched_global_offset = global_offset info,
              sched_local_size = local_size info, sched_slice = index,
              sched_total_slices = num_threads
                (thread_pool (host_devices w (kernel_device (kernels w knl)))) * slice_multiplier,
              sched_work_dim = ucast (dimensions info)\<rparr> w)"

text \<open>
  \<open>n\<close> bounds the number of items that this thread executes while it waits, and \<open>call\<close> executes one.
  The signals and the variable \<^verbatim>\<open>queued\<close> are at \<open>frame\<close>. A work-group size for which there is no
  variant makes the command do nothing.
\<close>

definition commandNDRange ::
  "nat \<Rightarrow> (thread_pool_work_item_s \<Rightarrow> 'a host_world_scheme \<Rightarrow> 'a host_world_scheme option)
    \<Rightarrow> ptr \<Rightarrow> ptr \<Rightarrow> ptr \<Rightarrow> ndrange_info_s \<Rightarrow> 'a host_world_scheme \<Rightarrow> 'a host_world_scheme option" where
  "commandNDRange n call frame queue knl info w =
     (let device = queue_device (queues w queue);
          slices = num_threads (thread_pool (host_devices w device)) * slice_multiplier
      in case getKernelVariantForWGSize knl (local_size info ! 0) (local_size info ! 1)
                (local_size info ! 2) w of None \<Rightarrow> None
      | Some (Inl _) \<Rightarrow> Some w
      | Some (Inr variant) \<Rightarrow>
        (let w1 = set_atomic_count frame 0
                    (w\<lparr>local_variants := (local_variants w)(frame := variant),
                       local_ndranges := (local_ndranges w)(frame := (knl, info))\<rparr>)
         in case enqueue_range device Fn_ndrange_slice frame frame frame frame slices w1 of
           None \<Rightarrow> None
         | Some w2 \<Rightarrow> wait_for_count n call device frame w2))"

section \<open>Queries and callbacks\<close>

definition commandUserCallback ::
  "'a host_env \<Rightarrow> ptr \<Rightarrow> ptr \<Rightarrow> ptr \<Rightarrow> ptr \<Rightarrow> 'a host_world_scheme \<Rightarrow> 'a host_world_scheme option" where
  "commandUserCallback env queue command_buffer user_fn data w =
     env_callback env user_fn queue command_buffer data w"

definition commandBeginQuery :: "ptr \<Rightarrow> u32 \<Rightarrow> ptr \<Rightarrow> 'a host_world_scheme \<Rightarrow> ptr" where
  "commandBeginQuery pool index duration_query w =
     (if query_pool_type (query_pools w pool) = mux_query_type_duration
      then getDurationQueryAt pool index w else duration_query)"

definition commandEndQuery :: "ptr \<Rightarrow> u32 \<Rightarrow> ptr \<Rightarrow> 'a host_world_scheme \<Rightarrow> ptr" where
  "commandEndQuery pool index duration_query w =
     (if query_pool_type (query_pools w pool) = mux_query_type_duration \<and>
         duration_query = getDurationQueryAt pool index w
      then 0 else duration_query)"

definition commandResetQueryPool :: "ptr \<Rightarrow> u32 \<Rightarrow> u32 \<Rightarrow> 'a host_proc" where
  "commandResetQueryPool pool index cnt w = query_pool_reset_range pool (ucast index) (ucast cnt) w"

section \<open>Command buffers\<close>

text \<open>
  One command; the result has the duration query that is active after it. \<^term>\<open>Inl\<close> is the
  \<^verbatim>\<open>default\<close> branch of the switch, which leaves the function.
\<close>

definition run_command ::
  "nat \<Rightarrow> (thread_pool_work_item_s \<Rightarrow> 'a host_world_scheme \<Rightarrow> 'a host_world_scheme option)
    \<Rightarrow> 'a host_env \<Rightarrow> ptr \<Rightarrow> ptr \<Rightarrow> command_info_s \<Rightarrow> ptr \<Rightarrow> 'a host_world_scheme
    \<Rightarrow> ('a host_world_scheme + ptr \<times> 'a host_world_scheme) option" where
  "run_command n call env queue command_buffer info duration_query w =
     (let same = map_option (\<lambda>w'. Inr (duration_query, w')) in
      case info of
        Command_read_buffer buffer offset host_pointer sz \<Rightarrow>
          same (Some (commandReadBuffer buffer offset host_pointer sz w))
      | Command_write_buffer buffer offset host_pointer sz \<Rightarrow>
          same (Some (commandWriteBuffer buffer offset host_pointer sz w))
      | Command_fill_buffer buffer offset sz pattern pattern_size \<Rightarrow>
          same (commandFillBuffer buffer offset sz pattern pattern_size w)
      | Command_copy_buffer src_buffer src_offset dst_buffer dst_offset sz \<Rightarrow>
          same (Some (commandCopyBuffer src_buffer src_offset dst_buffer dst_offset sz w))
      | Command_ndrange knl i \<Rightarrow>
          same (commandNDRange n call (env_frame env n) queue knl
                  (sv_elems (ndranges (host_command_buffers w command_buffer)) ! i) w)
      | Command_user_callback user_fn data \<Rightarrow>
          same (commandUserCallback env queue command_buffer user_fn data w)
      | Command_begin_query pool index cnt \<Rightarrow>
          Some (Inr (if query_pool_type (query_pools w pool) = mux_query_type_duration
                     then commandBeginQuery pool index duration_query w else duration_query, w))
      | Command_end_query pool index cnt \<Rightarrow>
          Some (Inr (if query_pool_type (query_pools w pool) = mux_query_type_duration
                     then commandEndQuery pool index duration_query w else duration_query, w))
      | Command_reset_query_pool pool index cnt \<Rightarrow>
          same (Some (commandResetQueryPool pool index cnt w))
      | Command_terminate \<Rightarrow> Some (Inl w))"

text \<open>
  The loop over the commands, from command \<open>i\<close> on. The start of a duration is read before the
  command when a query is active, and is 0 for the command that activates it.
\<close>

fun process_commands ::
  "nat \<Rightarrow> (thread_pool_work_item_s \<Rightarrow> 'a host_world_scheme \<Rightarrow> 'a host_world_scheme option)
    \<Rightarrow> 'a host_env \<Rightarrow> (nat \<Rightarrow> u64 \<times> u64) \<Rightarrow> ptr \<Rightarrow> ptr \<Rightarrow> nat \<Rightarrow> ptr \<Rightarrow> command_info_s list
    \<Rightarrow> 'a host_world_scheme \<Rightarrow> ('a host_world_scheme + 'a host_world_scheme) option" where
  "process_commands n call env clock queue command_buffer i duration_query [] w = Some (Inr w)"
| "process_commands n call env clock queue command_buffer i duration_query (info # new) w =
     (let start = (if duration_query \<noteq> 0 then fst (clock i) else 0) in
      case run_command n call env queue command_buffer info duration_query w of
        None \<Rightarrow> None
      | Some (Inl w1) \<Rightarrow> Some (Inl w1)
      | Some (Inr (query, w1)) \<Rightarrow>
          (let w2 = (if query \<noteq> 0
                     then w1\<lparr>mem := store64 (query + 8) (snd (clock i)) (store64 query start (mem w1))\<rparr>
                     else w1)
           in process_commands n call env clock queue command_buffer (Suc i) query new w2))"

definition threadPoolProcessCommands ::
  "nat \<Rightarrow> (thread_pool_work_item_s \<Rightarrow> 'a host_world_scheme \<Rightarrow> 'a host_world_scheme option)
    \<Rightarrow> 'a host_env \<Rightarrow> ptr \<Rightarrow> ptr \<Rightarrow> ptr \<Rightarrow> 'a host_world_scheme \<Rightarrow> 'a host_world_scheme option" where
  "threadPoolProcessCommands n call env queue command_buffer fence w =
     (case process_commands n call env (env_clock env w) queue command_buffer 0 0
             (sv_elems (commands (host_command_buffers w command_buffer))) w of
        None \<Rightarrow> None
      | Some (Inl w1) \<Rightarrow> Some w1
      | Some (Inr w1) \<Rightarrow> threadPoolCleanup env queue command_buffer fence 0 w1)"

text \<open>
  What a thread of the pool does with an item; \<open>n\<close> bounds the nesting and the number of items a
  wait executes.
\<close>

fun run_item ::
  "nat \<Rightarrow> 'a host_env \<Rightarrow> thread_pool_work_item_s \<Rightarrow> 'a host_world_scheme \<Rightarrow> 'a host_world_scheme option" where
  "run_item 0 env item w = None"
| "run_item (Suc n) env item w =
     (case item_function item of
        Fn_threadPoolCleanup \<Rightarrow>
          threadPoolCleanup env (item_user_data item) (item_user_data2 item) (item_user_data3 item)
            (item_index item) w
      | Fn_threadPoolProcessCommands \<Rightarrow>
          threadPoolProcessCommands n (run_item n env) env (item_user_data item)
            (item_user_data2 item) (item_user_data3 item) w
      | Fn_ndrange_slice \<Rightarrow>
          ndrange_slice env (item_user_data item) (item_user_data2 item) (item_index item) w)"

text \<open>An application whose kernel writes 1 to the byte at the address of its slice.\<close>

definition demo_env :: "unit host_env" where
  "demo_env = \<lparr>env_hook = (\<lambda>_ _ s w. Some (w\<lparr>mem := (mem w)(sched_slice s := 1)\<rparr>)),
     env_completed = (\<lambda>_ _ _ _ w. Some w), env_callback = (\<lambda>_ _ _ _ w. Some w),
     env_clock = (\<lambda>_ _. (0, 0)), env_frame = (\<lambda>_. 0x500)\<rparr>"

section \<open>Filling\<close>

text \<open>The first \<open>f\<close> bytes from \<open>start\<close> are filled, and nothing else differs from \<open>m0\<close>.\<close>

definition filled :: "ptr \<Rightarrow> (nat \<Rightarrow> u8) \<Rightarrow> byte_memory \<Rightarrow> nat \<Rightarrow> byte_memory \<Rightarrow> bool" where
  "filled start pat m0 f m \<longleftrightarrow>
     (\<forall>k < f. m (start + of_nat k) = pat k) \<and> (\<forall>a. f \<le> unat (a - start) \<longrightarrow> m a = m0 a)"

lemma filled_copy:
  assumes "filled start pat m0 (unat s) m" and "n \<le> s" and "unat s + unat n < 2 ^ 64"
    and "\<And>k. pat (k + unat s) = pat k"
  shows "filled start pat m0 (unat s + unat n) (memcpy (start + s) start n m)"
  unfolding filled_def
proof (intro conjI allI impI)
  have n: "unat n \<le> unat s"
    using assms(2) by (simp add: word_le_nat_alt)
  fix k assume k: "k < unat s + unat n"
  then have small: "k < 2 ^ 64"
    using assms(3) by simp
  show "memcpy (start + s) start n m (start + of_nat k) = pat k"
  proof (cases "k < unat s")
    case True
    have "unat (of_nat k - s) = 2 ^ 64 + k - unat s"
      by (rule unat_below [OF True])
    then have "\<not> of_nat k - s < n"
      using n assms(3) by (simp add: word_less_nat_alt)
    then have "memcpy (start + s) start n m (start + of_nat k) = m (start + of_nat k)"
      by (intro memcpy_outside) simp
    then show ?thesis
      using assms(1) True by (simp add: filled_def)
  next
    case False
    let ?j = "k - unat s"
    have j: "?j < unat n" "?j < unat s" "?j < 2 ^ 64"
      using False k n small by auto
    have "start + of_nat k = start + s + of_nat ?j"
      using False by (simp add: of_nat_diff)
    moreover have "of_nat ?j < n"
      using j by (simp add: word_less_nat_alt unat_of_nat)
    ultimately have "memcpy (start + s) start n m (start + of_nat k) = m (start + of_nat ?j)"
      by (simp only: memcpy_inside)
    also have "\<dots> = pat ?j"
      using assms(1) j(2) by (simp add: filled_def)
    also have "\<dots> = pat k"
      using assms(4) [of ?j] False by simp
    finally show ?thesis .
  qed
next
  fix a assume a: "unat s + unat n \<le> unat (a - start)"
  then have "unat n \<le> unat (a - start - s)"
    by (rule unat_sub_ge)
  then have "\<not> a - (start + s) < n"
    by (simp add: word_less_nat_alt diff_diff_eq)
  then show "memcpy (start + s) start n m a = m0 a"
    using assms(1) a by (simp add: memcpy_outside filled_def)
qed

lemma fill_loop_filled:
  assumes "filled start pat m0 (unat s) m" and "s \<noteq> 0" and "unat s \<le> unat n"
    and "unat start + 2 * unat n < 2 ^ 64" and "\<And>k. pat (k + unat p) = pat k"
    and "unat p dvd unat s"
  shows "\<exists>s' m'. fill_loop start (start + n) (start + s) s m = Some (start + s', m') \<and>
     filled start pat m0 (unat s') m' \<and> unat s' \<le> unat n \<and> unat n \<le> 2 * unat s' \<and>
     unat p dvd unat s'"
  using assms
proof (induction "unat n - unat s" arbitrary: s m rule: less_induct)
  case less
  have bound: "unat start + 2 * unat n < 2 ^ 64"
    by (rule less.prems(4))
  have finish: "unat (start + n) = unat start + unat n"
    using bound by (intro unat_plus_no_wrap) simp
  have twice: "unat (s * 2) = 2 * unat s"
    using bound less.prems(3) by (subst unat_times_no_wrap) simp_all
  have current: "unat (start + s + s) = unat start + 2 * unat s"
  proof -
    have c: "unat (start + s) = unat start + unat s"
      using bound less.prems(3) by (intro unat_plus_no_wrap) simp
    have "unat (start + s + s) = unat (start + s) + unat s"
      using bound less.prems(3) c by (intro unat_plus_no_wrap) simp
    then show ?thesis
      using c by linarith
  qed
  have test: "start + s + s < start + n \<longleftrightarrow> 2 * unat s < unat n"
    unfolding word_less_nat_alt finish current by simp
  show ?case
  proof (cases "2 * unat s < unat n")
    case False
    then have "fill_loop start (start + n) (start + s) s m = Some (start + s, m)"
      using test by (subst fill_loop.simps) simp
    then show ?thesis
      using less.prems False by (intro exI [of _ s] exI [of _ m]) simp
  next
    case True
    let ?m = "memcpy (start + s) start s m"
    have step: "fill_loop start (start + n) (start + s) s m
        = fill_loop start (start + n) (start + s * 2) (s * 2) ?m"
      using True test by (subst fill_loop.simps) (simp add: algebra_simps)
    have period: "pat (k + unat s) = pat k" for k
    proof -
      obtain c where c: "unat s = unat p * c"
        using less.prems(6) by (auto elim: dvdE)
      have "pat (k + unat p * c) = pat k"
        by (induction c) (simp_all add: less.prems(5) add.assoc [symmetric] add.commute [of "unat p"])
      then show ?thesis
        by (simp add: c)
    qed
    have m: "filled start pat m0 (unat (s * 2)) ?m"
      using filled_copy [OF less.prems(1) order_refl _ period] bound less.prems(3)
      by (simp add: twice mult_2)
    have pos: "unat s \<noteq> 0"
      using less.prems(2) by (simp only: unat_eq_zero simp_thms)
    have "unat n - unat (s * 2) < unat n - unat s"
      using True twice pos by linarith
    moreover have "s * 2 \<noteq> 0"
      using twice pos by (metis mult_eq_0_iff unat_0 zero_neq_numeral)
    ultimately show ?thesis
      unfolding step
      using less.hyps [of "s * 2" ?m] m less.prems True twice by (simp add: dvd_mult)
  qed
qed
lemma store_bytes_filled:
  assumes "length bytes < 2 ^ 64"
  shows "filled start (\<lambda>k. bytes ! (k mod length bytes)) m (length bytes) (store_bytes start bytes m)"
  using assms by (simp add: filled_def store_bytes_def unat_of_nat)

text \<open>
  C21: \<^verbatim>\<open>commandFillBuffer\<close> returns, for a pattern that is not empty and not larger than the range, and
  leaves the range filled with repetitions of the pattern, the last of which may be cut off; no
  byte outside the range changes.
\<close>

theorem fill_repeats_pattern:
  assumes "start = buffer_data (host_buffers w buffer) + offset" and "length pattern = unat pattern_size"
    and "pattern_size \<noteq> 0" and "pattern_size \<le> sz" and "unat start + 2 * unat sz < 2 ^ 64"
  shows "\<exists>w'. commandFillBuffer buffer offset sz pattern pattern_size w = Some w' \<and>
     (\<forall>k < unat sz. mem w' (start + of_nat k) = pattern ! (k mod length pattern)) \<and>
     (\<forall>a. unat sz \<le> unat (a - start) \<longrightarrow> mem w' a = mem w a)"
proof -
  let ?pat = "\<lambda>k. pattern ! (k mod length pattern)"
  let ?m = "store_bytes start pattern (mem w)"
  have "filled start ?pat (mem w) (unat pattern_size) ?m"
    using store_bytes_filled [of pattern start "mem w"] unsigned_less [of pattern_size, where 'a = nat]
    by (simp add: assms(2))
  from fill_loop_filled [OF this assms(3) _ assms(5), of pattern_size] assms(2,4)
  obtain s' m' where loop: "fill_loop start (start + sz) (start + pattern_size) pattern_size ?m
      = Some (start + s', m')" and m': "filled start ?pat (mem w) (unat s') m'"
    and s': "unat s' \<le> unat sz" "unat sz \<le> 2 * unat s'" "unat pattern_size dvd unat s'"
    by (auto simp: word_le_nat_alt)
  have rest: "unat (sz - s') = unat sz - unat s'"
    using s'(1) by (rule unat_minus_no_wrap)
  have period: "?pat (k + unat s') = ?pat k" for k
    using s'(3) by (simp add: assms(2) mod_add_eq [symmetric] dvd_imp_mod_0)
  have "filled start ?pat (mem w) (unat s' + unat (sz - s'))
      (memcpy (start + s') start (sz - s') m')"
    using m' s' rest unsigned_less [of sz, where 'a = nat]
    by (intro filled_copy period) (simp_all add: word_le_nat_alt)
  then have "filled start ?pat (mem w) (unat sz) (memcpy (start + s') start (sz - s') m')"
    using s'(1) rest by simp
  then show ?thesis
    unfolding filled_def commandFillBuffer_def Let_def assms(1) [symmetric]
    using loop assms(2) by (auto simp: diff_diff_eq [symmetric])
qed

theorem fill_repeats_pattern_witness:
  "\<exists>w'. commandFillBuffer 0x40 2 5 [7, 8] 2 empty_host_world = Some w' \<and>
     mem w' 5 = 8 \<and> mem w' 6 = 7 \<and> mem w' 7 = 0"
proof -
  obtain w' where w': "commandFillBuffer 0x40 2 5 [7, 8] 2 empty_host_world = Some w'"
    "\<forall>k < unat (5 :: u64). mem w' (2 + of_nat k) = [7, 8] ! (k mod length [7, 8 :: u8])" "mem w' 7 = 0"
    using fill_repeats_pattern [of 2 empty_host_world "0x40" 2 "[7, 8]" 2 5] by auto
  have "mem w' 5 = 8" and "mem w' 6 = 7"
    using w'(2) [THEN spec [of _ 3]] w'(2) [THEN spec [of _ 4]]
    by (simp_all add: numeral_2_eq_2 [symmetric])
  then show ?thesis
    using w'(1,3) by blast
qed

end
