(* ===== verification/Host_Arguments.thy ===== *)
theory Host_Arguments
  imports Host_Command_Buffer
begin

text \<open>
  The arguments of ND-ranges and the blocks of command buffers (\<^verbatim>\<open>command_buffer.cpp\<close> of the host
  target). \<open>holds_arguments\<close> is the abstract view of a packed area: a list of descriptors. Packing
  establishes it at the recorded addresses, and \<^verbatim>\<open>hostUpdateDescriptors\<close> refines the update of the
  list.
\<close>

section \<open>Packed arguments\<close>

text \<open>What byte \<open>j\<close> of an argument is, in the memory \<open>m\<close> that its data is read from.\<close>

fun argument_byte :: "(ptr \<Rightarrow> host_buffer_s) \<Rightarrow> byte_memory \<Rightarrow> mux_descriptor_info_s \<Rightarrow> nat \<Rightarrow> u8" where
  "argument_byte bufs m (Descriptor_buffer b off) j = byte_of (buffer_data (bufs b) + off) j"
| "argument_byte bufs m (Descriptor_plain_old_data data len) j = m (data + of_nat j)"
| "argument_byte bufs m (Descriptor_shared_local_buffer sz) j = byte_of sz j"
| "argument_byte bufs m _ j = 0"

fun packable :: "mux_descriptor_info_s \<Rightarrow> bool" where
  "packable (Descriptor_image i) = False"
| "packable (Descriptor_sampler s) = False"
| "packable _ = True"

definition packed_size :: "mux_descriptor_info_s list \<Rightarrow> nat" where
  "packed_size ds = sum_list (map (\<lambda>d. unat (descriptor_size d)) ds)"

text \<open>The data of the arguments is not in the \<open>n\<close> bytes at \<open>p\<close>.\<close>

definition data_apart :: "ptr \<Rightarrow> nat \<Rightarrow> mux_descriptor_info_s list \<Rightarrow> bool" where
  "data_apart p n ds \<longleftrightarrow>
     (\<forall>data len. Descriptor_plain_old_data data len \<in> set ds \<longrightarrow>
        (\<forall>j < unat len. n \<le> unat (data + of_nat j - p)))"

lemma byte_of_0: "byte_of 0 j = 0"
  by (simp add: byte_of_def)

lemma write_argument_spec:
  assumes "packable d" and "write_argument bufs d p m = (m1, n)"
  shows "n = descriptor_size d" and "j < unat n \<Longrightarrow> m1 (p + of_nat j) = argument_byte bufs m d j"
    and "unat n \<le> unat (a - p) \<Longrightarrow> m1 a = m a"
proof -
  show n: "n = descriptor_size d"
    using assms by (cases d) auto
  have store: "store64 p v m (p + of_nat j) = byte_of v j" if "j < 8" for v
    using that by (simp add: store64_def word_less_nat_alt unat_of_nat)
  have copy: "memcpy p data len m (p + of_nat j) = m (data + of_nat j)" if "j < unat len" for data len
    using that unsigned_less [of len, where 'a = nat]
    by (intro memcpy_inside) (simp add: word_less_nat_alt unat_of_nat)
  show "m1 (p + of_nat j) = argument_byte bufs m d j" if "j < unat n"
    using assms that store copy byte_of_0 by (cases d) auto
  show "m1 a = m a" if "unat n \<le> unat (a - p)"
    using assms that
    by (cases d) (auto simp: store64_def word_less_nat_alt memcpy_outside)
qed

lemma unat_diff_shift:
  fixes a q s :: u64
  shows "unat s \<le> unat (a - q) \<Longrightarrow> unat (a - (q + s)) = unat (a - q) - unat s"
    and "unat (a - q) < unat s \<Longrightarrow> unat (a - (q + s)) = 2 ^ 64 + unat (a - q) - unat s"
  using unat_minus_no_wrap [of s "a - q"] unat_sub_if' [of "a - q" s]
  by (simp_all add: diff_diff_eq)

lemma argument_byte_cong:
  assumes "data_apart p n ds" and "d \<in> set ds" and "\<And>a. n \<le> unat (a - p) \<Longrightarrow> m1 a = m a"
    and "j < unat (descriptor_size d)"
  shows "argument_byte bufs m1 d j = argument_byte bufs m d j"
  using assms by (cases d) (auto simp: data_apart_def)

lemma write_arguments_spec:
  assumes "\<forall>d \<in> set ds. packable d" and "packed_size ds < 2 ^ 64" and "data_apart p (packed_size ds) ds"
  shows "(\<forall>a. packed_size ds \<le> unat (a - p) \<longrightarrow> write_arguments bufs ds p m a = m a) \<and>
     (\<forall>i < length ds. \<forall>j < unat (descriptor_size (ds ! i)).
        write_arguments bufs ds p m (p + of_nat (packed_size (take i ds) + j))
          = argument_byte bufs m (ds ! i) j)"
  using assms
proof (induction ds arbitrary: p m)
  case Nil
  then show ?case
    by (simp add: packed_size_def)
next
  case (Cons d ds)
  let ?n = "unat (descriptor_size d)"
  have size: "packed_size (d # ds) = ?n + packed_size ds"
    by (simp add: packed_size_def)
  obtain m1 n where wr: "write_argument bufs d p m = (m1, n)"
    by fastforce
  have d: "packable d"
    using Cons.prems(1) by simp
  have n: "n = descriptor_size d"
    by (rule write_argument_spec(1) [OF d wr])
  note inside = write_argument_spec(2) [OF d wr]
  note outside = write_argument_spec(3) [OF d wr]
  let ?q = "p + descriptor_size d"
  let ?W = "write_arguments bufs ds ?q m1"
  have W: "write_arguments bufs (d # ds) p m = ?W"
    by (simp add: wr n)
  have after: "packed_size ds \<le> unat (a - ?q)" if "packed_size (d # ds) \<le> unat (a - p)" for a
    using that unat_diff_shift(1) [of "descriptor_size d" a p] by (simp add: size)
  have before: "packed_size ds \<le> unat (a - ?q)" if "unat (a - p) < ?n" for a
    using that unat_diff_shift(2) [of a p "descriptor_size d"] Cons.prems(2) size by simp
  have apart: "data_apart ?q (packed_size ds) ds"
    using Cons.prems(3) after by (auto simp: data_apart_def)
  have IH: "\<forall>a. packed_size ds \<le> unat (a - ?q) \<longrightarrow> ?W a = m1 a"
    "\<forall>i < length ds. \<forall>j < unat (descriptor_size (ds ! i)).
        ?W (?q + of_nat (packed_size (take i ds) + j)) = argument_byte bufs m1 (ds ! i) j"
    using Cons.IH [of ?q m1] Cons.prems(1,2) apart size by auto
  have A: "?W a = m a" if "packed_size (d # ds) \<le> unat (a - p)" for a
    using IH(1) after [OF that] outside [of a] that by (simp add: size n)
  have B0: "?W (p + of_nat j) = argument_byte bufs m d j" if "j < ?n" for j
  proof -
    have "unat (of_nat j :: u64) = j"
      using that unsigned_less [of "descriptor_size d", where 'a = nat] by (simp add: unat_of_nat)
    then show ?thesis
      using IH(1) before [of "p + of_nat j"] inside [of j] that by (simp add: n)
  qed
  have B: "?W (p + of_nat (?n + packed_size (take i ds) + j)) = argument_byte bufs m (ds ! i) j"
    if "i < length ds" "j < unat (descriptor_size (ds ! i))" for i j
  proof -
    have m1: "argument_byte bufs m1 (ds ! i) j = argument_byte bufs m (ds ! i) j"
      using that Cons.prems(3) outside size
      by (intro argument_byte_cong [of p "packed_size (d # ds)" "d # ds"]) (simp_all add: n)
    have pos: "p + of_nat (?n + packed_size (take i ds) + j)
        = ?q + of_nat (packed_size (take i ds) + j)"
      by (simp add: of_nat_unat add.assoc)
    show ?thesis
      unfolding pos m1 [symmetric] using IH(2) that by blast
  qed
  show ?case
    unfolding W
  proof (intro conjI allI impI)
    fix i j assume i: "i < length (d # ds)" and j: "j < unat (descriptor_size ((d # ds) ! i))"
    show "?W (p + of_nat (packed_size (take i (d # ds)) + j)) = argument_byte bufs m ((d # ds) ! i) j"
    proof (cases i)
      case 0
      then show ?thesis
        using B0 j by (simp add: packed_size_def)
    next
      case (Suc i')
      then show ?thesis
        using B [of i' j] i j by (simp add: packed_size_def)
    qed
  qed (use A in blast)
qed

lemma packed_offsets_spec:
  "packed_offsets off ds =
     (map (\<lambda>i. off + of_nat (packed_size (take i ds))) [0..<length ds], off + of_nat (packed_size ds))"
proof (induction ds arbitrary: off)
  case (Cons d ds)
  have "map (\<lambda>i. off + of_nat (packed_size (take i (d # ds)))) [0..<length (d # ds)]
      = off # map (\<lambda>i. off + descriptor_size d + of_nat (packed_size (take i ds))) [0..<length ds]"
    unfolding length_Cons by (subst upt_conv_Cons)
      (simp_all add: packed_size_def of_nat_unat map_Suc_upt [symmetric] add.assoc del: upt_Suc)
  then show ?case
    using Cons.IH [of "off + descriptor_size d"] by (simp add: packed_size_def of_nat_unat add.assoc)
qed (simp add: packed_size_def)

text \<open>
  C4: \<^verbatim>\<open>calcPackedArgsAllocSize\<close> and \<^verbatim>\<open>populatePackedArgs\<close> agree on the layout of the packed
  arguments: for arguments that are neither images nor samplers, argument \<open>i\<close> is written, byte for
  byte, at the offset that was recorded for it, nothing is written outside of the computed size, and
  the arguments do not overwrite each other.
\<close>

theorem packed_arguments:
  assumes "\<forall>d \<in> set ds. packable d" and "packed_size ds < 2 ^ 64" and "data_apart p (packed_size ds) ds"
    and "calcPackedArgsAllocSize descriptors offsets = (sz, offsets')" and "da_elems descriptors = ds"
    and "w' = populatePackedArgs p descriptors w"
  shows "unat sz = packed_size ds \<and> length (da_elems offsets') = length ds \<and>
     (\<forall>i < length ds. \<forall>j < unat (descriptor_size (ds ! i)).
        mem w' (p + da_elems offsets' ! i + of_nat j) = argument_byte (host_buffers w) (mem w) (ds ! i) j) \<and>
     (\<forall>a. unat sz \<le> unat (a - p) \<longrightarrow> mem w' a = mem w a)"
proof -
  have off: "sz = of_nat (packed_size ds)"
    "da_elems offsets' = map (\<lambda>i. of_nat (packed_size (take i ds))) [0..<length ds]"
    using assms(4,5) by (auto simp: calcPackedArgsAllocSize_def packed_offsets_spec)
  have "unat sz = packed_size ds"
    using assms(2) by (simp add: off unat_of_nat)
  then show ?thesis
    using write_arguments_spec [OF assms(1-3), of "host_buffers w" "mem w"] assms(5,6) off(2)
    by (auto simp: populatePackedArgs_def add.assoc)
qed

text \<open>A world with a buffer of 64 bytes at \<^verbatim>\<open>0x200\<close>, in which every byte is its address.\<close>

definition demo_transfer_world :: host_world where
  "demo_transfer_world = empty_host_world
     \<lparr>buffers := (\<lambda>_. \<lparr>buffer_id = 0x00010001, buffer_requirements =
        \<lparr>req_size = 64, req_alignment = 16, req_supported_heaps = 2\<rparr>\<rparr>),
      command_buffers := (\<lambda>_. \<lparr>command_buffer_id = 0x00020001, command_buffer_device = 0\<rparr>),
      host_buffers := (\<lambda>_. \<lparr>buffer_data = 0x200\<rparr>), mem := (\<lambda>a. ucast a)\<rparr>"

text \<open>An allocator that hands out the addresses of a list.\<close>

definition slots_allocator :: "ptr list \<Rightarrow> mux_allocator_info_s" where
  "slots_allocator slots =
     \<lparr>alloc_fn = Some (\<lambda>u r bs. case find (\<lambda>p. bs p = None) slots of
        None \<Rightarrow> (0, bs) | Some p \<Rightarrow> (p, bs(p \<mapsto> r))),
      free_fn = Some (\<lambda>u p bs. bs(p := None)), alloc_user_data = 0\<rparr>"

theorem packed_arguments_witness:
  "\<exists>w'. w' = populatePackedArgs 0x300 ((da_new two_slot_allocator)
        \<lparr>da_elems := [Descriptor_plain_old_data 0x100 2, Descriptor_shared_local_buffer 5]\<rparr>)
        demo_transfer_world \<and> mem w' 0x301 = 1 \<and> mem w' 0x302 = 5 \<and> mem w' 0x30A = 0x0A"
proof -
  let ?ds = "[Descriptor_plain_old_data 0x100 2, Descriptor_shared_local_buffer 5]"
  let ?da = "(da_new two_slot_allocator)\<lparr>da_elems := ?ds\<rparr>"
  let ?w' = "populatePackedArgs 0x300 ?da demo_transfer_world"
  have size: "packed_size ?ds = 10"
    by (simp add: packed_size_def)
  have apart: "data_apart 0x300 (packed_size ?ds) ?ds"
  proof -
    have "10 \<le> unat (0x100 + of_nat j - 0x300 :: ptr)" if "j < 2" for j
    proof -
      have "j = 0 \<or> j = 1"
        using that by auto
      then show ?thesis
        by auto
    qed
    then show ?thesis
      unfolding size by (simp add: data_apart_def)
  qed
  obtain sz offs where calc: "calcPackedArgsAllocSize ?da (da_new two_slot_allocator) = (sz, offs)"
    by fastforce
  have offs: "sz = 10" "da_elems offs = [0, 2]"
    using calc by (auto simp: calcPackedArgsAllocSize_def)
  have args: "\<forall>i < length ?ds. \<forall>j < unat (descriptor_size (?ds ! i)).
        mem ?w' (0x300 + da_elems offs ! i + of_nat j)
          = argument_byte (host_buffers demo_transfer_world) (mem demo_transfer_world) (?ds ! i) j"
    and rest: "\<forall>a. unat sz \<le> unat (a - 0x300) \<longrightarrow> mem ?w' a = mem demo_transfer_world a"
    using packed_arguments [OF _ _ apart calc _ refl, of demo_transfer_world] size by simp_all
  have "mem ?w' 0x301 = 1"
    using args [THEN spec [of _ 0], THEN mp, THEN spec [of _ 1]] by (simp add: offs demo_transfer_world_def)
  moreover have "mem ?w' 0x302 = 5"
    using args [THEN spec [of _ 1], THEN mp, THEN spec [of _ 0]]
    by (simp add: offs byte_of_def)
  moreover have "mem ?w' 0x30A = 0x0A"
    using rest [THEN spec [of _ "0x30A"]] by (simp add: offs demo_transfer_world_def)
  ultimately show ?thesis
    by blast
qed

section \<open>Updating arguments\<close>

text \<open>The memory holds the arguments \<open>ds\<close> packed at \<open>p\<close>; their data is read from \<open>m0\<close>.\<close>

definition holds_arguments ::
  "(ptr \<Rightarrow> host_buffer_s) \<Rightarrow> byte_memory \<Rightarrow> ptr \<Rightarrow> mux_descriptor_info_s list \<Rightarrow> byte_memory \<Rightarrow> bool" where
  "holds_arguments bufs m0 p ds m \<longleftrightarrow>
     (\<forall>i < length ds. \<forall>j < unat (descriptor_size (ds ! i)).
        m (p + of_nat (packed_size (take i ds) + j)) = argument_byte bufs m0 (ds ! i) j) \<and>
     (\<forall>a. packed_size ds \<le> unat (a - p) \<longrightarrow> m a = m0 a)"

fun updatable :: "mux_descriptor_info_s \<Rightarrow> bool" where
  "updatable (Descriptor_image i) = False"
| "updatable (Descriptor_sampler s) = False"
| "updatable (Descriptor_custom_buffer data sz space) = False"
| "updatable _ = True"

lemma packed_size_Cons: "packed_size (d # ds) = unat (descriptor_size d) + packed_size ds"
  by (simp add: packed_size_def)

lemma packed_size_append: "packed_size (xs @ ys) = packed_size xs + packed_size ys"
  by (simp add: packed_size_def)

lemma packed_size_split:
  assumes "i < length ds"
  shows "packed_size ds = packed_size (take i ds) + unat (descriptor_size (ds ! i)) + packed_size (drop (Suc i) ds)"
  by (subst id_take_nth_drop [OF assms]) (simp add: packed_size_append packed_size_Cons)

lemma packed_size_take_mono: "i \<le> k \<Longrightarrow> packed_size (take i ds) \<le> packed_size (take k ds)"
  by (metis le_add1 min.absorb1 packed_size_append append_take_drop_id take_take)

lemma packed_size_take_Suc:
  "i < length ds \<Longrightarrow> packed_size (take (Suc i) ds) = packed_size (take i ds) + unat (descriptor_size (ds ! i))"
  by (simp add: take_Suc_conv_app_nth packed_size_append packed_size_Cons packed_size_def)

lemma packed_size_update:
  assumes "descriptor_size d = descriptor_size (ds ! i)"
  shows "packed_size (ds[i := d]) = packed_size ds" and "packed_size (take k (ds[i := d])) = packed_size (take k ds)"
proof -
  have "map (\<lambda>d. unat (descriptor_size d)) (ds[i := d]) = map (\<lambda>d. unat (descriptor_size d)) ds"
    using assms by (cases "i < length ds") (simp_all add: map_update list_update_same_conv list_update_beyond)
  then show "packed_size (ds[i := d]) = packed_size ds"
    and "packed_size (take k (ds[i := d])) = packed_size (take k ds)"
    unfolding packed_size_def by (simp_all add: take_map [symmetric])
qed

lemma update_is_write:
  assumes "updatable d"
  shows "update_argument bufs d p m = Some (fst (write_argument bufs d p m))" and "packable d"
  using assms by (cases d; simp add: update_argument_def)+

lemma update_argument_holds:
  assumes holds: "holds_arguments bufs m0 p ds m" and i: "i < length ds"
    and d: "updatable d" "descriptor_size d = descriptor_size (ds ! i)"
    and small: "packed_size ds < 2 ^ 64" and apart: "data_apart p (packed_size ds) [d]"
  shows "\<exists>m'. update_argument bufs d (p + of_nat (packed_size (take i ds))) m = Some m' \<and>
     holds_arguments bufs m0 p (ds[i := d]) m'"
proof -
  let ?q = "p + of_nat (packed_size (take i ds))"
  let ?m = "fst (write_argument bufs d ?q m)"
  let ?s = "packed_size (take i ds)" and ?n = "unat (descriptor_size d)"
  obtain n where wr: "write_argument bufs d ?q m = (?m, n)"
    by (cases "write_argument bufs d ?q m") auto
  note spec = write_argument_spec [OF update_is_write(2) [OF d(1)] wr]
  have n: "n = descriptor_size d"
    by (rule spec(1))
  have s: "?s + ?n \<le> packed_size ds"
    using packed_size_split [OF i] d(2) by simp
  then have us: "unat (of_nat ?s :: u64) = ?s"
    using small by (simp add: unat_of_nat)
  have new: "?m (?q + of_nat j) = argument_byte bufs m0 d j" if "j < ?n" for j
  proof -
    have "argument_byte bufs m d j = argument_byte bufs m0 d j"
      using holds that apart
      by (intro argument_byte_cong [of p "packed_size ds" "[d]"]) (auto simp: holds_arguments_def)
    then show ?thesis
      using spec(2) [of j] that by (simp add: n)
  qed
  have other: "?m a = m a" if "unat (a - p) < ?s \<or> ?s + ?n \<le> unat (a - p)" for a
  proof -
    have "?n \<le> unat (a - ?q)"
      using that unat_diff_shift(1) [of "of_nat ?s" a p] unat_diff_shift(2) [of a p "of_nat ?s"] us s small by auto
    then show ?thesis
      using spec(3) [of a] by (simp add: n)
  qed
  have "holds_arguments bufs m0 p (ds[i := d]) ?m"
    unfolding holds_arguments_def packed_size_update [OF d(2)]
  proof (intro conjI allI impI)
    fix k j assume k: "k < length (ds[i := d])" and j: "j < unat (descriptor_size (ds[i := d] ! k))"
    let ?o = "packed_size (take k ds) + j"
    show "?m (p + of_nat ?o) = argument_byte bufs m0 (ds[i := d] ! k) j"
    proof (cases "k = i")
      case True
      then show ?thesis
        using new [of j] i j by (simp add: add.assoc)
    next
      case False
      have kj: "k < length ds" "j < unat (descriptor_size (ds ! k))"
        using k j False by simp_all
      then have "?o < packed_size ds"
        using packed_size_split [of k ds] by simp
      then have uo: "unat (of_nat ?o :: u64) = ?o"
        using small by (subst unat_of_nat) simp
      have "?o < ?s \<or> ?s + ?n \<le> ?o"
        using False kj i d(2) packed_size_take_Suc [of k ds] packed_size_take_Suc [of i ds]
          packed_size_take_mono [of "Suc k" i ds] packed_size_take_mono [of "Suc i" k ds]
        by (cases "k < i") auto
      then have "?m (p + of_nat ?o) = m (p + of_nat ?o)"
        using uo by (intro other) simp
      then show ?thesis
        using holds kj False by (simp add: holds_arguments_def)
    qed
  next
    fix a assume "packed_size ds \<le> unat (a - p)"
    then show "?m a = m0 a"
      using other [of a] s holds by (simp add: holds_arguments_def)
  qed
  then show ?thesis
    using update_is_write(1) [OF d(1)] by blast
qed
text \<open>The descriptors after the updates.\<close>

fun updated :: "nat \<Rightarrow> u64 list \<Rightarrow> mux_descriptor_info_s list \<Rightarrow> mux_descriptor_info_s list
    \<Rightarrow> mux_descriptor_info_s list" where
  "updated (Suc n) (i # is) (d # new) ds = updated n is new (ds[unat i := d])"
| "updated _ _ _ ds = ds"

text \<open>
  The updates are for arguments that exist, of a kind that can be updated, and keep the size of
  the argument; their data is not in the packed area.
\<close>

fun updates_ok :: "ptr \<Rightarrow> nat \<Rightarrow> u64 list \<Rightarrow> mux_descriptor_info_s list \<Rightarrow> mux_descriptor_info_s list \<Rightarrow> bool" where
  "updates_ok p (Suc n) (i # is) (d # new) ds \<longleftrightarrow>
     unat i < length ds \<and> updatable d \<and> descriptor_size d = descriptor_size (ds ! unat i) \<and>
     data_apart p (packed_size ds) [d] \<and> updates_ok p n is new ds"
| "updates_ok p 0 _ _ ds \<longleftrightarrow> True"
| "updates_ok p (Suc n) _ _ ds \<longleftrightarrow> False"

lemma updates_ok_update:
  assumes "descriptor_size d = descriptor_size (ds ! i)"
  shows "updates_ok p n is new (ds[i := d]) = updates_ok p n is new ds"
proof -
  have size: "descriptor_size (ds[i := d] ! k) = descriptor_size (ds ! k)" for k
    using assms by (cases "k = i"; cases "i < length ds") (simp_all add: list_update_beyond)
  show ?thesis
  proof (induction n arbitrary: "is" new)
    case (Suc n)
    then show ?case
      by (cases "is"; cases new) (simp_all add: size packed_size_update [OF assms])
  qed simp
qed

lemma update_arguments_holds:
  assumes "holds_arguments (host_buffers w) m0 p ds (mem w)" and "packed_size ds < 2 ^ 64"
    and "updates_ok p n is new ds"
    and "da_begin (arg_addresses info) \<noteq> 0" and "da_count (arg_addresses info) = length ds"
    and "da_elems (arg_addresses info) = map (\<lambda>i. p + of_nat (packed_size (take i ds))) [0..<length ds]"
  shows "\<exists>m. update_arguments info n is new w = Some (mux_success, w\<lparr>mem := m\<rparr>) \<and>
     holds_arguments (host_buffers w) m0 p (updated n is new ds) m"
  using assms
proof (induction n arbitrary: "is" new ds w)
  case 0
  then show ?case
    by (intro exI [of _ "mem w"]) simp
next
  case (Suc n)
  obtain i is' d new' where args: "is = i # is'" "new = d # new'"
    using Suc.prems(3) by (cases "is"; cases new) simp_all
  let ?i = "unat i"
  have ok: "?i < length ds" "updatable d" "descriptor_size d = descriptor_size (ds ! ?i)"
    "data_apart p (packed_size ds) [d]" "updates_ok p n is' new' ds"
    using Suc.prems(3) by (simp_all add: args)
  obtain m where m: "update_argument (host_buffers w) d (p + of_nat (packed_size (take ?i ds))) (mem w) = Some m"
    "holds_arguments (host_buffers w) m0 p (ds[?i := d]) m"
    using update_argument_holds [OF Suc.prems(1) ok(1-3) Suc.prems(2) ok(4)] by blast
  have addr: "da_index (arg_addresses info) ?i = Some (p + of_nat (packed_size (take ?i ds)))"
    using Suc.prems(4-6) ok(1) by (simp add: da_index_def da_size_def)
  have "\<exists>m'. update_arguments info n is' new' (w\<lparr>mem := m\<rparr>) = Some (mux_success, w\<lparr>mem := m\<rparr>\<lparr>mem := m'\<rparr>) \<and>
     holds_arguments (host_buffers w) m0 p (updated n is' new' (ds[?i := d])) m'"
    using Suc.IH [of "w\<lparr>mem := m\<rparr>" "ds[?i := d]"] m(2) Suc.prems(2,4-6) ok(5)
    by (simp add: packed_size_update [OF ok(3)] updates_ok_update [OF ok(3)])
  then show ?case
    using addr m(1) by (simp add: args)
qed

text \<open>
  C12: \<^verbatim>\<open>hostUpdateDescriptors\<close> on an ND-range, with descriptors of the kinds it supports and of the
  sizes of the arguments they replace, succeeds and replaces exactly the named arguments in the list
  that the packed area stands for; no byte outside of the packed area changes.
\<close>

theorem update_descriptors_refines:
  assumes "sv_index (commands (host_command_buffers w cb)) (unat command_id) = Some (Command_ndrange knl i)"
    and "sv_elems (ndranges (host_command_buffers w cb)) ! i = info" and "packed_args info = p"
    and "holds_arguments (host_buffers w) m0 p ds (mem w)" and "packed_size ds < 2 ^ 64"
    and "da_begin (arg_addresses info) \<noteq> 0" and "da_count (arg_addresses info) = length ds"
    and "da_elems (arg_addresses info) = map (\<lambda>i. p + of_nat (packed_size (take i ds))) [0..<length ds]"
    and "updates_ok p (unat num_args) indices new ds"
  shows "\<exists>m. hostUpdateDescriptors cb command_id num_args indices new w = Some (mux_success, w\<lparr>mem := m\<rparr>) \<and>
     holds_arguments (host_buffers w) m0 p (updated (unat num_args) indices new ds) m"
  using update_arguments_holds [OF assms(4,5,9,6,7,8)] assms(1,2) by (simp add: hostUpdateDescriptors_def)

lemma write_arguments_holds:
  assumes "\<forall>d \<in> set ds. packable d" and "packed_size ds < 2 ^ 64" and "data_apart p (packed_size ds) ds"
  shows "holds_arguments bufs m p ds (write_arguments bufs ds p m)"
  using write_arguments_spec [OF assms] by (simp add: holds_arguments_def)

text \<open>A command buffer with one ND-range, whose two arguments are packed at \<^verbatim>\<open>0x300\<close>.\<close>

definition demo_ndrange :: ndrange_info_s where
  "demo_ndrange = \<lparr>packed_args = 0x300,
     arg_addresses = \<lparr>da_allocator = two_slot_allocator, da_begin = 0x1000, da_count = 2,
       da_elems = [0x300, 0x308]\<rparr>,
     ndr_descriptors = da_new two_slot_allocator, global_size = [8, 1, 1], global_offset = [0, 0, 0],
     local_size = [4, 1, 1], dimensions = 1\<rparr>"

definition demo_update_world :: host_world where
  "demo_update_world = demo_transfer_world
     \<lparr>host_command_buffers := (\<lambda>_. (host_command_buffers empty_host_world 0)
        \<lparr>commands := (sv_new 16 0x10 two_slot_allocator)\<lparr>sv_elems := [Command_ndrange 0x60 0]\<rparr>,
         ndranges := (sv_new 4 0x10 two_slot_allocator)\<lparr>sv_elems := [demo_ndrange]\<rparr>\<rparr>),
      mem := write_arguments (host_buffers demo_transfer_world)
        [Descriptor_null_buffer, Descriptor_shared_local_buffer 5] 0x300 (mem demo_transfer_world)\<rparr>"

theorem update_descriptors_refines_witness:
  "\<exists>w'. hostUpdateDescriptors 0x30 0 1 [1] [Descriptor_shared_local_buffer 9] demo_update_world
       = Some (mux_success, w') \<and> mem w' 0x300 = 0 \<and> mem w' 0x308 = 9"
proof -
  let ?w = demo_update_world and ?ds = "[Descriptor_null_buffer, Descriptor_shared_local_buffer 5]"
  have size: "packed_size ?ds = 16"
    by (simp add: packed_size_def)
  have apart: "data_apart 0x300 n [Descriptor_shared_local_buffer 9]" "data_apart 0x300 n ?ds" for n
    by (simp_all add: data_apart_def)
  have holds: "holds_arguments (host_buffers ?w) (mem demo_transfer_world) 0x300 ?ds (mem ?w)"
    using write_arguments_holds [of ?ds "0x300" "host_buffers ?w"] apart(2) size
    by (simp add: demo_update_world_def)
  have cmd: "sv_index (commands (host_command_buffers ?w 0x30)) (unat (0 :: u32)) = Some (Command_ndrange 0x60 0)"
    "sv_elems (ndranges (host_command_buffers ?w 0x30)) ! 0 = demo_ndrange"
    by (simp_all add: demo_update_world_def sv_index_def)
  have info: "packed_args demo_ndrange = 0x300" "da_begin (arg_addresses demo_ndrange) \<noteq> 0"
    "da_count (arg_addresses demo_ndrange) = length ?ds"
    "da_elems (arg_addresses demo_ndrange)
       = map (\<lambda>i. 0x300 + of_nat (packed_size (take i ?ds))) [0..<length ?ds]"
    by (simp_all add: demo_ndrange_def packed_size_def upt_rec)
  have ok: "updates_ok 0x300 (unat (1 :: u64)) [1] [Descriptor_shared_local_buffer 9] ?ds"
    using apart(1) by simp
  have small: "packed_size ?ds < 2 ^ 64"
    by (simp add: size)
  from update_descriptors_refines [OF cmd info(1) holds small info(2-4) ok] obtain m where
    m: "hostUpdateDescriptors 0x30 0 1 [1] [Descriptor_shared_local_buffer 9] ?w = Some (mux_success, ?w\<lparr>mem := m\<rparr>)"
    "holds_arguments (host_buffers ?w) (mem demo_transfer_world) 0x300
       [Descriptor_null_buffer, Descriptor_shared_local_buffer 9] m"
    by auto
  have "m 0x300 = 0" and "m 0x308 = 9"
    using m(2) [unfolded holds_arguments_def, THEN conjunct1, THEN spec [of _ 0], THEN mp, THEN spec [of _ 0]]
      m(2) [unfolded holds_arguments_def, THEN conjunct1, THEN spec [of _ 1], THEN mp, THEN spec [of _ 0]]
    by (simp_all add: packed_size_def byte_of_def)
  with m(1) show ?thesis
    by auto
qed

section \<open>Blocks\<close>

text \<open>
  C36: destroying a command buffer right after \<^verbatim>\<open>hostCreateCommandBuffer\<close> gives back exactly
  the blocks that were allocated for it and its fence.
\<close>

theorem command_buffer_create_destroy:
  assumes "allocator_ok a" and "hostCreateCommandBuffer frame device callbacks a out w = (mux_success, w')"
  shows "live_blocks (hostDestroyCommandBuffer device (cells w' out) a w') = live_blocks w"
proof -
  obtain f w1 where f: "allocator_alloc a (Request_object Obj_fence) w = (f, w1)"
    by fastforce
  let ?w2 = "set_cell frame f (fence_construct device f w1)"
  obtain c w3 where c: "allocator_alloc a (Request_object Obj_command_buffer) ?w2 = (c, w3)"
    by fastforce
  have nz: "f \<noteq> 0" "c \<noteq> 0"
    and w': "w' = set_cell out c (command_buffer_construct device a f c w3)"
    using assms(2) f c by (auto simp: hostCreateCommandBuffer_def hostCreateFence_def allocator_create_def
        set_cell_def split: if_splits)
  have w1: "live_blocks w f = None" "w1 = w\<lparr>live_blocks := (live_blocks w)(f \<mapsto> Request_object Obj_fence)\<rparr>"
    using allocator_alloc_cases [OF assms(1) f] nz by blast+
  have w3: "live_blocks ?w2 c = None"
    "w3 = ?w2\<lparr>live_blocks := (live_blocks ?w2)(c \<mapsto> Request_object Obj_command_buffer)\<rparr>"
    using allocator_alloc_cases [OF assms(1) c] nz by blast+
  have "live_blocks ?w2 = (live_blocks w)(f \<mapsto> Request_object Obj_fence)"
    by (simp add: w1(2) fence_construct_def set_cell_def host_setters)
  then have "live_blocks w' = (live_blocks w)(f \<mapsto> Request_object Obj_fence,
      c \<mapsto> Request_object Obj_command_buffer)" and "live_blocks w c = None"
    using w3 by (auto simp: w' command_buffer_construct_def set_cell_def host_setters split: if_splits)
  moreover have "live_blocks (hostDestroyCommandBuffer device (cells w' out) a w')
      = (live_blocks w')(f := None, c := None)"
    by (simp add: w' hostDestroyCommandBuffer_def command_buffer_destruct_def allocator_destroy_def
        hostDestroyFence_def allocator_free_eq assms(1) command_buffer_construct_def set_cell_def
        host_setters sv_destroy_def sv_new_def Let_def)
  ultimately show ?thesis
    using w1(1) by (auto simp: fun_eq_iff)
qed

theorem command_buffer_create_destroy_witness:
  "\<exists>w'. hostCreateCommandBuffer 0x20 0x30 0 two_slot_allocator 0x40 empty_host_world = (mux_success, w') \<and>
     live_blocks w' \<noteq> Map.empty \<and>
     live_blocks (hostDestroyCommandBuffer 0x30 (cells w' 0x40) two_slot_allocator w') = Map.empty"
proof -
  obtain r w' where call: "hostCreateCommandBuffer 0x20 0x30 0 two_slot_allocator 0x40 empty_host_world = (r, w')"
    by fastforce
  then have "r = mux_success" and "live_blocks w' 0x1000 \<noteq> None"
    by (auto simp: hostCreateCommandBuffer_def hostCreateFence_def allocator_create_def allocator_alloc_def
        two_slot_allocator_def set_cell_def fence_construct_def command_buffer_construct_def host_setters)
  then show ?thesis
    using command_buffer_create_destroy [OF two_slot_allocator_ok, of "0x20" "0x30" 0 "0x40" empty_host_world w'] call
    by auto
qed

text \<open>
  When the allocator refuses the command buffer, \<^verbatim>\<open>hostCreateCommandBuffer\<close> returns out of
  memory and keeps the fence it has allocated; and when it refuses the array of argument addresses,
  \<^verbatim>\<open>hostCommandNDRange\<close> returns out of memory and keeps the packed arguments.
\<close>

lemma failed_recording_leaks:
  "(\<exists>w'. hostCreateCommandBuffer 0x20 0x30 0 (slots_allocator [0x1000]) 0x40 empty_host_world
        = (mux_error_out_of_memory, w') \<and> live_blocks w' = [0x1000 \<mapsto> Request_object Obj_fence]) \<and>
   (\<exists>w'. hostCommandNDRange 0x30 0x60 \<lparr>nd_descriptors = [Descriptor_null_buffer], nd_local_size = [1, 1, 1],
          nd_global_offset = Some [0, 0, 0], nd_global_size = Some [1, 1, 1], nd_dimensions = 1\<rparr> 0 0 0
        (empty_host_world\<lparr>host_kernels := (\<lambda>_. (host_kernels empty_host_world 0)
           \<lparr>kernel_allocator_info := slots_allocator [0x1000, 0x2000, 0x3000]\<rparr>)\<rparr>)
        = Some (mux_error_out_of_memory, w') \<and> live_blocks w' = [0x3000 \<mapsto> Request_bytes 8 1])"
proof (intro conjI)
  show "\<exists>w'. hostCreateCommandBuffer 0x20 0x30 0 (slots_allocator [0x1000]) 0x40 empty_host_world
        = (mux_error_out_of_memory, w') \<and> live_blocks w' = [0x1000 \<mapsto> Request_object Obj_fence]"
    by (simp add: hostCreateCommandBuffer_def hostCreateFence_def allocator_create_def allocator_alloc_def
        slots_allocator_def set_cell_def fence_construct_def host_setters)
next
  show "\<exists>w'. hostCommandNDRange 0x30 0x60 \<lparr>nd_descriptors = [Descriptor_null_buffer], nd_local_size = [1, 1, 1],
          nd_global_offset = Some [0, 0, 0], nd_global_size = Some [1, 1, 1], nd_dimensions = 1\<rparr> 0 0 0
        (empty_host_world\<lparr>host_kernels := (\<lambda>_. (host_kernels empty_host_world 0)
           \<lparr>kernel_allocator_info := slots_allocator [0x1000, 0x2000, 0x3000]\<rparr>)\<rparr>)
        = Some (mux_error_out_of_memory, w') \<and> live_blocks w' = [0x3000 \<mapsto> Request_bytes 8 1]"
    by (simp add: hostCommandNDRange_def ndrange_sizes_def option_at_def da_alloc_def da_new_def
        da_destroy_def da_clear_def calcPackedArgsAllocSize_def allocator_alloc_def allocator_free_def
        slots_allocator_def fun_eq_iff)
qed

end
