(* ===== verification/Host_Transfer.thy ===== *)
theory Host_Transfer
  imports Host_Execute Host_Arguments
begin

text \<open>
  What the buffer commands of the host target copy: the commands of \<^verbatim>\<open>queue.cpp\<close> as a sequence of
  \<^verbatim>\<open>memcpy\<close>s, and the rows that \<^verbatim>\<open>command_buffer.cpp\<close> makes of a three-dimensional region.
  \<open>copy_rows\<close> is the reference: rows that do not meet are copied independently of their order.
\<close>

section \<open>Sequences of copies\<close>

definition bytes_in :: "ptr \<Rightarrow> u64 \<Rightarrow> ptr set" where
  "bytes_in p n = {a. a - p < n}"

definition copy_rows :: "(ptr \<times> ptr \<times> u64) list \<Rightarrow> byte_memory \<Rightarrow> byte_memory" where
  "copy_rows rows m = fold (\<lambda>(dst, src, n). memcpy dst src n) rows m"

text \<open>No row of the destination meets another row of the destination or a row of the source.\<close>

definition rows_apart :: "(ptr \<times> ptr \<times> u64) list \<Rightarrow> bool" where
  "rows_apart rows \<longleftrightarrow>
     sorted_wrt (\<lambda>(dst, _, n) (dst', _, n'). bytes_in dst n \<inter> bytes_in dst' n' = {}) rows \<and>
     (\<forall>(dst, _, n) \<in> set rows. \<forall>(_, src, n') \<in> set rows. bytes_in dst n \<inter> bytes_in src n' = {})"

lemma copy_rows_outside:
  "\<forall>(dst, _, n) \<in> set rows. a \<notin> bytes_in dst n \<Longrightarrow> copy_rows rows m a = m a"
  by (induction rows arbitrary: m) (auto simp: copy_rows_def bytes_in_def memcpy_outside)

lemma copy_rows_inside:
  assumes "rows_apart rows" and "(dst, src, n) \<in> set rows" and "i < n"
  shows "copy_rows rows m (dst + i) = m (src + i)"
  using assms
proof (induction rows arbitrary: m)
  case (Cons row rows)
  obtain d s k where row: "row = (d, s, k)"
    by (cases row)
  have rest: "copy_rows (row # rows) m = copy_rows rows (memcpy d s k m)"
    by (simp add: copy_rows_def row)
  have apart: "rows_apart rows"
    using Cons.prems(1) unfolding rows_apart_def sorted_wrt.simps by (simp add: Ball_def)
  show ?case
  proof (cases "(dst, src, n) \<in> set rows")
    case True
    have "bytes_in d k \<inter> bytes_in src n = {}"
      using Cons.prems(1) True by (auto simp: rows_apart_def row)
    then have "\<not> src + i - d < k"
      using Cons.prems(3) by (auto simp: bytes_in_def disjoint_iff)
    then show ?thesis
      unfolding rest using Cons.IH [OF apart True Cons.prems(3)] by (simp add: memcpy_outside)
  next
    case False
    then have eq: "dst = d" "src = s" "n = k"
      using Cons.prems(2) by (auto simp: row)
    have "\<forall>(dst', _, n') \<in> set rows. dst + i \<notin> bytes_in dst' n'"
      using Cons.prems(1,3) by (auto simp: rows_apart_def row eq bytes_in_def disjoint_iff)
    then show ?thesis
      unfolding rest using Cons.prems(3) by (simp add: copy_rows_outside eq memcpy_inside)
  qed
qed simp

text \<open>The commands that copy, as rows.\<close>

fun copy_of :: "(ptr \<Rightarrow> host_buffer_s) \<Rightarrow> command_info_s \<Rightarrow> (ptr \<times> ptr \<times> u64) option" where
  "copy_of bufs (Command_read_buffer buffer offset host_pointer sz) =
     Some (host_pointer, buffer_data (bufs buffer) + offset, sz)"
| "copy_of bufs (Command_write_buffer buffer offset host_pointer sz) =
     Some (buffer_data (bufs buffer) + offset, host_pointer, sz)"
| "copy_of bufs (Command_copy_buffer src_buffer src_offset dst_buffer dst_offset sz) =
     Some (buffer_data (bufs dst_buffer) + dst_offset, buffer_data (bufs src_buffer) + src_offset, sz)"
| "copy_of bufs _ = None"

lemma run_copy:
  "copy_of (host_buffers w) c = Some (dst, src, n) \<Longrightarrow>
     run_command k call env queue cb c q w = Some (Inr (q, w\<lparr>mem := memcpy dst src n (mem w)\<rparr>))"
  by (cases c) (auto simp: run_command_def commandReadBuffer_def commandWriteBuffer_def
      commandCopyBuffer_def)

lemma process_copies:
  "\<forall>c \<in> set cmds. copy_of (host_buffers w) c \<noteq> None \<Longrightarrow>
     process_commands k call env clock queue cb i 0 cmds w
       = Some (Inr (w\<lparr>mem := copy_rows (map (the \<circ> copy_of (host_buffers w)) cmds) (mem w)\<rparr>))"
proof (induction cmds arbitrary: i w)
  case (Cons c cmds)
  obtain dst src n where c: "copy_of (host_buffers w) c = Some (dst, src, n)"
    using Cons.prems by auto
  show ?case
    using Cons.IH [of "w\<lparr>mem := memcpy dst src n (mem w)\<rparr>" "Suc i"] Cons.prems c
    by (simp add: run_copy [OF c] copy_rows_def)
qed (simp add: copy_rows_def)

section \<open>Regions\<close>

text \<open>The offset of byte \<open>x\<close> of row \<open>y\<close> of slice \<open>z\<close>, and the end of the last row, without wrap-around.\<close>

definition box_offset :: "mux_extent_3d_s \<Rightarrow> mux_extent_2d_s \<Rightarrow> nat \<Rightarrow> nat \<Rightarrow> nat" where
  "box_offset origin desc z y =
     (unat (ext_z origin) + z) * unat (ext2_y desc) + (unat (ext_y origin) + y) * unat (ext2_x desc)
     + unat (ext_x origin)"

definition box_end :: "mux_extent_3d_s \<Rightarrow> mux_extent_2d_s \<Rightarrow> mux_extent_3d_s \<Rightarrow> nat" where
  "box_end origin desc reg =
     box_offset origin desc (unat (ext_z reg) - 1) (unat (ext_y reg) - 1) + unat (ext_x reg)"

lemma row_offset_box: "host_row_offset origin desc z y = of_nat (box_offset origin desc z y)"
  by (simp add: host_row_offset_def box_offset_def Let_def of_nat_unat)

lemma box_offset_mono:
  "z \<le> z' \<Longrightarrow> y \<le> y' \<Longrightarrow> box_offset origin desc z y \<le> box_offset origin desc z' y'"
  unfolding box_offset_def by (intro add_mono mult_le_mono order_refl) simp_all

lemma box_inside:
  assumes "z < unat (ext_z reg)" and "y < unat (ext_y reg)" and "x < unat (ext_x reg)"
  shows "box_offset origin desc z y + x < box_end origin desc reg"
proof -
  have "box_offset origin desc z y
      \<le> box_offset origin desc (unat (ext_z reg) - 1) (unat (ext_y reg) - 1)"
    using assms by (intro box_offset_mono) simp_all
  then show ?thesis
    using assms(3) by (simp add: box_end_def)
qed

lemma div_mod_unique:
  fixes q q' r r' n :: nat
  assumes "r < n" and "r' < n" and "q * n + r = q' * n + r'"
  shows "q = q' \<and> r = r'"
proof -
  have "(q * n + r) div n = q"
    using assms(1) by simp
  moreover have "(q' * n + r') div n = q'"
    using assms(2) by simp
  ultimately show ?thesis
    using assms(3) by (metis add_left_cancel)
qed

lemma box_injective:
  assumes "unat (ext_x reg) \<le> unat (ext2_x desc)"
    and "z = z' \<or> unat (ext_y reg) * unat (ext2_x desc) \<le> unat (ext2_y desc)"
    and "y < unat (ext_y reg)" and "x < unat (ext_x reg)"
    and "y' < unat (ext_y reg)" and "x' < unat (ext_x reg)"
    and eq: "box_offset origin desc z y + x = box_offset origin desc z' y' + x'"
  shows "z = z' \<and> y = y'"
proof -
  let ?r = "unat (ext2_x desc)" and ?s = "unat (ext2_y desc)"
  have sum: "z * ?s + (y * ?r + x) = z' * ?s + (y' * ?r + x')"
    using eq unfolding box_offset_def add_mult_distrib by linarith
  have "z = z' \<and> y * ?r + x = y' * ?r + x'"
  proof (cases "z = z'")
    case True
    then show ?thesis
      using sum by simp
  next
    case False
    have below: "v * ?r + u < ?s" if "v < unat (ext_y reg)" "u < unat (ext_x reg)" for u v
    proof -
      have "Suc v * ?r \<le> unat (ext_y reg) * ?r"
        using that by (intro mult_le_mono1) simp
      then show ?thesis
        using that assms(1,2) False by simp
    qed
    from div_mod_unique [OF below [OF assms(3,4)] below [OF assms(5,6)] sum] show ?thesis
      by simp
  qed
  moreover have "x < ?r" and "x' < ?r"
    using assms(1,4,6) by linarith+
  ultimately show ?thesis
    using div_mod_unique [of x ?r x' y y'] by blast
qed

lemma sorted_wrt_map_distinct:
  assumes "distinct xs" and "\<And>x y. x \<in> set xs \<Longrightarrow> y \<in> set xs \<Longrightarrow> x \<noteq> y \<Longrightarrow> P (f x) (f y)"
  shows "sorted_wrt P (map f xs)"
  using assms by (induction xs) auto

lemma region_rows_product:
  "region_rows r = map (\<lambda>(z, y). (host_row_offset (src_origin r) (src_desc r) z y,
       host_row_offset (dst_origin r) (dst_desc r) z y, ext_x (region r)))
     (List.product [0..<unat (ext_z (region r))] [0..<unat (ext_y (region r))])"
  by (simp add: region_rows_def product_concat_map map_concat comp_def)

text \<open>The rows of a region as copies between two areas that do not meet.\<close>

definition region_copies :: "ptr \<Rightarrow> ptr \<Rightarrow> mux_buffer_region_info_s \<Rightarrow> (ptr \<times> ptr \<times> u64) list" where
  "region_copies dst src r = map (\<lambda>(s, d, n). (dst + d, src + s, n)) (region_rows r)"

definition areas_ok :: "ptr \<Rightarrow> u64 \<Rightarrow> ptr \<Rightarrow> u64 \<Rightarrow> mux_buffer_region_info_s \<Rightarrow> bool" where
  "areas_ok dst dst_size src src_size r \<longleftrightarrow>
     box_end (src_origin r) (src_desc r) (region r) \<le> unat src_size \<and>
     box_end (dst_origin r) (dst_desc r) (region r) \<le> unat dst_size \<and>
     ext_x (region r) \<le> ext2_x (dst_desc r) \<and>
     (unat (ext_z (region r)) = 1 \<or>
      unat (ext_y (region r)) * unat (ext2_x (dst_desc r)) \<le> unat (ext2_y (dst_desc r))) \<and>
     bytes_in dst dst_size \<inter> bytes_in src src_size = {}"

lemma box_row_inside:
  assumes "box_end origin desc reg \<le> unat sz" and "z < unat (ext_z reg)" and "y < unat (ext_y reg)"
    and "a \<in> bytes_in (p + of_nat (box_offset origin desc z y)) (ext_x reg)"
  obtains x where "x < unat (ext_x reg)" "a = p + of_nat (box_offset origin desc z y + x)"
    "unat (a - p) = box_offset origin desc z y + x" "a \<in> bytes_in p sz"
proof -
  let ?o = "box_offset origin desc z y"
  let ?x = "unat (a - (p + of_nat ?o))"
  have x: "?x < unat (ext_x reg)"
    using assms(4) by (simp add: bytes_in_def word_less_nat_alt)
  then have less: "?o + ?x < unat sz"
    using box_inside [OF assms(2,3) x, of origin desc] assms(1) by linarith
  have a: "a = p + of_nat (?o + ?x)"
    by simp
  have "unat (of_nat (?o + ?x) :: u64) = ?o + ?x"
    using less unsigned_less [of sz, where 'a = nat] by (subst unat_of_nat) simp
  then have "unat (a - p) = ?o + ?x"
    by (subst a) (simp only: add_diff_cancel_left')
  then show thesis
    using that [OF x a] less by (simp add: bytes_in_def word_less_nat_alt)
qed

lemma region_copies_apart:
  assumes "areas_ok dst dst_size src src_size r"
  shows "rows_apart (region_copies dst src r)"
proof -
  let ?Z = "unat (ext_z (region r))" and ?Y = "unat (ext_y (region r))" and ?X = "ext_x (region r)"
  let ?d = "\<lambda>z y. dst + of_nat (box_offset (dst_origin r) (dst_desc r) z y)"
  let ?s = "\<lambda>z y. src + of_nat (box_offset (src_origin r) (src_desc r) z y)"
  have rows: "region_copies dst src r
      = map (\<lambda>(z, y). (?d z y, ?s z y, ?X)) (List.product [0..<?Z] [0..<?Y])"
    by (simp add: region_copies_def region_rows_product row_offset_box comp_def case_prod_beta)
  have D: "bytes_in (?d z y) ?X \<inter> bytes_in (?d z' y') ?X = {}"
    if zy: "z < ?Z" "y < ?Y" "z' < ?Z" "y' < ?Y" "(z, y) \<noteq> (z', y')" for z y z' y'
  proof (rule ccontr)
    assume "bytes_in (?d z y) ?X \<inter> bytes_in (?d z' y') ?X \<noteq> {}"
    then obtain a where a: "a \<in> bytes_in (?d z y) ?X" "a \<in> bytes_in (?d z' y') ?X"
      by blast
    have e: "box_end (dst_origin r) (dst_desc r) (region r) \<le> unat dst_size"
      using assms by (simp add: areas_ok_def)
    obtain x where x: "x < unat ?X"
      "unat (a - dst) = box_offset (dst_origin r) (dst_desc r) z y + x"
      using box_row_inside [OF e zy(1,2) a(1)] by blast
    obtain x' where x': "x' < unat ?X"
      "unat (a - dst) = box_offset (dst_origin r) (dst_desc r) z' y' + x'"
      using box_row_inside [OF e zy(3,4) a(2)] by blast
    have "z = z' \<and> y = y'"
      using assms zy x x'
      by (intro box_injective [of "region r" "dst_desc r" z z' y x y' x' "dst_origin r"])
         (auto simp: areas_ok_def word_le_nat_alt)
    then show False
      using zy(5) by simp
  qed
  have S: "bytes_in (?d z y) ?X \<inter> bytes_in (?s z' y') ?X = {}"
    if "z < ?Z" "y < ?Y" "z' < ?Z" "y' < ?Y" for z y z' y'
  proof -
    have "bytes_in (?d z y) ?X \<subseteq> bytes_in dst dst_size"
      using assms box_row_inside [of "dst_origin r" "dst_desc r" "region r" dst_size z y] that
      by (meson areas_ok_def subsetI)
    moreover have "bytes_in (?s z' y') ?X \<subseteq> bytes_in src src_size"
      using assms box_row_inside [of "src_origin r" "src_desc r" "region r" src_size z' y'] that
      by (meson areas_ok_def subsetI)
    ultimately show ?thesis
      using assms by (auto simp: areas_ok_def)
  qed
  have "sorted_wrt (\<lambda>(d, _, n) (d', _, n'). bytes_in d n \<inter> bytes_in d' n' = {})
      (region_copies dst src r)"
    unfolding rows
  proof (rule sorted_wrt_map_distinct)
    fix p q assume pq: "p \<in> set (List.product [0..<?Z] [0..<?Y])"
      "q \<in> set (List.product [0..<?Z] [0..<?Y])" "p \<noteq> q"
    show "(case (case p of (z, y) \<Rightarrow> (?d z y, ?s z y, ?X)) of (d, _, n) \<Rightarrow>
        \<lambda>(d', _, n'). bytes_in d n \<inter> bytes_in d' n' = {}) (case q of (z, y) \<Rightarrow> (?d z y, ?s z y, ?X))"
      using pq D [of "fst p" "snd p" "fst q" "snd q"] by (simp add: case_prod_beta mem_Times_iff)
  qed (simp add: distinct_product)
  moreover have "\<forall>(d, _, n) \<in> set (region_copies dst src r). \<forall>(_, s, n') \<in> set (region_copies dst src r).
      bytes_in d n \<inter> bytes_in s n' = {}"
    unfolding rows by (simp add: S)
  ultimately show ?thesis
    unfolding rows_apart_def by blast
qed

lemma region_copies_box:
  assumes ok: "areas_ok dst dst_size src src_size r"
  shows "z < unat (ext_z (region r)) \<Longrightarrow> y < unat (ext_y (region r)) \<Longrightarrow> x < unat (ext_x (region r)) \<Longrightarrow>
     copy_rows (region_copies dst src r) m
       (dst + of_nat (box_offset (dst_origin r) (dst_desc r) z y + x))
     = m (src + of_nat (box_offset (src_origin r) (src_desc r) z y + x))"
    and "a \<notin> bytes_in dst dst_size \<Longrightarrow> copy_rows (region_copies dst src r) m a = m a"
proof -
  let ?d = "\<lambda>z y. dst + of_nat (box_offset (dst_origin r) (dst_desc r) z y)"
  let ?s = "\<lambda>z y. src + of_nat (box_offset (src_origin r) (src_desc r) z y)"
  have rows: "set (region_copies dst src r)
      = (\<lambda>(z, y). (?d z y, ?s z y, ext_x (region r))) `
          ({0..<unat (ext_z (region r))} \<times> {0..<unat (ext_y (region r))})"
    by (simp add: region_copies_def region_rows_product row_offset_box image_image case_prod_beta)
  {
    assume zyx: "z < unat (ext_z (region r))" "y < unat (ext_y (region r))" "x < unat (ext_x (region r))"
    have x: "(of_nat x :: u64) < ext_x (region r)"
      using zyx(3) unsigned_less [of "ext_x (region r)", where 'a = nat]
      by (simp add: word_less_nat_alt unat_of_nat)
    have "(?d z y, ?s z y, ext_x (region r)) \<in> set (region_copies dst src r)"
      unfolding rows using zyx(1,2) by force
    from copy_rows_inside [OF region_copies_apart [OF ok] this x, of m]
    show "copy_rows (region_copies dst src r) m
       (dst + of_nat (box_offset (dst_origin r) (dst_desc r) z y + x))
     = m (src + of_nat (box_offset (src_origin r) (src_desc r) z y + x))"
      by (simp add: add.assoc)
  }
  {
    assume a: "a \<notin> bytes_in dst dst_size"
    have "\<forall>(d, _, n) \<in> set (region_copies dst src r). a \<notin> bytes_in d n"
    proof (clarsimp simp: rows)
      fix z y assume zy: "z < unat (ext_z (region r))" "y < unat (ext_y (region r))"
        and "a \<in> bytes_in (?d z y) (ext_x (region r))"
      moreover have "box_end (dst_origin r) (dst_desc r) (region r) \<le> unat dst_size"
        using ok by (simp add: areas_ok_def)
      ultimately show False
        using box_row_inside [of "dst_origin r" "dst_desc r" "region r" dst_size z y a dst] a by blast
    qed
    then show "copy_rows (region_copies dst src r) m a = m a"
      by (rule copy_rows_outside)
  }
qed

lemma accepted_box_end:
  assumes "\<not> region_shape_is_invalid r" and "box_end origin desc (region r) < 2 ^ 64"
    and "\<not> last_row_is_outside origin desc (region r) sz"
  shows "box_end origin desc (region r) \<le> unat sz"
proof -
  have ne: "ext_z (region r) \<noteq> 0" "ext_y (region r) \<noteq> 0"
    using assms(1) by (auto simp: region_shape_is_invalid_def)
  have "row_offset origin desc (ext_z (region r) - 1) (ext_y (region r) - 1) + ext_x (region r)
      = of_nat (box_end origin desc (region r))"
    unfolding box_end_def box_offset_def unat_minus_1 [OF ne(1), symmetric]
      unat_minus_1 [OF ne(2), symmetric]
    by (simp add: row_offset_def of_nat_unat)
  then have "of_nat (box_end origin desc (region r)) \<le> sz"
    using assms(3) by (simp add: last_row_is_outside_def not_less)
  then show ?thesis
    using assms(2) by (simp add: word_le_nat_alt unat_of_nat)
qed

text \<open>
  C7: a region that \<^verbatim>\<open>muxCommandReadBufferRegions\<close> accepts and the host target records as one
  command per row is read as the box it describes: when the commands are executed, every byte
  \<open>(x, y, z)\<close> of the box in the buffer is at the position \<open>(x, y, z)\<close> of the box in host memory, and no
  byte outside the destination changes. The offsets must not wrap around, the slices of the
  destination must not overlap, and the destination must be apart from the buffer.
\<close>

theorem read_region_copies_box:
  assumes "commands_ok cb w" and "commands_of cb w = []"
    and mux: "muxCommandReadBufferRegions hostCommandReadBufferRegions cb buffer p [r] num_wait wait_list
               0 w = (mux_success, w1)"
    and "data = buffer_data (host_buffers w buffer)"
    and "sz = req_size (buffer_requirements (buffers w buffer))"
    and "box_end (src_origin r) (src_desc r) (region r) < 2 ^ 64"
    and "box_end (dst_origin r) (dst_desc r) (region r) \<le> unat dst_size"
    and "unat (ext_z (region r)) = 1 \<or>
         unat (ext_y (region r)) * unat (ext2_x (dst_desc r)) \<le> unat (ext2_y (dst_desc r))"
    and "bytes_in p dst_size \<inter> bytes_in data sz = {}"
  shows "\<exists>w2. process_commands k call env clock queue cb 0 0 (commands_of cb w1) w1 = Some (Inr w2) \<and>
     (\<forall>z < unat (ext_z (region r)). \<forall>y < unat (ext_y (region r)). \<forall>x < unat (ext_x (region r)).
        mem w2 (p + of_nat (box_offset (dst_origin r) (dst_desc r) z y + x))
          = mem w (data + of_nat (box_offset (src_origin r) (src_desc r) z y + x))) \<and>
     (\<forall>a. a \<notin> bytes_in p dst_size \<longrightarrow> mem w2 a = mem w a)"
proof -
  let ?c = "\<lambda>(s, d, n). Command_read_buffer buffer s (p + d) n"
  have shape: "\<not> region_shape_is_invalid r"
    and last: "\<not> last_row_is_outside (src_origin r) (src_desc r) (region r) sz"
    and host: "record_regions cb ?c [r] 0 w = (mux_success, w1)"
    using mux assms(5) by (auto simp: muxCommandReadBufferRegions_def tag_sync_point_def
        hostCommandReadBufferRegions_def split: if_splits prod.splits)
  have rec: "recorded cb (map ?c (region_rows r)) w w1"
    using record_regions_spec [OF assms(1) host] assms(2) by simp
  have copies: "map (the \<circ> copy_of (host_buffers w1)) (map ?c (region_rows r)) = region_copies p data r"
    by (simp add: region_copies_def recordedD(4) [OF rec] assms(4) case_prod_beta)
  have run: "process_commands k call env clock queue cb 0 0 (commands_of cb w1) w1
      = Some (Inr (w1\<lparr>mem := copy_rows (region_copies p data r) (mem w)\<rparr>))"
    using process_copies [of "map ?c (region_rows r)" w1] copies recordedD(1,3) [OF rec]
    by (auto simp: case_prod_beta)
  have ok: "areas_ok p dst_size data sz r"
    using assms(6-9) shape accepted_box_end [OF shape assms(6) last]
    by (auto simp: areas_ok_def region_shape_is_invalid_def)
  show ?thesis
    unfolding run using region_copies_box [OF ok] by auto
qed

lemma bytes_in_apart:
  assumes "unat p + unat n \<le> unat q" and "unat q + unat m < 2 ^ 64"
  shows "bytes_in p n \<inter> bytes_in q m = {}"
proof (rule ccontr)
  assume "bytes_in p n \<inter> bytes_in q m \<noteq> {}"
  then obtain a where a: "unat (a - p) < unat n" "unat (a - q) < unat m"
    by (auto simp: bytes_in_def word_less_nat_alt)
  have "unat (p + (a - p)) = unat p + unat (a - p)"
    using a assms by (intro unat_plus_no_wrap) simp
  moreover have "unat (q + (a - q)) = unat q + unat (a - q)"
    using a assms by (intro unat_plus_no_wrap) simp
  ultimately show False
    using a assms(1) by simp
qed

text \<open>Two rows of two bytes from the middle of a buffer at \<^verbatim>\<open>0x200\<close>, packed at \<^verbatim>\<open>0x100\<close>.\<close>

definition demo_region :: mux_buffer_region_info_s where
  "demo_region = \<lparr>region = \<lparr>ext_x = 2, ext_y = 2, ext_z = 1\<rparr>,
     src_origin = \<lparr>ext_x = 1, ext_y = 1, ext_z = 0\<rparr>, dst_origin = \<lparr>ext_x = 0, ext_y = 0, ext_z = 0\<rparr>,
     src_desc = \<lparr>ext2_x = 4, ext2_y = 8\<rparr>, dst_desc = \<lparr>ext2_x = 2, ext2_y = 4\<rparr>\<rparr>"

theorem read_region_copies_box_witness:
  "\<exists>w1 w2. muxCommandReadBufferRegions hostCommandReadBufferRegions 0x30 0x40 0x100 [demo_region] 0 0 0
       demo_transfer_world = (mux_success, w1) \<and>
     process_commands 0 (\<lambda>_ _. None) demo_env (\<lambda>_. (0, 0)) 0 0x30 0 0 (commands_of 0x30 w1) w1 = Some (Inr w2) \<and>
     mem w2 0x103 = 0x0A"
proof -
  let ?w = demo_transfer_world
  have ok: "commands_ok 0x30 ?w" "commands_of 0x30 ?w = []"
    by (simp_all add: demo_transfer_world_def sv_ok_new two_slot_allocator_ok) (simp add: sv_new_def)
  obtain r w1 where mux: "muxCommandReadBufferRegions hostCommandReadBufferRegions 0x30 0x40 0x100
      [demo_region] 0 0 0 ?w = (r, w1)"
    by fastforce
  then have r: "r = mux_success"
    by (auto simp: muxCommandReadBufferRegions_def hostCommandReadBufferRegions_def demo_transfer_world_def
        mux_valid objectIsInvalid_def getObjectId_def mux_ids demo_region_def region_shape_is_invalid_def
        last_row_is_outside_def row_offset_def some_regions_meet_def waitlistIsInvalid_def
        tag_sync_point_def record_regions_def reserve_commands_def sv_reserve_def sv_new_def
        record_commands_def push_commands_def region_rows_def sv_push_back_room add_sync_point_def
        host_setters upt_rec)
  have apart: "bytes_in 0x100 4 \<inter> bytes_in 0x200 64 = {}"
    by (rule bytes_in_apart) simp_all
  have ends: "box_end (src_origin demo_region) (src_desc demo_region) (region demo_region) < 2 ^ 64"
    "box_end (dst_origin demo_region) (dst_desc demo_region) (region demo_region) \<le> unat (4 :: u64)"
    "unat (ext_z (region demo_region)) = 1"
    "buffer_data (host_buffers ?w 0x40) = 0x200"
    "req_size (buffer_requirements (buffers ?w 0x40)) = 64"
    by (simp_all add: box_end_def box_offset_def demo_region_def demo_transfer_world_def)
  obtain w2 where w2: "process_commands 0 (\<lambda>_ _. None) demo_env (\<lambda>_. (0, 0)) 0 0x30 0 0
      (commands_of 0x30 w1) w1 = Some (Inr w2)"
    "\<forall>z < unat (ext_z (region demo_region)). \<forall>y < unat (ext_y (region demo_region)).
       \<forall>x < unat (ext_x (region demo_region)).
        mem w2 (0x100 + of_nat (box_offset (dst_origin demo_region) (dst_desc demo_region) z y + x))
          = mem ?w (0x200 + of_nat (box_offset (src_origin demo_region) (src_desc demo_region) z y + x))"
    using read_region_copies_box [OF ok mux [unfolded r] ends(4) [symmetric] ends(5) [symmetric]
        ends(1,2) disjI1 [OF ends(3)] apart] by blast
  have "mem w2 0x103 = 0x0A"
    using w2(2) [THEN spec [of _ 0], THEN mp, THEN spec [of _ 1], THEN mp, THEN spec [of _ 1]]
    by (simp add: demo_region_def box_offset_def demo_transfer_world_def)
  then show ?thesis
    using mux r w2(1) by blast
qed

end
