(* ===== verification/Host_Completion.thy ===== *)
theory Host_Completion
  imports Host_Transfer
begin

text \<open>
  From the dispatch of a command buffer to its completion: \<^verbatim>\<open>hostDispatch\<close> (\<open>Host_Queue\<close>), the pool
  (\<open>Host_Thread_Pool\<close>) and the execution of the commands (\<open>Host_Execute\<close>) together, as one thread that
  waits for the fence runs them.
\<close>

section \<open>From dispatch to completion\<close>

lemma enqueue_empty:
  assumes "pool_of_ok d w" and "queued d w = []" and "stayAlive (thread_pool (host_devices w d))"
  obtains pool pool' where
    "enqueue d item w = Some (set_thread_pool d pool (enqueue_begin item w))"
    "stayAlive pool" "pool_pop pool = Some (item, pool')" "pool_items pool' = []" "pool_ok pool'"
proof -
  let ?p = "thread_pool (host_devices w d)"
  have p: "pool_ok ?p" "pool_items ?p = []"
    using assms by (simp_all add: pool_of_ok_def queued_def)
  then have nf: "\<not> pool_full ?p"
    using ring.full_iff [OF p(1)] by simp
  have items: "pool_items (pool_push item ?p) = [item]" "pool_ok (pool_push item ?p)"
    using ring.push_items [OF p(1) nf] ring.push_inv [OF p(1)] p(2) by simp_all
  from ring.pop_nonempty [OF items(2,1)] obtain pool' where
    "pool_pop (pool_push item ?p) = Some (item, pool')" "pool_items pool' = []" "pool_ok pool'"
    by blast
  moreover have "enqueue d item w = Some (set_thread_pool d (pool_push item ?p) (enqueue_begin item w))"
    using nf by (simp add: enqueue_def enqueue_commit_def)
  moreover have "stayAlive (pool_push item ?p)"
    using assms(3) by (simp add: pool_push_def)
  ultimately show thesis
    using that by blast
qed

lemma help_until_finished: "finished w \<Longrightarrow> help_until n finished call d w = Some w"
  by (subst help_until.simps) simp

lemma help_until_step:
  assumes "\<not> finished w" and "tryGetWork d w = Some (item, w1)" and "call item w1 = Some w2"
  shows "help_until (Suc n) finished call d w = help_until n finished call d (complete_item item w2)"
  using assms by (subst help_until.simps) (simp add: threadFuncBody_def)

lemma sv_insert_none:
  assumes "sv_ok T N v w"
  shows "sv_insert T N (length (sv_elems v)) [] v w = Some (Inr (length (sv_elems v)), v, w)"
  using assms by (simp add: sv_insert_def sv_extend_def sv_ok_def)

text \<open>What \<^verbatim>\<open>threadPoolCleanup\<close> does for a buffer without callback and semaphores to signal.\<close>

lemma cleanup_plain:
  assumes "user_function (host_command_buffers w cb) = 0"
    and "sv_elems (signal_semaphores (host_command_buffers w cb)) = []"
  shows "threadPoolCleanup env queue cb fence 0 w =
     Some (if fence \<noteq> 0 then set_host_fence fence \<lparr>fence_result = mux_success\<rparr> w else w)"
proof -
  have "sv_clear (signal_semaphores (host_command_buffers w cb)) = signal_semaphores (host_command_buffers w cb)"
    using assms(2) by (simp add: sv_clear_def)
  then show ?thesis
    using assms by (simp add: threadPoolCleanup_def Let_def host_setters)
qed

text \<open>
  C2: a command buffer of reads, writes and copies that is dispatched to an idle device without
  semaphores completes: the dispatch succeeds, \<^verbatim>\<open>hostTryWait\<close> without a timeout returns success, all
  of the commands have then been executed in the order in which they were recorded, and the queue
  is idle again.
\<close>

theorem dispatched_copies_complete:
  assumes "command_buffer_device (command_buffers w cb) = d" and "fence_device (fences w fence) = d"
    and "pool_of_ok d w" and "queued d w = []" and "stayAlive (thread_pool (host_devices w d))"
    and "sv_ok Obj_handle 8 (signal_semaphores (host_command_buffers w cb)) w"
    and "sv_elems (signal_semaphores (host_command_buffers w cb)) = []" and "fence \<noteq> 0"
    and "\<forall>c \<in> set (commands_of cb w). copy_of (host_buffers w) c \<noteq> None"
  shows "\<exists>w1 w2. hostDispatch queue cb fence waits 0 sems 0 0 data w = Some (mux_success, w1) \<and>
     hostTryWait (Suc n) (run_item (Suc k) env) sleep queue (- 1) fence w1 = Some (mux_success, w2) \<and>
     mem w2 = copy_rows (map (the \<circ> copy_of (host_buffers w)) (commands_of cb w)) (mem w) \<and>
     queued d w2 = [] \<and> atomic_counts w2 queue = atomic_counts w queue"
proof -
  let ?cb = "(host_command_buffers w cb)\<lparr>user_function := 0, user_data := data\<rparr>"
  let ?item = "process_item queue cb fence"
  let ?w0 = "fence_reset fence (set_host_command_buffer cb ?cb w)"
  have w0: "pool_of_ok d ?w0" "queued d ?w0 = []" "stayAlive (thread_pool (host_devices ?w0 d))"
    "command_buffer_device (command_buffers ?w0 cb) = d"
    using assms(1,3-5) by (simp_all add: fence_reset_def host_setters pool_of_ok_def queued_def)
  obtain pool pool' where enq: "enqueue d ?item ?w0 = Some (set_thread_pool d pool (enqueue_begin ?item ?w0))"
    and pool: "stayAlive pool" "pool_pop pool = Some (?item, pool')" "pool_items pool' = []"
    using enqueue_empty [OF w0(1-3), of ?item] by blast
  let ?w1 = "set_thread_pool d pool (enqueue_begin ?item ?w0)"
  have disp: "hostDispatch queue cb fence waits 0 sems 0 0 data w = Some (mux_success, ?w1)"
    using sv_insert_none [OF assms(6)] w0(4) enq assms(7,8)
    by (simp add: hostDispatch_def handle_list_def addGroup_def Let_def)
  let ?w2 = "set_thread_pool d pool' ?w1"
  have take: "tryGetWork d ?w1 = Some (?item, ?w2)"
    using pool by (simp add: tryGetWork_def set_thread_pool_def)
  have start: "commands_of cb ?w2 = commands_of cb w" "host_buffers ?w2 = host_buffers w"
    "mem ?w2 = mem w"
    by (simp_all add: enqueue_begin_def fence_reset_def host_setters Let_def)
  let ?w3 = "?w2\<lparr>mem := copy_rows (map (the \<circ> copy_of (host_buffers w)) (commands_of cb w)) (mem w)\<rparr>"
  have proc: "process_commands k (run_item k env) env (env_clock env ?w2) queue cb 0 0
      (commands_of cb ?w2) ?w2 = Some (Inr ?w3)"
    using process_copies [of "commands_of cb w" ?w2] assms(9) unfolding start by simp
  have clean: "threadPoolCleanup env queue cb fence 0 ?w3
      = Some (set_host_fence fence \<lparr>fence_result = mux_success\<rparr> ?w3)"
    using assms(7,8) by (subst cleanup_plain)
      (simp_all add: enqueue_begin_def fence_reset_def host_setters Let_def)
  have run: "run_item (Suc k) env ?item ?w2 = Some (set_host_fence fence \<lparr>fence_result = mux_success\<rparr> ?w3)"
    using proc clean by (simp add: group_item_def threadPoolProcessCommands_def)
  let ?w4 = "complete_item ?item (set_host_fence fence \<lparr>fence_result = mux_success\<rparr> ?w3)"
  have quiet: "\<not> atomic_bools ?w1 fence" and fin: "atomic_bools ?w4 fence"
    and dev: "fence_device (fences ?w1 fence) = d"
    using assms(2,8) by (simp_all add: enqueue_begin_def complete_item_def fence_reset_def host_setters
        group_item_def Let_def)
  have "wait_signal (Suc n) (run_item (Suc k) env) d fence ?w1 = Some ?w4"
    unfolding wait_signal_def
    using help_until_step [where finished = "\<lambda>w. atomic_bools w fence" and n = n, OF quiet take,
        where call = "run_item (Suc k) env", OF run]
      help_until_finished [where finished = "\<lambda>w. atomic_bools w fence", OF fin]
    by simp
  then have wait: "hostTryWait (Suc n) (run_item (Suc k) env) sleep queue (- 1) fence ?w1
      = Some (mux_success, ?w4)"
    using dev by (simp add: hostTryWait_def fence_tryWait_def)
      (simp add: complete_item_def host_setters Let_def)
  have "mem ?w4 = mem ?w3" "queued d ?w4 = []" "atomic_counts ?w4 queue = atomic_counts w queue"
    using pool(3) by (simp_all add: complete_item_def enqueue_begin_def fence_reset_def host_setters
        group_item_def Let_def queued_def)
  then show ?thesis
    using disp wait by (intro exI conjI) (assumption | simp)+
qed

theorem dispatched_copies_complete_witness:
  "\<exists>w w1 w2. commands_of 0x30 w = [Command_read_buffer 0x40 0 0x100 2] \<and> mem w 0x100 = 0 \<and>
     hostDispatch 0x700 0x30 0x50 0 0 0 0 0 0 w = Some (mux_success, w1) \<and>
     hostTryWait 1 (run_item 1 demo_env) (\<lambda>w. w) 0x700 (- 1) 0x50 w1 = Some (mux_success, w2) \<and>
     mem w2 0x101 = 1"
proof -
  let ?cmds = "[Command_read_buffer 0x40 0 0x100 2]"
  let ?w = "demo_transfer_world
     \<lparr>host_command_buffers := (\<lambda>_. (host_command_buffers empty_host_world 0x30)
        \<lparr>commands := (sv_new 16 0x10 two_slot_allocator)\<lparr>sv_elems := ?cmds\<rparr>\<rparr>)\<rparr>"
  have w: "command_buffer_device (command_buffers ?w 0x30) = 0"
    "fence_device (fences ?w 0x50) = 0" "pool_of_ok 0 ?w" "queued 0 ?w = []"
    "stayAlive (thread_pool (host_devices ?w 0))" "commands_of 0x30 ?w = ?cmds"
    "sv_ok Obj_handle 8 (signal_semaphores (host_command_buffers ?w 0x30)) ?w"
    "sv_elems (signal_semaphores (host_command_buffers ?w 0x30)) = []"
    "copy_of (host_buffers ?w) (Command_read_buffer 0x40 0 0x100 2) = Some (0x100, 0x200, 2)"
    "mem ?w 0x201 = 1" "mem ?w 0x100 = 0"
    by (simp_all add: demo_transfer_world_def pool_of_ok_def queued_def sv_ok_new two_slot_allocator_ok)
       (simp_all add: empty_pool_def sv_new_def empty_host_world_def mux_world.defs empty_world_def)
  obtain w1 w2 where "hostDispatch 0x700 0x30 0x50 0 0 0 0 0 0 ?w = Some (mux_success, w1)"
    "hostTryWait 1 (run_item 1 demo_env) (\<lambda>w. w) 0x700 (- 1) 0x50 w1 = Some (mux_success, w2)"
    "mem w2 = copy_rows [(0x100, 0x200, 2)] (mem ?w)"
    using dispatched_copies_complete [OF w(1-5,7,8), where queue = "0x700" and waits = 0 and sems = 0
        and data = 0 and n = 0 and k = 0 and env = demo_env and sleep = "\<lambda>w. w"] w(6,9) by auto
  moreover from this(3) have "mem w2 0x101 = 1"
    using w(10) by (simp add: copy_rows_def memcpy_def)
  ultimately show ?thesis
    using w(6,11) by blast
qed

section \<open>The slices of an ND-range\<close>

text \<open>Queueing work changes the ring of a pool and the atomics, nothing else.\<close>

definition pool_only :: "'a host_world_scheme \<Rightarrow> 'a host_world_scheme \<Rightarrow> bool" where
  "pool_only w w' \<longleftrightarrow>
     mem w' = mem w \<and> local_variants w' = local_variants w \<and> local_ndranges w' = local_ndranges w \<and>
     kernels w' = kernels w \<and>
     (\<forall>d. num_threads (thread_pool (host_devices w' d)) = num_threads (thread_pool (host_devices w d)) \<and>
          stayAlive (thread_pool (host_devices w' d)) = stayAlive (thread_pool (host_devices w d)))"

lemma pool_only_refl: "pool_only w w"
  by (simp add: pool_only_def)

lemma pool_only_trans [trans]: "pool_only w w1 \<Longrightarrow> pool_only w1 w2 \<Longrightarrow> pool_only w w2"
  by (simp add: pool_only_def)

lemma enqueue_pool_only: "enqueue d item w = Some w' \<Longrightarrow> pool_only w w'"
  by (auto simp: pool_only_def enqueue_def enqueue_commit_def enqueue_begin_def pool_push_def host_setters
      num_threads_def Let_def split: if_splits)

lemma complete_pool_only: "pool_only w (complete_item item w)"
  by (simp add: pool_only_def complete_item_def host_setters Let_def)

lemma take_pool_only: "tryGetWork d w = Some (item, w') \<Longrightarrow> pool_only w w'"
  by (auto simp: pool_only_def tryGetWork_def pool_pop_def host_setters num_threads_def Let_def
      split: if_splits)

lemma enqueue_count:
  "enqueue d item w = Some w' \<Longrightarrow> atomic_counts w' = (atomic_counts w)
     (item_count item := atomic_counts w (item_count item) + 1)"
  by (auto simp: enqueue_def enqueue_commit_def enqueue_begin_def host_setters Let_def split: if_splits)

lemma enqueue_all_spec:
  assumes "pool_of_ok d w" and "length (queued d w) + length items \<le> 4095"
    and "\<forall>item \<in> set items. item_count item = c"
  shows "\<exists>w'. enqueue_all d items w = Some w' \<and> pool_of_ok d w' \<and> queued d w' = queued d w @ items \<and>
     atomic_counts w' c = atomic_counts w c + of_nat (length items) \<and> pool_only w w'"
  using assms
proof (induction items arbitrary: w)
  case Nil
  then show ?case
    by (simp add: pool_only_refl)
next
  case (Cons item items)
  obtain w1 where w1: "enqueue d item w = Some w1" "pool_of_ok d w1" "queued d w1 = queued d w @ [item]"
    using enqueue_spec [of d w item] Cons.prems by auto
  obtain w' where "enqueue_all d items w1 = Some w'" "pool_of_ok d w'"
    "queued d w' = queued d w1 @ items"
    "atomic_counts w' c = atomic_counts w1 c + of_nat (length items)" "pool_only w1 w'"
    using Cons.IH [OF w1(2)] Cons.prems w1(3) by auto
  moreover have "atomic_counts w1 c = atomic_counts w c + 1"
    using enqueue_count [OF w1(1)] Cons.prems(3) by simp
  ultimately show ?case
    using w1 pool_only_trans [OF enqueue_pool_only [OF w1(1)]] by (simp add: add.assoc)
qed

lemma tryGetWork_nonempty:
  assumes "pool_of_ok d w" and "queued d w = item # items" and "stayAlive (thread_pool (host_devices w d))"
  obtains w' where "tryGetWork d w = Some (item, w')" "pool_of_ok d w'" "queued d w' = items"
    "atomic_counts w' = atomic_counts w"
proof -
  obtain pool' where "pool_pop (thread_pool (host_devices w d)) = Some (item, pool')"
    "pool_items pool' = items" "pool_ok pool'"
    using ring.pop_nonempty assms(1,2) unfolding pool_of_ok_def queued_def by blast
  then show thesis
    using assms(3) that [of "set_thread_pool d pool' w"]
    by (simp add: tryGetWork_def pool_of_ok_def queued_def set_thread_pool_def)
qed

text \<open>
  The schedule that slice \<open>i\<close> gets, and a kernel that returns and changes the memory alone, as a
  function of its slice.
\<close>

definition slice_schedule :: "ndrange_info_s \<Rightarrow> u64 \<Rightarrow> u64 \<Rightarrow> schedule_info_s" where
  "slice_schedule info slices i =
     \<lparr>sched_global_size = global_size info, sched_global_offset = global_offset info,
      sched_local_size = local_size info, sched_slice = i, sched_total_slices = slices,
      sched_work_dim = ucast (dimensions info)\<rparr>"

lemma run_slice:
  assumes "local_ndranges w frame = (knl, info)" and "local_variants w frame = variant"
    and "\<forall>k < unat (dimensions info). global_size info ! k \<noteq> 0"
    and "num_threads (thread_pool (host_devices w (kernel_device (kernels w knl)))) = slices"
    and "\<forall>w i. env_hook env (hook variant) (packed_args info) (slice_schedule info slices i) w
               = Some (w\<lparr>mem := f i (mem w)\<rparr>)"
  shows "run_item (Suc k) env (range_item Fn_ndrange_slice frame frame sig cnt i) w
     = Some (w\<lparr>mem := f (of_nat i) (mem w)\<rparr>)"
  using assms by (auto simp: range_item_def ndrange_slice_def slice_schedule_def)

text \<open>The state in which the slices from \<open>j\<close> to \<open>m\<close> are queued, and nothing else.\<close>

definition slicing ::
  "ptr \<Rightarrow> ptr \<Rightarrow> ptr \<Rightarrow> ndrange_info_s \<Rightarrow> kernel_variant_s \<Rightarrow> u64 \<Rightarrow> nat \<Rightarrow> nat \<Rightarrow> 'a host_world_scheme \<Rightarrow> bool" where
  "slicing d frame knl info variant slices m j w \<longleftrightarrow>
     pool_of_ok d w \<and> stayAlive (thread_pool (host_devices w d)) \<and>
     queued d w = map (range_item Fn_ndrange_slice frame frame frame frame) [j..<m] \<and>
     atomic_counts w frame = of_nat (m - j) \<and>
     kernel_device (kernels w knl) = d \<and> local_ndranges w frame = (knl, info) \<and>
     local_variants w frame = variant \<and> num_threads (thread_pool (host_devices w d)) = slices"

lemma slicing_step:
  assumes w: "slicing d frame knl info variant slices m j w" and j: "j < m"
    and "\<forall>k < unat (dimensions info). global_size info ! k \<noteq> 0"
    and "\<forall>w i. env_hook env (hook variant) (packed_args info) (slice_schedule info slices i) w
               = Some (w\<lparr>mem := f i (mem w)\<rparr>)"
  obtains w1 w2 where
    "tryGetWork d w = Some (range_item Fn_ndrange_slice frame frame frame frame j, w1)"
    "run_item (Suc k) env (range_item Fn_ndrange_slice frame frame frame frame j) w1 = Some w2"
    "slicing d frame knl info variant slices m (Suc j)
       (complete_item (range_item Fn_ndrange_slice frame frame frame frame j) w2)"
    "mem (complete_item (range_item Fn_ndrange_slice frame frame frame frame j) w2) = f (of_nat j) (mem w)"
proof -
  let ?item = "range_item Fn_ndrange_slice frame frame frame frame j"
  have q: "queued d w = ?item # map (range_item Fn_ndrange_slice frame frame frame frame) [Suc j..<m]"
    using w j by (simp add: slicing_def upt_conv_Cons)
  have "pool_of_ok d w" and "stayAlive (thread_pool (host_devices w d))"
    using w by (simp_all add: slicing_def)
  then obtain w1 where take: "tryGetWork d w = Some (?item, w1)" and w1: "pool_of_ok d w1"
    "queued d w1 = map (range_item Fn_ndrange_slice frame frame frame frame) [Suc j..<m]"
    "atomic_counts w1 = atomic_counts w"
    using tryGetWork_nonempty [OF _ q] by blast
  have po: "pool_only w w1"
    by (rule take_pool_only [OF take])
  let ?w2 = "w1\<lparr>mem := f (of_nat j) (mem w1)\<rparr>"
  let ?w3 = "complete_item ?item ?w2"
  have po3: "pool_only ?w2 ?w3"
    by (rule complete_pool_only)
  have run: "run_item (Suc k) env ?item w1 = Some ?w2"
  proof (rule run_slice [OF _ _ assms(3) _ assms(4)])
    show "local_ndranges w1 frame = (knl, info)" and "local_variants w1 frame = variant"
      and "num_threads (thread_pool (host_devices w1 (kernel_device (kernels w1 knl)))) = slices"
      using w po by (simp_all add: slicing_def pool_only_def)
  qed
  have "atomic_counts ?w3 frame = of_nat (m - j) - 1"
    using w w1(3) by (simp add: slicing_def complete_item_def host_setters range_item_def Let_def)
  moreover have "m - j = Suc (m - Suc j)"
    using j by simp
  ultimately have cnt: "atomic_counts ?w3 frame = of_nat (m - Suc j)"
    by (simp only: of_nat_Suc add_diff_cancel_left')
  have ring: "pool_of_ok d ?w3" "queued d ?w3 = queued d w1"
    using w1(1) by (simp_all add: pool_of_ok_def queued_def)
  have "slicing d frame knl info variant slices m (Suc j) ?w3"
    using w cnt ring w1(2) po po3 by (simp add: slicing_def pool_only_def)
  moreover have "mem ?w3 = f (of_nat j) (mem w)"
    using po po3 by (simp add: pool_only_def)
  ultimately show thesis
    using that [OF take run] by blast
qed

lemma help_slices:
  assumes "slicing d frame knl info variant slices m j w" and "j \<le> m" and "m < 2 ^ 32"
    and "m - j \<le> n" and global: "\<forall>k < unat (dimensions info). global_size info ! k \<noteq> 0"
    and hook: "\<forall>w i. env_hook env (hook variant) (packed_args info) (slice_schedule info slices i) w
               = Some (w\<lparr>mem := f i (mem w)\<rparr>)"
  shows "\<exists>w'. wait_for_count n (run_item (Suc k) env) d frame w = Some w' \<and>
     mem w' = fold (\<lambda>i. f (of_nat i)) [j..<m] (mem w) \<and> queued d w' = []"
  using assms(1-4)
proof (induction "m - j" arbitrary: j w n)
  case 0
  then have "atomic_counts w frame = 0"
    by (simp add: slicing_def)
  then have "wait_for_count n (run_item (Suc k) env) d frame w = Some w"
    unfolding wait_for_count_def by (rule help_until_finished)
  then show ?case
    using 0 by (simp add: slicing_def del: run_item.simps)
next
  case (Suc l)
  let ?item = "range_item Fn_ndrange_slice frame frame frame frame j"
  have j: "j < m"
    using Suc.hyps(2) by simp
  obtain n' where n: "n = Suc n'"
    using Suc.prems(4) Suc.hyps(2) by (cases n) simp_all
  obtain w1 w2 where step: "tryGetWork d w = Some (?item, w1)"
    "run_item (Suc k) env ?item w1 = Some w2"
    "slicing d frame knl info variant slices m (Suc j) (complete_item ?item w2)"
    "mem (complete_item ?item w2) = f (of_nat j) (mem w)"
    using slicing_step [OF Suc.prems(1) j global hook] by metis
  have "(of_nat (m - j) :: u32) \<noteq> of_nat 0"
    using Suc.prems(3) j by (subst of_nat_eq_small_iff) simp_all
  then have busy: "atomic_counts w frame \<noteq> 0"
    using Suc.prems(1) by (simp add: slicing_def)
  have "l = m - Suc j" "Suc j \<le> m" "m - Suc j \<le> n'"
    using Suc.hyps(2) Suc.prems(4) n by simp_all
  then obtain w' where w': "wait_for_count n' (run_item (Suc k) env) d frame (complete_item ?item w2) = Some w'"
    "mem w' = fold (\<lambda>i. f (of_nat i)) [Suc j..<m] (f (of_nat j) (mem w))" "queued d w' = []"
    using Suc.hyps(1) [OF _ step(3) _ Suc.prems(3)] step(4) by auto
  have "wait_for_count n (run_item (Suc k) env) d frame w
      = wait_for_count n' (run_item (Suc k) env) d frame (complete_item ?item w2)"
    unfolding wait_for_count_def n
    using help_until_step [where finished = "\<lambda>w. atomic_counts w frame = 0" and n = n', OF busy step(1),
        where call = "run_item (Suc k) env", OF step(2)] .
  moreover have "[j..<m] = j # [Suc j..<m]"
    using j by (rule upt_conv_Cons)
  ultimately show ?case
    using w' by (simp del: run_item.simps)
qed

text \<open>
  C11: \<^verbatim>\<open>commandNDRange\<close> on an idle pool returns after it has called the kernel exactly once for
  each slice from 0 to the number of threads, with the packed arguments and the sizes of the ND-range,
  for a kernel that returns and changes nothing but memory.
\<close>

theorem ndrange_runs_slices:
  assumes "queue_device (queues w queue) = d" and "kernel_device (kernels w knl) = d"
    and "pool_of_ok d w" and "queued d w = []" and "stayAlive (thread_pool (host_devices w d))"
    and "num_threads (thread_pool (host_devices w d)) = slices" and "slices \<le> 4095"
    and "unat slices \<le> n"
    and "getKernelVariantForWGSize knl (local_size info ! 0) (local_size info ! 1) (local_size info ! 2) w
           = Some (Inr variant)"
    and "\<forall>k < unat (dimensions info). global_size info ! k \<noteq> 0"
    and "\<forall>w i. env_hook env (hook variant) (packed_args info) (slice_schedule info slices i) w
               = Some (w\<lparr>mem := f i (mem w)\<rparr>)"
  shows "\<exists>w'. commandNDRange n (run_item (Suc k) env) frame queue knl info w = Some w' \<and>
     mem w' = fold (\<lambda>i. f (of_nat i)) [0..<unat slices] (mem w) \<and> queued d w' = []"
proof -
  let ?w1 = "set_atomic_count frame 0 (w\<lparr>local_variants := (local_variants w)(frame := variant),
               local_ndranges := (local_ndranges w)(frame := (knl, info))\<rparr>)"
  let ?items = "map (range_item Fn_ndrange_slice frame frame frame frame) [0..<unat slices]"
  have small: "unat slices \<le> 4095"
    using assms(7) by (simp add: word_le_nat_alt)
  have w1: "pool_of_ok d ?w1" "queued d ?w1 = []"
    using assms(3,4) by (simp_all add: pool_of_ok_def queued_def set_atomic_count_def)
  obtain w2 where w2: "enqueue_all d ?items ?w1 = Some w2" "pool_of_ok d w2" "queued d w2 = ?items"
    "atomic_counts w2 frame = of_nat (unat slices)" "pool_only ?w1 w2"
    using enqueue_all_spec [OF w1(1), of ?items frame] w1(2) small
    by (auto simp: range_item_def set_atomic_count_def)
  have cmd: "commandNDRange n (run_item (Suc k) env) frame queue knl info w
      = wait_for_count n (run_item (Suc k) env) d frame w2"
    using assms(1,6,9) w2(1) by (simp add: commandNDRange_def enqueue_range_def Let_def)
  have mem: "mem w2 = mem w"
    using w2(5) by (simp add: pool_only_def set_atomic_count_def)
  have "slicing d frame knl info variant slices (unat slices) 0 w2"
    using w2(2-5) assms(2,5,6) by (simp add: slicing_def pool_only_def set_atomic_count_def)
  then show ?thesis
    unfolding cmd mem [symmetric] using small assms(8)
    by (rule_tac help_slices [OF _ _ _ _ assms(10,11)]) simp_all
qed

theorem ndrange_runs_slices_witness:
  "\<exists>w'. commandNDRange 2 (run_item 1 demo_env) 0x500 0x700 0x30
       (snd (local_ndranges empty_host_world 0)\<lparr>local_size := [12, 1, 1]\<rparr>) demo_kernel_world = Some w' \<and>
     mem w' 0 = 1 \<and> mem w' 1 = 1 \<and> mem w' 2 = 0"
proof -
  let ?w = demo_kernel_world and ?info = "snd (local_ndranges empty_host_world 0)\<lparr>local_size := [12, 1, 1]\<rparr>"
  let ?f = "\<lambda>i m. m(i := 1 :: u8)"
  have w: "queue_device (queues ?w 0x700) = 0" "kernel_device (kernels ?w 0x30) = 0"
    "pool_of_ok 0 ?w" "queued 0 ?w = []" "stayAlive (thread_pool (host_devices ?w 0))"
    "num_threads (thread_pool (host_devices ?w 0)) = 2" "dimensions ?info = 0" "local_size ?info = [12, 1, 1]"
    by (simp_all add: demo_kernel_world_def pool_of_ok_def queued_def)
       (simp_all add: empty_pool_def num_threads_def empty_host_world_def mux_world.defs host_world.defs
         empty_world_def)
  have v: "getKernelVariantForWGSize 0x30 (local_size ?info ! 0) (local_size ?info ! 1)
      (local_size ?info ! 2) ?w = Some (Inr (demo_variant 4 4))"
    by (simp add: w(8) getKernelVariantForWGSize_def demo_kernel_world_def isLegalKernelVariant_def
        size_mod_def replaces_variant_def demo_variant_def)
  have hook: "\<forall>w i. env_hook demo_env (hook (demo_variant 4 4)) (packed_args ?info)
      (slice_schedule ?info 2 i) w = Some (w\<lparr>mem := ?f i (mem w)\<rparr>)"
    by (simp add: demo_env_def slice_schedule_def)
  obtain w' where "commandNDRange 2 (run_item 1 demo_env) 0x500 0x700 0x30 ?info ?w = Some w'"
    "mem w' = fold (\<lambda>i. ?f (of_nat i)) [0..<2] (mem ?w)"
    using ndrange_runs_slices [where f = ?f, OF w(1-6) _ _ v _ hook, where n = 2 and k = 0 and frame = "0x500"] w(7)
    by (simp del: run_item.simps fun_upd_apply) blast
  then show ?thesis
    by (auto simp: upt_rec demo_kernel_world_def)
qed

end
