(* ===== verification/Hal_Allocator.thy ===== *)
theory Hal_Allocator
  imports Word_Bits
begin

unbundle bit_operations_syntax

text \<open>
  The allocator of device memory of the hardware abstraction layer,
  \<^verbatim>\<open>hal/include/allocator.h\<close>. A \<^verbatim>\<open>std::set\<close> of blocks is the list of its elements in iteration
  order; an iterator is the block it points to together with the blocks after it. A failed
  assertion is \<^term>\<open>None\<close>.
\<close>

section \<open>Blocks\<close>

record block_t =
  blk_addr :: u64
  blk_is_free :: bool

record allocator_t =
  addr_lo :: u64
  addr_hi :: u64
  hal_blocks :: "block_t list"

text \<open>\<^verbatim>\<open>insert\<close>, \<^verbatim>\<open>find\<close> and \<^verbatim>\<open>erase\<close> of \<^verbatim>\<open>std::set\<close>, ordered by \<^verbatim>\<open>block_t::operator<\<close>.\<close>

definition block_less :: "block_t \<Rightarrow> block_t \<Rightarrow> bool" where
  "block_less b c \<longleftrightarrow> blk_addr b < blk_addr c"

fun set_insert :: "block_t \<Rightarrow> block_t list \<Rightarrow> block_t list" where
  "set_insert b [] = [b]"
| "set_insert b (c # cs) =
     (if block_less b c then b # c # cs
      else if block_less c b then c # set_insert b cs
      else c # cs)"

fun set_find :: "block_t \<Rightarrow> block_t list \<Rightarrow> block_t option" where
  "set_find b [] = None"
| "set_find b (c # cs) =
     (if \<not> block_less b c \<and> \<not> block_less c b then Some c else set_find b cs)"

fun set_erase :: "block_t \<Rightarrow> block_t list \<Rightarrow> block_t list" where
  "set_erase b [] = []"
| "set_erase b (c # cs) =
     (if \<not> block_less b c \<and> \<not> block_less c b then cs else c # set_erase b cs)"

section \<open>Operations\<close>

definition reset :: "allocator_t \<Rightarrow> allocator_t" where
  "reset a = a\<lparr>hal_blocks := set_insert \<lparr>blk_addr = addr_lo a, blk_is_free = True\<rparr> []\<rparr>"

definition allocator_t_construct :: "u64 \<Rightarrow> u64 \<Rightarrow> allocator_t option" where
  "allocator_t_construct base sz =
     (if base \<noteq> 0 \<and> sz \<noteq> 0
      then Some (reset \<lparr>addr_lo = base, addr_hi = base + sz, hal_blocks = []\<rparr>)
      else None)"

text \<open>The end of a block, given the upper end of the range and the blocks after it.\<close>

definition block_end :: "u64 \<Rightarrow> block_t list \<Rightarrow> u64" where
  "block_end hi rest = (case rest of [] \<Rightarrow> hi | n # _ \<Rightarrow> blk_addr n)"

definition block_size :: "u64 \<Rightarrow> block_t \<Rightarrow> block_t list \<Rightarrow> u64" where
  "block_size hi b rest = block_end hi rest - blk_addr b"

text \<open>The loop of \<^verbatim>\<open>alloc\<close>: the block it stops at and the start of the allocation in it.\<close>

fun find_space :: "u64 \<Rightarrow> u64 \<Rightarrow> u64 \<Rightarrow> block_t list \<Rightarrow> (block_t \<times> u64) option" where
  "find_space hi sz alignment [] = None"
| "find_space hi sz alignment (b # rest) =
     (if \<not> blk_is_free b then find_space hi sz alignment rest
      else
        let underflow = block_end hi rest < sz;
            start = (block_end hi rest - sz) AND NOT (alignment - 1)
        in if start < blk_addr b \<or> underflow then find_space hi sz alignment rest
           else Some (b, start))"

definition hal_alloc :: "u64 \<Rightarrow> u64 \<Rightarrow> allocator_t \<Rightarrow> (u64 \<times> allocator_t) option" where
  "hal_alloc sz alignment a =
     (if alignment = 0 \<or> alignment AND (alignment - 1) \<noteq> 0 then None
      else
        let sz' = (if sz = 0 then 1 else sz)
        in case find_space (addr_hi a) sz' alignment (hal_blocks a) of
             None \<Rightarrow> Some (0, a)
           | Some (b, start) \<Rightarrow>
               let bs = (if start = blk_addr b then set_erase b (hal_blocks a) else hal_blocks a)
               in Some (start,
                    a\<lparr>hal_blocks := set_insert \<lparr>blk_addr = start, blk_is_free = False\<rparr> bs\<rparr>))"

text \<open>The set is not empty where \<^verbatim>\<open>consolidate\<close> is called.\<close>

fun consolidate :: "block_t list \<Rightarrow> block_t list" where
  "consolidate [] = []"
| "consolidate [b] = [b]"
| "consolidate (b # n # rest) =
     (if \<not> blk_is_free b \<or> \<not> blk_is_free n then b # consolidate (n # rest)
      else consolidate (b # rest))"

definition hal_free :: "u64 \<Rightarrow> allocator_t \<Rightarrow> allocator_t option" where
  "hal_free p a =
     (if p = 0 then Some a
      else
        let proto = \<lparr>blk_addr = p, blk_is_free = True\<rparr>
        in case set_find proto (hal_blocks a) of
             None \<Rightarrow> None
           | Some b \<Rightarrow>
               if blk_is_free b then None
               else Some (a\<lparr>hal_blocks :=
                      consolidate (set_insert proto (set_erase b (hal_blocks a)))\<rparr>))"

fun available_from :: "u64 \<Rightarrow> block_t list \<Rightarrow> u64 \<Rightarrow> u64" where
  "available_from hi [] acc = acc"
| "available_from hi (b # rest) acc =
     available_from hi rest (if blk_is_free b then acc + block_size hi b rest else acc)"

definition available :: "allocator_t \<Rightarrow> u64" where
  "available a = available_from (addr_hi a) (hal_blocks a) 0"

section \<open>The invariant\<close>

definition blocks_ok :: "u64 \<Rightarrow> block_t list \<Rightarrow> bool" where
  "blocks_ok hi bs \<longleftrightarrow> sorted_wrt block_less bs \<and> (\<forall>b \<in> set bs. blk_addr b < hi)"

definition coalesced :: "block_t list \<Rightarrow> bool" where
  "coalesced bs \<longleftrightarrow> successively (\<lambda>b n. \<not> (blk_is_free b \<and> blk_is_free n)) bs"

definition hal_ok :: "allocator_t \<Rightarrow> bool" where
  "hal_ok a \<longleftrightarrow> addr_lo a \<noteq> 0 \<and> blocks_ok (addr_hi a) (hal_blocks a) \<and> coalesced (hal_blocks a) \<and>
     hal_blocks a \<noteq> [] \<and> blk_addr (hd (hal_blocks a)) = addr_lo a"

text \<open>What the blocks stand for: the allocated ranges, by their start.\<close>

fun taken_in :: "u64 \<Rightarrow> block_t list \<Rightarrow> u64 \<rightharpoonup> u64" where
  "taken_in hi [] = Map.empty"
| "taken_in hi (b # rest) =
     (if blk_is_free b then taken_in hi rest
      else (taken_in hi rest)(blk_addr b \<mapsto> block_end hi rest))"

definition taken :: "allocator_t \<Rightarrow> u64 \<rightharpoonup> u64" where
  "taken a = taken_in (addr_hi a) (hal_blocks a)"

lemmas block_less_simps [simp] = block_less_def

lemma block_end_simps [simp]:
  "block_end hi [] = hi" "block_end hi (n # rest) = blk_addr n"
  by (simp_all add: block_end_def)

lemma blocks_ok_simps [simp]:
  "blocks_ok hi []"
  "blocks_ok hi (b # rest) \<longleftrightarrow>
     blk_addr b < block_end hi rest \<and> blocks_ok hi rest"
  by (auto simp: blocks_ok_def block_end_def split: list.splits)

lemma coalesced_simps [simp]:
  "coalesced []" "coalesced [b]"
  "coalesced (b # n # rest) \<longleftrightarrow> \<not> (blk_is_free b \<and> blk_is_free n) \<and> coalesced (n # rest)"
  by (simp_all add: coalesced_def)

lemma blocks_okD:
  assumes "blocks_ok hi (b # rest)"
  shows "blk_addr b < hi" and "\<forall>c \<in> set rest. block_end hi rest \<le> blk_addr c"
    and "block_end hi rest \<le> hi"
  using assms by (auto simp: blocks_ok_def block_end_def split: list.splits intro: less_imp_le)

lemma block_end_append [simp]: "block_end hi (xs @ ys) = block_end (block_end hi ys) xs"
  by (cases xs) simp_all

lemma blocks_ok_append [simp]:
  "blocks_ok hi (xs @ ys) \<longleftrightarrow> blocks_ok (block_end hi ys) xs \<and> blocks_ok hi ys"
  by (induction xs) auto

lemma taken_in_append [simp]:
  "taken_in hi (xs @ ys) = taken_in hi ys ++ taken_in (block_end hi ys) xs"
  by (induction xs) (auto simp: map_add_def fun_eq_iff split: option.splits)

lemma taken_in_dom: "taken_in hi bs p = Some e \<Longrightarrow> \<exists>b \<in> set bs. blk_addr b = p \<and> \<not> blk_is_free b"
  by (induction bs) (auto split: if_splits)

lemma blocks_ok_less: "blocks_ok hi bs \<Longrightarrow> b \<in> set bs \<Longrightarrow> blk_addr b < hi"
  by (simp add: blocks_ok_def)

lemma taken_in_dom_less: "blocks_ok hi bs \<Longrightarrow> p \<in> dom (taken_in hi bs) \<Longrightarrow> p < hi"
  by (auto dest: taken_in_dom blocks_ok_less)

lemma taken_in_range:
  assumes "blocks_ok hi bs" and "taken_in hi bs p = Some e"
  shows "p < e \<and> e \<le> hi \<and> (\<forall>b \<in> set bs. p < blk_addr b \<longrightarrow> e \<le> blk_addr b)"
  using assms
proof (induction bs)
  case (Cons b rest)
  show ?case
  proof (cases "p = blk_addr b \<and> \<not> blk_is_free b")
    case True
    with Cons.prems blocks_okD [OF Cons.prems(1)] show ?thesis by auto
  next
    case False
    with Cons.prems have t: "taken_in hi rest p = Some e"
      by (auto split: if_splits)
    from taken_in_dom [OF t] obtain c where "c \<in> set rest" "blk_addr c = p" by blast
    with blocks_okD(2) [OF Cons.prems(1)] Cons.prems(1) have "blk_addr b < p"
      by (auto dest: less_le_trans)
    with t Cons.IH Cons.prems(1) show ?thesis by auto
  qed
qed simp

lemma set_insert_between:
  assumes "\<forall>x \<in> set xs. blk_addr x < blk_addr c" and "ys \<noteq> [] \<Longrightarrow> blk_addr c < blk_addr (hd ys)"
  shows "set_insert c (xs @ ys) = xs @ c # ys"
  using assms
proof (induction xs)
  case Nil
  then show ?case by (cases ys) simp_all
next
  case (Cons x xs)
  then show ?case by (auto dest: less_asym)
qed

lemma set_find_at:
  assumes "\<forall>x \<in> set xs. blk_addr x < blk_addr b"
  shows "blk_addr p = blk_addr b \<Longrightarrow> set_find p (xs @ b # ys) = Some b"
  using assms by (induction xs) auto

lemma set_erase_at:
  assumes "\<forall>x \<in> set xs. blk_addr x < blk_addr b"
  shows "set_erase b (xs @ b # ys) = xs @ ys"
  using assms by (induction xs) auto

lemma set_findD:
  assumes "set_find p bs = Some b"
  shows "blk_addr b = blk_addr p \<and> (\<exists>xs ys. bs = xs @ b # ys)"
  using assms
proof (induction bs)
  case (Cons c cs)
  show ?case
  proof (cases "blk_addr c = blk_addr p")
    case True
    with Cons.prems have "b = c" by simp
    with True show ?thesis by (metis append_Nil)
  next
    case False
    with Cons.prems have "set_find p cs = Some b" by (auto simp: not_less split: if_splits)
    with Cons.IH show ?thesis by (metis append_Cons)
  qed
qed simp

text \<open>A block in the middle of a well-formed list.\<close>

lemma blocks_ok_middle:
  assumes "blocks_ok hi (xs @ b # ys)"
  shows "\<forall>x \<in> set xs. blk_addr x < blk_addr b" and "ys \<noteq> [] \<Longrightarrow> blk_addr b < blk_addr (hd ys)"
    and "blk_addr b < block_end hi ys"
  using assms by (auto simp: blocks_ok_less) (cases ys; simp)

lemma find_space_SomeD:
  assumes "find_space hi n al bs = Some (b, start)"
  shows "\<exists>xs ys. bs = xs @ b # ys \<and> blk_is_free b \<and> n \<le> block_end hi ys \<and> blk_addr b \<le> start \<and>
     start = (block_end hi ys - n) AND NOT (al - 1)"
  using assms
proof (induction bs)
  case (Cons c cs)
  show ?case
  proof (cases "find_space hi n al cs = Some (b, start)")
    case True
    with Cons.IH show ?thesis by (metis append_Cons)
  next
    case False
    with Cons.prems have "b = c" and "blk_is_free c" and "n \<le> block_end hi cs" and "blk_addr b \<le> start"
      and "start = (block_end hi cs - n) AND NOT (al - 1)"
      by (auto simp: Let_def not_less split: if_splits)
    then show ?thesis by (intro exI [of _ "[]"] exI [of _ cs]) simp
  qed
qed simp

lemma find_space_NoneD:
  assumes "find_space hi n al (xs @ b # ys) = None" and "blk_is_free b" and "n \<le> block_end hi ys"
  shows "(block_end hi ys - n) AND NOT (al - 1) < blk_addr b"
  using assms by (induction xs) (auto simp: Let_def not_less split: if_splits)

lemma coalesced_append:
  "coalesced (xs @ b # ys) \<longleftrightarrow> coalesced (xs @ [b]) \<and> coalesced (b # ys)"
  by (simp add: coalesced_def successively_append_iff) blast

lemma coalesced_snoc_taken: "coalesced xs \<Longrightarrow> \<not> blk_is_free b \<Longrightarrow> coalesced (xs @ [b])"
  by (simp add: coalesced_def successively_append_iff)

lemma coalesced_Cons_taken: "coalesced ys \<Longrightarrow> \<not> blk_is_free b \<Longrightarrow> coalesced (b # ys)"
  by (cases ys) simp_all

lemma consolidate_Cons: "\<exists>rest'. consolidate (b # rest) = b # rest'"
  by (induction "b # rest" arbitrary: b rest rule: consolidate.induct) auto

lemma consolidate_end [simp]: "block_end hi (consolidate bs) = block_end hi bs"
  using consolidate_Cons by (cases bs) (simp, metis block_end_simps(2))

lemma consolidate_taken [simp]: "taken_in hi (consolidate bs) = taken_in hi bs"
  by (induction bs rule: consolidate.induct) (auto simp: fun_eq_iff)

lemma consolidate_ok: "blocks_ok hi bs \<Longrightarrow> blocks_ok hi (consolidate bs)"
  by (induction bs rule: consolidate.induct) (auto simp: blocks_okD(3) dest: less_trans blocks_okD)

lemma consolidate_coalesced: "coalesced (consolidate bs)"
proof (induction bs rule: consolidate.induct)
  case (3 b n rest)
  obtain rest' where "consolidate (n # rest) = n # rest'"
    using consolidate_Cons by blast
  with 3 show ?case by auto
qed simp_all

lemma hal_okD:
  assumes "hal_ok a"
  shows "b \<in> set (hal_blocks a) \<Longrightarrow> addr_lo a \<le> blk_addr b"
proof -
  obtain c cs where cs: "hal_blocks a = c # cs" "blk_addr c = addr_lo a"
    using assms by (cases "hal_blocks a") (auto simp: hal_ok_def)
  with assms have "blocks_ok (addr_hi a) (c # cs)" by (simp add: hal_ok_def)
  then have "\<forall>d \<in> set cs. blk_addr c < blk_addr d"
    by (simp add: blocks_ok_def)
  then show "b \<in> set (hal_blocks a) \<Longrightarrow> addr_lo a \<le> blk_addr b"
    using cs by (auto intro: less_imp_le)
qed

lemma construct_ok:
  assumes "unat base + unat sz < 2 ^ 64" and "allocator_t_construct base sz = Some a"
  shows "hal_ok a \<and> taken a = Map.empty \<and> addr_lo a = base \<and> addr_hi a = base + sz"
proof -
  have "base \<noteq> 0" "sz \<noteq> 0" and a: "a = reset \<lparr>addr_lo = base, addr_hi = base + sz, hal_blocks = []\<rparr>"
    using assms(2) by (auto simp: allocator_t_construct_def split: if_splits)
  moreover from this have "base < base + sz"
    using assms(1) by (simp add: word_plus_le_iff_unat)
  ultimately show ?thesis
    by (simp add: reset_def hal_ok_def taken_def)
qed

section \<open>Allocation\<close>

text \<open>A request of 0 bytes takes one byte.\<close>

definition effective_size :: "u64 \<Rightarrow> u64" where
  "effective_size sz = (if sz = 0 then 1 else sz)"

lemma effective_size_pos: "1 \<le> unat (effective_size sz)"
  by (simp add: effective_size_def Suc_le_eq)

lemma aligned_start:
  fixes e n al :: u64
  assumes "unat al = 2 ^ k" and "n \<le> e"
  defines "start \<equiv> (e - n) AND NOT (al - 1)"
  shows "unat start + unat n \<le> unat e" and "2 ^ k dvd unat start"
    and "unat s + unat n \<le> unat e \<Longrightarrow> 2 ^ k dvd unat s \<Longrightarrow> unat s \<le> unat start"
proof -
  have d: "unat (e - n) = unat e - unat n" and ne: "unat n \<le> unat e"
    using assms(2) by (simp_all add: unat_minus_no_wrap word_le_nat_alt)
  have st: "unat start = 2 ^ k * ((unat e - unat n) div 2 ^ k)"
    unfolding start_def unat_and_not_mask [OF assms(1)] d ..
  have "unat start \<le> unat e - unat n"
    unfolding st by (rule times_div_less_eq_dividend)
  with ne show "unat start + unat n \<le> unat e" by linarith
  show "2 ^ k dvd unat start" by (simp add: st)
  assume s: "unat s + unat n \<le> unat e" "2 ^ k dvd unat s"
  then have "unat s \<le> unat e - unat n" by linarith
  then have "unat s div 2 ^ k \<le> (unat e - unat n) div 2 ^ k" by (rule div_le_mono)
  then have "2 ^ k * (unat s div 2 ^ k) \<le> unat start"
    unfolding st by (rule mult_le_mono2)
  with s(2) show "unat s \<le> unat start" by simp
qed

lemma hal_allocE:
  assumes "hal_ok a" and "hal_alloc sz al a = Some (p, a')"
  obtains (none) k where "unat al = 2 ^ k" "p = 0" "a' = a"
      "find_space (addr_hi a) (effective_size sz) al (hal_blocks a) = None"
    | (some) k xs b ys where "unat al = 2 ^ k" "hal_blocks a = xs @ b # ys" "blk_is_free b" "blk_addr b \<le> p"
      "effective_size sz \<le> block_end (addr_hi a) ys"
      "p = (block_end (addr_hi a) ys - effective_size sz) AND NOT (al - 1)"
      "a' = a\<lparr>hal_blocks := xs @ (if p = blk_addr b then [] else [b]) @
              \<lparr>blk_addr = p, blk_is_free = False\<rparr> # ys\<rparr>"
proof -
  have al: "al \<noteq> 0" "al AND (al - 1) = 0"
    using assms(2) by (auto simp: hal_alloc_def split: if_splits)
  then obtain k where k: "unat al = 2 ^ k"
    using power_of_two_test by blast
  let ?f = "find_space (addr_hi a) (effective_size sz) al (hal_blocks a)"
  show thesis
  proof (cases ?f)
    case None
    then show thesis
      using assms(2) k none by (simp add: hal_alloc_def effective_size_def al split: if_splits)
  next
    case (Some bs)
    then obtain b start where f: "?f = Some (b, start)" by (cases bs) blast
    from find_space_SomeD [OF f] obtain xs ys where
      st: "hal_blocks a = xs @ b # ys" "blk_is_free b" "effective_size sz \<le> block_end (addr_hi a) ys"
        "blk_addr b \<le> start" "start = (block_end (addr_hi a) ys - effective_size sz) AND NOT (al - 1)"
      by blast
    have ok: "blocks_ok (addr_hi a) (xs @ b # ys)"
      using assms(1) st(1) by (simp add: hal_ok_def)
    note mid = blocks_ok_middle [OF ok]
    let ?new = "\<lparr>blk_addr = start, blk_is_free = False\<rparr>"
    have "p = start" and a': "a' = a\<lparr>hal_blocks :=
        set_insert ?new (if start = blk_addr b then set_erase b (hal_blocks a) else hal_blocks a)\<rparr>"
      using assms(2) f by (simp_all add: hal_alloc_def effective_size_def al Let_def split: if_splits)
    have "unat start < unat (block_end (addr_hi a) ys)"
      using aligned_start(1) [OF k st(3)] effective_size_pos [of sz] unfolding st(5) [symmetric]
      by linarith
    then have below: "ys \<noteq> [] \<Longrightarrow> start < blk_addr (hd ys)"
      by (cases ys) (simp_all add: word_less_nat_alt)
    have "set_insert ?new (if start = blk_addr b then set_erase b (hal_blocks a) else hal_blocks a)
        = xs @ (if start = blk_addr b then [] else [b]) @ ?new # ys"
    proof (cases "start = blk_addr b")
      case True
      then show ?thesis
        using mid set_insert_between [of xs ?new ys] set_erase_at [OF mid(1)] below by (simp add: st(1))
    next
      case False
      then have "blk_addr b < start" using st(4) by simp
      then show ?thesis
        using mid(1) set_insert_between [of "xs @ [b]" ?new ys] below False
        by (auto simp: st(1) dest: less_trans)
    qed
    with a' st k \<open>p = start\<close> show thesis by (intro some) simp_all
  qed
qed

lemma hal_alloc_law:
  assumes "hal_ok a" and "hal_alloc sz al a = Some (p, a')"
  shows "hal_ok a' \<and> addr_lo a' = addr_lo a \<and> addr_hi a' = addr_hi a \<and>
     (if p = 0 then a' = a
      else taken a p = None \<and> unat al dvd unat p \<and> addr_lo a \<le> p \<and>
        (\<exists>e. taken a' = (taken a)(p \<mapsto> e) \<and> unat p + unat (effective_size sz) \<le> unat e))"
  using assms
proof (cases rule: hal_allocE)
  case none
  with assms(1) show ?thesis by simp
next
  case (some k xs b ys)
  let ?hi = "addr_hi a" and ?new = "\<lparr>blk_addr = p, blk_is_free = False\<rparr>"
  have ok: "blocks_ok ?hi (xs @ b # ys)" and co: "coalesced (xs @ b # ys)"
    using assms(1) some(2) by (simp_all add: hal_ok_def)
  have lo: "addr_lo a \<le> p" "addr_lo a \<noteq> 0"
    using hal_okD [OF assms(1), of b] some(2,4) assms(1) by (auto simp: hal_ok_def)
  then have nz: "p \<noteq> 0" by auto
  note place = aligned_start [OF some(1,5), folded some(6)]
  have below: "p < block_end ?hi ys"
    using place(1) effective_size_pos [of sz] unfolding word_less_nat_alt by linarith
  have notin: "taken_in (blk_addr b) xs p = None"
    using taken_in_dom_less [of "blk_addr b" xs p] ok some(4)
    by (cases "taken_in (blk_addr b) xs p") (auto simp: domI)
  have notin2: "taken_in ?hi ys p = None"
  proof (rule ccontr)
    assume "taken_in ?hi ys p \<noteq> None"
    then obtain c where "c \<in> set ys" "blk_addr c = p" by (auto dest: taken_in_dom)
    moreover have "blocks_ok ?hi (b # ys)" using ok by simp
    ultimately show False using blocks_okD(2) below by fastforce
  qed
  have t: "taken a = taken_in ?hi ys ++ taken_in (blk_addr b) xs"
    using some(2,3) by (simp add: taken_def)
  have t': "taken a' = (taken a)(p \<mapsto> block_end ?hi ys)"
    using some(3) notin unfolding t
    by (auto simp: some(7) taken_def map_add_def fun_eq_iff split: option.splits)
  have xs: "coalesced (xs @ [b])" "coalesced xs" and ys: "coalesced ys"
    using co by (auto simp: coalesced_def successively_append_iff successively_Cons)
  have "coalesced (xs @ (if p = blk_addr b then [] else [b]) @ ?new # ys)"
    using coalesced_append [of "xs @ [b]" ?new ys] coalesced_append [of xs ?new ys] xs ys
      coalesced_snoc_taken [of "xs @ [b]" ?new] coalesced_snoc_taken [of xs ?new]
      coalesced_Cons_taken [of ys ?new] by auto
  moreover have "blocks_ok ?hi (xs @ (if p = blk_addr b then [] else [b]) @ ?new # ys)"
    using ok below some(4) by auto
  ultimately have "hal_ok a'"
    using assms(1) some(2,4) by (cases xs) (auto simp: some(7) hal_ok_def)
  then show ?thesis
    using nz lo(1) place(1,2) notin notin2 t t' some(1) by (auto simp: some(7) map_add_def)
qed

lemma free_block_at:
  assumes "blocks_ok hi bs" and "coalesced bs" and "bs \<noteq> []" and "blk_addr (hd bs) \<le> s"
    and "0 < n" and "unat s + n \<le> unat hi"
    and "\<And>p e. taken_in hi bs p = Some e \<Longrightarrow> unat e \<le> unat s \<or> unat s + n \<le> unat p"
  shows "\<exists>xs b ys. bs = xs @ b # ys \<and> blk_is_free b \<and> blk_addr b \<le> s \<and>
     unat s + n \<le> unat (block_end hi ys)"
  using assms
proof (induction bs)
  case (Cons b rest)
  have b: "blk_is_free b" if "s < block_end hi rest"
  proof (rule ccontr)
    assume "\<not> blk_is_free b"
    then have "taken_in hi (b # rest) (blk_addr b) = Some (block_end hi rest)" by simp
    from Cons.prems(7) [OF this] Cons.prems(4,5) that show False
      by (simp add: word_less_nat_alt word_le_nat_alt)
  qed
  show ?case
  proof (cases rest)
    case Nil
    with b Cons.prems(4-6) have "blk_is_free b"
      by (auto simp: word_less_nat_alt)
    with Nil Cons.prems show ?thesis by (intro exI [of _ "[]"]) auto
  next
    case (Cons n' rest')
    show ?thesis
    proof (cases "blk_addr n' \<le> s")
      case True
      have "\<exists>xs b ys. rest = xs @ b # ys \<and> blk_is_free b \<and> blk_addr b \<le> s \<and>
          unat s + n \<le> unat (block_end hi ys)"
      proof (rule Cons.IH)
        fix p e
        assume t: "taken_in hi rest p = Some e"
        show "unat e \<le> unat s \<or> unat s + n \<le> unat p"
        proof (cases "p = blk_addr b")
          case True
          from taken_in_dom [OF t] obtain c where "c \<in> set rest" "blk_addr c = p" by blast
          with blocks_okD(2) [OF Cons.prems(1)] Cons.prems(1) True show ?thesis by auto
        next
          case False
          with t Cons.prems(7) [of p e] show ?thesis by (simp split: if_splits)
        qed
      qed (use Cons.prems True \<open>rest = n' # rest'\<close> in simp_all)
      then show ?thesis by (metis append_Cons)
    next
      case False
      with b Cons have fb: "blk_is_free b" by simp
      have "unat s + n \<le> unat (blk_addr n')"
      proof (rule ccontr)
        assume far: "\<not> unat s + n \<le> unat (blk_addr n')"
        have "\<not> blk_is_free n'" using fb Cons Cons.prems(2) by simp
        then have t: "taken_in hi (b # rest) (blk_addr n') = Some (block_end hi rest')"
          using fb Cons by simp
        have "blk_addr n' < block_end hi rest'"
          using Cons.prems(1) Cons by simp
        with Cons.prems(7) [OF t] far False show False
          by (simp add: word_less_nat_alt word_le_nat_alt)
      qed
      with fb Cons Cons.prems(4) show ?thesis
        by (intro exI [of _ "[]"] exI [of _ b] exI [of _ rest]) simp
    qed
  qed
qed simp

lemma hal_alloc_complete:
  assumes "hal_ok a" and "hal_alloc sz al a = Some (0, a')"
    and "addr_lo a \<le> s" and "unat al dvd unat s" and "unat s + unat (effective_size sz) \<le> unat (addr_hi a)"
  shows "\<exists>p e. taken a p = Some e \<and> unat s < unat e \<and> unat p < unat s + unat (effective_size sz)"
proof (rule ccontr)
  assume "\<not> ?thesis"
  then have apart: "\<And>p e. taken_in (addr_hi a) (hal_blocks a) p = Some e \<Longrightarrow>
      unat e \<le> unat s \<or> unat s + unat (effective_size sz) \<le> unat p"
    by (metis not_le_imp_less taken_def)
  have pos: "0 < unat (effective_size sz)"
    using effective_size_pos [of sz] by linarith
  obtain xs b ys where b: "hal_blocks a = xs @ b # ys" "blk_is_free b" "blk_addr b \<le> s"
      "unat s + unat (effective_size sz) \<le> unat (block_end (addr_hi a) ys)"
    using free_block_at [of "addr_hi a" "hal_blocks a", OF _ _ _ _ pos assms(5) apart] assms(1,3)
    by (auto simp: hal_ok_def)
  from assms(1,2) show False
  proof (cases rule: hal_allocE)
    case (none k)
    have le: "effective_size sz \<le> block_end (addr_hi a) ys"
      using b(4) by (simp add: word_le_nat_alt)
    have "unat s \<le> unat ((block_end (addr_hi a) ys - effective_size sz) AND NOT (al - 1))"
      using aligned_start(3) [OF none(1) le b(4)] assms(4) none(1) by simp
    moreover have "(block_end (addr_hi a) ys - effective_size sz) AND NOT (al - 1) < blk_addr b"
      using find_space_NoneD none(4) b(1,2) le by metis
    ultimately show False
      using b(3) by (simp add: word_less_nat_alt word_le_nat_alt)
  next
    case (some k xs b ys)
    then have "addr_lo a \<le> 0"
      using hal_okD [OF assms(1), of b] by (auto intro: order_trans)
    with assms(1) show False by (simp add: hal_ok_def)
  qed
qed

section \<open>Release\<close>

lemma taken_find:
  assumes "blocks_ok hi bs" and "taken_in hi bs p = Some e"
  shows "\<exists>b. set_find \<lparr>blk_addr = p, blk_is_free = True\<rparr> bs = Some b \<and> \<not> blk_is_free b"
proof -
  from taken_in_dom [OF assms(2)] obtain b where b: "b \<in> set bs" "blk_addr b = p" "\<not> blk_is_free b"
    by blast
  then obtain xs ys where bs: "bs = xs @ b # ys" by (auto dest: split_list)
  with assms(1) b set_find_at [OF blocks_ok_middle(1)] show ?thesis by fastforce
qed

lemma hal_free_law:
  assumes "hal_ok a"
  shows "p \<noteq> 0 \<Longrightarrow> taken a p = Some e \<Longrightarrow> hal_free p a \<noteq> None"
    and "hal_free p a = Some a' \<Longrightarrow> hal_ok a' \<and> addr_lo a' = addr_lo a \<and> addr_hi a' = addr_hi a \<and>
      taken a' = (taken a)(p := None) \<and> (p \<noteq> 0 \<longrightarrow> taken a p \<noteq> None)"
proof -
  let ?proto = "\<lparr>blk_addr = p, blk_is_free = True\<rparr>"
  show "p \<noteq> 0 \<Longrightarrow> taken a p = Some e \<Longrightarrow> hal_free p a \<noteq> None"
    using assms taken_find [of "addr_hi a" "hal_blocks a" p e]
    by (auto simp: hal_ok_def hal_free_def taken_def)
  assume f: "hal_free p a = Some a'"
  show "hal_ok a' \<and> addr_lo a' = addr_lo a \<and> addr_hi a' = addr_hi a \<and>
      taken a' = (taken a)(p := None) \<and> (p \<noteq> 0 \<longrightarrow> taken a p \<noteq> None)"
  proof (cases "p = 0")
    case True
    have "taken a 0 = None"
    proof (rule ccontr)
      assume "taken a 0 \<noteq> None"
      then obtain b where "b \<in> set (hal_blocks a)" "blk_addr b = 0"
        by (auto simp: taken_def dest: taken_in_dom)
      with hal_okD [OF assms, of b] assms show False by (simp add: hal_ok_def)
    qed
    with True f assms show ?thesis by (auto simp: hal_free_def)
  next
    case False
    with f obtain b where b: "set_find ?proto (hal_blocks a) = Some b" "\<not> blk_is_free b"
      and a': "a' = a\<lparr>hal_blocks := consolidate (set_insert ?proto (set_erase b (hal_blocks a)))\<rparr>"
      by (auto simp: hal_free_def Let_def split: option.splits if_splits)
    from set_findD [OF b(1)] obtain xs ys where bs: "hal_blocks a = xs @ b # ys" "blk_addr b = p"
      by auto
    have ok: "blocks_ok (addr_hi a) (xs @ b # ys)" using assms bs by (simp add: hal_ok_def)
    note mid = blocks_ok_middle [OF ok]
    have ins: "set_insert ?proto (set_erase b (hal_blocks a)) = xs @ ?proto # ys"
      using set_erase_at [OF mid(1)] set_insert_between [of xs ?proto ys] mid bs by simp
    have p_xs: "taken_in p xs p = None"
      using taken_in_dom_less [of p xs p] ok bs(2) by (cases "taken_in p xs p") (auto simp: domI)
    have p_ys: "taken_in (addr_hi a) ys p = None"
    proof (rule ccontr)
      assume "taken_in (addr_hi a) ys p \<noteq> None"
      then obtain c where "c \<in> set ys" "blk_addr c = p" by (auto dest: taken_in_dom)
      moreover have "blocks_ok (addr_hi a) (b # ys)" using ok by simp
      ultimately show False using blocks_okD(2) bs(2) mid(3) by fastforce
    qed
    have t: "taken a = (taken_in (addr_hi a) ys)(p \<mapsto> block_end (addr_hi a) ys) ++ taken_in p xs"
      unfolding taken_def bs(1) using b(2) bs(2) by (simp add: fun_upd_def)
    have "taken a' = taken_in (addr_hi a) ys ++ taken_in p xs"
      by (simp add: a' ins taken_def)
    also have "\<dots> = (taken a)(p := None)"
      unfolding t using p_xs p_ys by (auto simp: map_add_def fun_eq_iff split: option.splits)
    finally have t': "taken a' = (taken a)(p := None)" .
    have "blocks_ok (addr_hi a) (xs @ ?proto # ys)"
      using ok bs(2) by simp
    then have "blocks_ok (addr_hi a') (hal_blocks a')" "coalesced (hal_blocks a')"
      by (simp_all add: a' ins consolidate_ok consolidate_coalesced)
    moreover obtain c cs cs' where "xs @ ?proto # ys = c # cs" "consolidate (c # cs) = c # cs'"
      "blk_addr c = addr_lo a"
      using assms bs consolidate_Cons by (cases xs) (fastforce simp: hal_ok_def)+
    ultimately have "hal_ok a'"
      using assms by (simp add: hal_ok_def a' ins)
    with t' show ?thesis
      using False by (auto simp: a' t p_xs map_add_def)
  qed
qed

section \<open>The contract of a device allocator\<close>

text \<open>
  A client of the allocator as a sequence of requests, which keeps the sizes of the allocations it
  holds; \<^term>\<open>None\<close> when a request fails an assertion.
\<close>

datatype mem_request = Mem_alloc u64 u64 | Mem_free u64

fun serve ::
  "(u64 \<Rightarrow> u64 \<Rightarrow> 's \<Rightarrow> (u64 \<times> 's) option) \<Rightarrow> (u64 \<Rightarrow> 's \<Rightarrow> 's option) \<Rightarrow> mem_request list
    \<Rightarrow> 's \<times> (u64 \<rightharpoonup> u64) \<Rightarrow> ('s \<times> (u64 \<rightharpoonup> u64)) option" where
  "serve alloc release [] (s, live) = Some (s, live)"
| "serve alloc release (Mem_alloc n al # rs) (s, live) =
     (case alloc n al s of None \<Rightarrow> None
      | Some (p, s') \<Rightarrow>
          serve alloc release rs (s', if p = 0 then live else live(p \<mapsto> effective_size n)))"
| "serve alloc release (Mem_free p # rs) (s, live) =
     (case release p s of None \<Rightarrow> None
      | Some s' \<Rightarrow> serve alloc release rs (s', live(p := None)))"

text \<open>The allocations a client holds are those of the allocator, each large enough.\<close>

definition covers :: "(u64 \<rightharpoonup> u64) \<Rightarrow> (u64 \<rightharpoonup> u64) \<Rightarrow> bool" where
  "covers ranges live \<longleftrightarrow> dom ranges = dom live \<and>
     (\<forall>p n e. live p = Some n \<longrightarrow> ranges p = Some e \<longrightarrow> unat p + unat n \<le> unat e)"

lemma coversD: "covers ranges live \<Longrightarrow> live p = Some n \<Longrightarrow> \<exists>e. ranges p = Some e \<and> unat p + unat n \<le> unat e"
  unfolding covers_def by (metis domD domI)

lemma covers_upd: "covers ranges live \<Longrightarrow> unat p + unat n \<le> unat e \<Longrightarrow> covers (ranges(p \<mapsto> e)) (live(p \<mapsto> n))"
  by (simp add: covers_def)

lemma covers_del: "covers ranges live \<Longrightarrow> covers (ranges(p := None)) (live(p := None))"
  by (simp add: covers_def)

locale device_allocator =
  fixes ok :: "'s \<Rightarrow> bool"
    and ranges :: "'s \<Rightarrow> u64 \<rightharpoonup> u64"
    and alloc :: "u64 \<Rightarrow> u64 \<Rightarrow> 's \<Rightarrow> (u64 \<times> 's) option"
    and release :: "u64 \<Rightarrow> 's \<Rightarrow> 's option"
    and lo hi :: u64
  assumes alloc_law: "ok s \<Longrightarrow> alloc n al s = Some (p, s') \<Longrightarrow> ok s' \<and>
      (if p = 0 then s' = s
       else ranges s p = None \<and>
         (\<exists>e. ranges s' = (ranges s)(p \<mapsto> e) \<and> unat p + unat (effective_size n) \<le> unat e))"
    and release_law: "ok s \<Longrightarrow> release p s = Some s' \<Longrightarrow> ok s' \<and> ranges s' = (ranges s)(p := None)"
    and release_held: "ok s \<Longrightarrow> ranges s p \<noteq> None \<Longrightarrow> release p s \<noteq> None"
    and ranges_bounds: "ok s \<Longrightarrow> ranges s p = Some e \<Longrightarrow> lo \<le> p \<and> e \<le> hi"
    and ranges_apart: "ok s \<Longrightarrow> ranges s p = Some e \<Longrightarrow> ranges s q = Some f \<Longrightarrow> p < q \<Longrightarrow> e \<le> q"
begin

lemma serve_covers:
  assumes "ok s" and "covers (ranges s) live" and "serve alloc release rs (s, live) = Some (s', live')"
  shows "ok s' \<and> covers (ranges s') live'"
  using assms
proof (induction rs arbitrary: s live)
  case (Cons r rs)
  show ?case
  proof (cases r)
    case (Mem_alloc n al)
    with Cons.prems(3) obtain p t where a: "alloc n al s = Some (p, t)"
      and rest: "serve alloc release rs (t, if p = 0 then live else live(p \<mapsto> effective_size n))
        = Some (s', live')"
      by (auto split: option.splits)
    from alloc_law [OF Cons.prems(1) a] Cons.prems(2)
    have "ok t" and "covers (ranges t) (if p = 0 then live else live(p \<mapsto> effective_size n))"
      by (auto intro: covers_upd split: if_splits)
    then show ?thesis by (rule Cons.IH [OF _ _ rest])
  next
    case (Mem_free p)
    with Cons.prems(3) obtain t where r: "release p s = Some t"
      and rest: "serve alloc release rs (t, live(p := None)) = Some (s', live')"
      by (auto split: option.splits)
    from release_law [OF Cons.prems(1) r] Cons.prems(2)
    have "ok t" and "covers (ranges t) (live(p := None))"
      by (auto intro: covers_del)
    then show ?thesis by (rule Cons.IH [OF _ _ rest])
  qed
qed simp

lemma served_sound:
  assumes "ok s" and "covers (ranges s) live"
  shows "live p = Some n \<Longrightarrow> lo \<le> p \<and> unat p + unat n \<le> unat hi \<and> release p s \<noteq> None"
    and "live p = Some n \<Longrightarrow> live q = Some m \<Longrightarrow> p \<noteq> q \<Longrightarrow>
           unat p + unat n \<le> unat q \<or> unat q + unat m \<le> unat p"
proof -
  show "live p = Some n \<Longrightarrow> lo \<le> p \<and> unat p + unat n \<le> unat hi \<and> release p s \<noteq> None"
    using coversD [OF assms(2)] ranges_bounds [OF assms(1)] release_held [OF assms(1)]
    by (fastforce simp: word_le_nat_alt)
  assume lv: "live p = Some n" "live q = Some m" and "p \<noteq> q"
  obtain e f where e: "ranges s p = Some e" "unat p + unat n \<le> unat e"
    and f: "ranges s q = Some f" "unat q + unat m \<le> unat f"
    using coversD [OF assms(2)] lv by blast
  from \<open>p \<noteq> q\<close> consider "p < q" | "q < p" by (metis linorder_neqE)
  then show "unat p + unat n \<le> unat q \<or> unat q + unat m \<le> unat p"
    using ranges_apart [OF assms(1) e(1) f(1)] ranges_apart [OF assms(1) f(1) e(1)] e(2) f(2)
    by cases (auto simp: word_le_nat_alt)
qed

end

lemma taken_ranges:
  assumes "hal_ok a" and "taken a p = Some e"
  shows "addr_lo a \<le> p \<and> e \<le> addr_hi a \<and> p \<noteq> 0"
    and "taken a q = Some f \<Longrightarrow> p < q \<Longrightarrow> e \<le> q"
proof -
  have r: "e \<le> addr_hi a \<and> (\<forall>b \<in> set (hal_blocks a). p < blk_addr b \<longrightarrow> e \<le> blk_addr b)"
    using taken_in_range assms by (auto simp: hal_ok_def taken_def)
  obtain b where b: "b \<in> set (hal_blocks a)" "blk_addr b = p"
    using taken_in_dom [of "addr_hi a" "hal_blocks a" p e] assms(2) by (auto simp: taken_def)
  with hal_okD [OF assms(1) b(1)] r assms(1) show "addr_lo a \<le> p \<and> e \<le> addr_hi a \<and> p \<noteq> 0"
    by (auto simp: hal_ok_def)
  assume "taken a q = Some f" "p < q"
  with r show "e \<le> q" by (auto simp: taken_def dest: taken_in_dom)
qed

interpretation hal: device_allocator "\<lambda>a. hal_ok a \<and> addr_lo a = lo \<and> addr_hi a = hi" taken hal_alloc
  hal_free lo hi for lo hi
proof (unfold_locales, goal_cases)
  case (1 s n al p s')
  then show ?case using hal_alloc_law [of s n al p s'] by (auto split: if_splits)
next
  case (2 s p s')
  then show ?case using hal_free_law(2) [of s p s'] by blast
next
  case (3 s p)
  then show ?case using hal_free_law(1) [of s p] taken_ranges(1) [of s p] by fastforce
next
  case (4 s p e)
  then show ?case using taken_ranges(1) [of s p e] by auto
next
  case (5 s p e q f)
  then show ?case using taken_ranges(2) [of s p e] by blast
qed

lemma blocks_all_free:
  assumes "blocks_ok hi bs" and "taken_in hi bs = Map.empty" and "b \<in> set bs"
  shows "blk_is_free b"
proof (rule ccontr)
  assume "\<not> blk_is_free b"
  moreover obtain xs ys where "bs = xs @ b # ys" using assms(3) by (auto dest: split_list)
  ultimately have "taken_in hi bs (blk_addr b) \<noteq> None"
    by (simp add: map_add_def split: option.splits)
  with assms(2) show False by simp
qed

lemma nothing_taken:
  assumes "hal_ok a" and "taken a = Map.empty"
  shows "hal_blocks a = [\<lparr>blk_addr = addr_lo a, blk_is_free = True\<rparr>]"
proof -
  have free: "\<forall>b \<in> set (hal_blocks a). blk_is_free b"
    using blocks_all_free assms by (simp add: hal_ok_def taken_def) blast
  obtain b rest where bs: "hal_blocks a = b # rest"
    using assms(1) by (cases "hal_blocks a") (auto simp: hal_ok_def)
  with free assms(1) have "rest = []" by (cases rest) (auto simp: hal_ok_def)
  with bs free assms(1) show ?thesis by (simp add: hal_ok_def)
qed

text \<open>The state that requests to a new allocator lead to.\<close>

lemma served_state:
  assumes "unat base + unat sz < 2 ^ 64" and "allocator_t_construct base sz = Some a0"
    and "serve hal_alloc hal_free rs (a0, Map.empty) = Some (a, live)"
  shows "hal_ok a \<and> addr_lo a = base \<and> addr_hi a = base + sz" and "covers (taken a) live"
    and "unat (base + sz) = unat base + unat sz"
proof -
  note a0 = construct_ok [OF assms(1,2)]
  have "covers (taken a0) Map.empty"
    using a0 by (simp add: covers_def)
  with hal.serve_covers [of a0 base "base + sz" Map.empty rs a live] a0 assms(3)
  show "hal_ok a \<and> addr_lo a = base \<and> addr_hi a = base + sz" and "covers (taken a) live"
    by simp_all
  show "unat (base + sz) = unat base + unat sz"
    using assms(1) by (simp add: unat_plus_no_wrap)
qed

lemma hal_alloc_returns:
  assumes "k < 64"
  shows "\<exists>p a'. hal_alloc n (2 ^ k) a = Some (p, a')"
proof -
  have "(2 ^ k :: u64) AND (2 ^ k - 1) = 0"
    by (rule bit_word_eqI) (auto simp: bit_simps bit_mask_iff simp flip: mask_eq_exp_minus_1)
  moreover have "(2 ^ k :: u64) \<noteq> 0"
    using unat_power_two [of k, where 'a = 64] assms by auto
  ultimately have "hal_alloc n (2 ^ k) a \<noteq> None"
    by (auto simp: hal_alloc_def Let_def split: option.splits)
  then show ?thesis by fastforce
qed

text \<open>The place that an allocation gets.\<close>

lemma hal_alloc_place:
  assumes "hal_ok a" and "hal_alloc n al a = Some (p, a')" and "p \<noteq> 0"
  shows "addr_lo a \<le> p" and "unat al dvd unat p"
    and "unat p + unat (effective_size n) \<le> unat (addr_hi a)"
    and "taken a q = Some e \<Longrightarrow> unat e \<le> unat p \<or> unat p + unat (effective_size n) \<le> unat q"
proof -
  have l: "hal_ok a'" "addr_hi a' = addr_hi a" "taken a p = None"
    and f: "\<exists>f. taken a' = (taken a)(p \<mapsto> f) \<and> unat p + unat (effective_size n) \<le> unat f"
    using hal_alloc_law [OF assms(1,2)] assms(3) by simp_all
  show "addr_lo a \<le> p" "unat al dvd unat p"
    using hal_alloc_law [OF assms(1,2)] assms(3) by simp_all
  from f obtain f where f: "taken a' = (taken a)(p \<mapsto> f)" "unat p + unat (effective_size n) \<le> unat f"
    by blast
  then have tp: "taken a' p = Some f" by simp
  from taken_ranges(1) [OF l(1) tp] l(2) have "f \<le> addr_hi a" by simp
  with f(2) show "unat p + unat (effective_size n) \<le> unat (addr_hi a)"
    unfolding word_le_nat_alt by (rule le_trans)
  assume q: "taken a q = Some e"
  with l(3) have ne: "q \<noteq> p" by auto
  with q f(1) have tq: "taken a' q = Some e" by simp
  from ne consider "p < q" | "q < p" by (metis linorder_neqE)
  then show "unat e \<le> unat p \<or> unat p + unat (effective_size n) \<le> unat q"
  proof cases
    case 1
    from taken_ranges(2) [OF l(1) tp tq 1] f(2) show ?thesis by (simp add: word_le_nat_alt)
  next
    case 2
    from taken_ranges(2) [OF l(1) tq tp 2] show ?thesis by (simp add: word_le_nat_alt)
  qed
qed

section \<open>Properties\<close>

text \<open>
  C8: after every sequence of requests that a client makes of a new allocator without failing an
  assertion, the allocations it holds lie in the range of the allocator, no two of them overlap and
  each of them can be freed; when it holds none, the allocator is in its initial state again, so that
  no fragmentation remains.
\<close>

theorem hal_requests_served:
  assumes "unat base + unat sz < 2 ^ 64" and "allocator_t_construct base sz = Some a0"
    and "serve hal_alloc hal_free rs (a0, Map.empty) = Some (a, live)"
  shows "(\<forall>p n. live p = Some n \<longrightarrow>
            base \<le> p \<and> unat p + unat n \<le> unat base + unat sz \<and> hal_free p a \<noteq> None) \<and>
         (\<forall>p n q m. live p = Some n \<longrightarrow> live q = Some m \<longrightarrow> p \<noteq> q \<longrightarrow>
            unat p + unat n \<le> unat q \<or> unat q + unat m \<le> unat p) \<and>
         (live = Map.empty \<longrightarrow> a = a0)"
proof -
  note a = served_state [OF assms]
  note a0 = construct_ok [OF assms(1,2)]
  have "a = a0" if "live = Map.empty"
  proof -
    have "taken a = Map.empty"
      using a(2) that by (simp add: covers_def)
    with nothing_taken [of a] a(1) nothing_taken [of a0] a0 show ?thesis by simp
  qed
  then show ?thesis
    using hal.served_sound [OF a(1,2)] unfolding a(3) by blast
qed

theorem hal_requests_served_witness:
  "\<exists>a0 a live. allocator_t_construct 0x1000 0x100 = Some a0 \<and>
     serve hal_alloc hal_free [Mem_alloc 10 8, Mem_alloc 0 1, Mem_free 0x10f0] (a0, Map.empty) = Some (a, live) \<and>
     live 0x10ef = Some 1 \<and> live 0x10f0 = None \<and> hal_free 0x10ef a \<noteq> None"
proof -
  define a0 where "a0 = the (allocator_t_construct 0x1000 0x100)"
  define r where "r = the (serve hal_alloc hal_free [Mem_alloc 10 8, Mem_alloc 0 1, Mem_free 0x10f0] (a0, Map.empty))"
  have c: "allocator_t_construct 0x1000 0x100 = Some a0"
    by (simp add: a0_def allocator_t_construct_def)
  have s: "serve hal_alloc hal_free [Mem_alloc 10 8, Mem_alloc 0 1, Mem_free 0x10f0] (a0, Map.empty) = Some (fst r, snd r)"
    and l: "snd r 0x10ef = Some 1" "snd r 0x10f0 = None"
    by (simp_all add: r_def a0_def allocator_t_construct_def reset_def hal_alloc_def hal_free_def Let_def
        effective_size_def)
  have "hal_free 0x10ef (fst r) \<noteq> None"
    using hal_requests_served [OF _ c s, THEN conjunct1, THEN spec, THEN spec, THEN mp, OF _ l(1)] by simp
  with c s l show ?thesis by blast
qed

text \<open>
  C18: in every state that requests lead to, \<^verbatim>\<open>alloc\<close> with a power of two as the alignment returns; it
  returns 0 exactly when every aligned place of the requested size in the range meets an allocated
  range, and otherwise an aligned address whose bytes were in none of them.
\<close>

theorem hal_alloc_finds_space:
  assumes "unat base + unat sz < 2 ^ 64" and "allocator_t_construct base sz = Some a0"
    and "serve hal_alloc hal_free rs (a0, Map.empty) = Some (a, live)"
    and "k < 64" and "n \<noteq> 0"
  shows "\<exists>p a'. hal_alloc n (2 ^ k) a = Some (p, a') \<and>
     (p = 0 \<longleftrightarrow> (\<forall>s. base \<le> s \<longrightarrow> 2 ^ k dvd unat s \<longrightarrow> unat s + unat n \<le> unat base + unat sz \<longrightarrow>
        (\<exists>q e. taken a q = Some e \<and> unat s < unat e \<and> unat q < unat s + unat n))) \<and>
     (p \<noteq> 0 \<longrightarrow> base \<le> p \<and> 2 ^ k dvd unat p \<and> unat p + unat n \<le> unat base + unat sz \<and>
        (\<forall>q e. taken a q = Some e \<longrightarrow> unat e \<le> unat p \<or> unat p + unat n \<le> unat q))"
proof -
  note state = served_state [OF assms(1-3)]
  then have a: "hal_ok a" "addr_lo a = base" "addr_hi a = base + sz" by simp_all
  have al: "unat (2 ^ k :: u64) = 2 ^ k" and n: "effective_size n = n"
    using assms(4,5) by (simp_all add: unat_power_two effective_size_def)
  obtain p a' where alloc: "hal_alloc n (2 ^ k) a = Some (p, a')"
    using hal_alloc_returns [OF assms(4)] by blast
  note place = hal_alloc_place [OF a(1) alloc, unfolded a(2,3) al n state(3)]
  have "p = 0" if full: "\<forall>s. base \<le> s \<longrightarrow> 2 ^ k dvd unat s \<longrightarrow> unat s + unat n \<le> unat base + unat sz \<longrightarrow>
      (\<exists>q e. taken a q = Some e \<and> unat s < unat e \<and> unat q < unat s + unat n)"
  proof (rule ccontr)
    assume nz: "p \<noteq> 0"
    with full place(1-3) obtain q e where "taken a q = Some e" "unat p < unat e" "unat q < unat p + unat n"
      by blast
    with place(4) [OF nz] show False by fastforce
  qed
  moreover have "\<exists>q e. taken a q = Some e \<and> unat s < unat e \<and> unat q < unat s + unat n"
    if "p = 0" "base \<le> s" "2 ^ k dvd unat s" "unat s + unat n \<le> unat base + unat sz" for s
    using hal_alloc_complete [OF a(1), of n "2 ^ k" a' s] alloc that by (simp add: a al n state(3))
  ultimately show ?thesis
    using alloc place by blast
qed

theorem hal_alloc_finds_space_witness:
  "\<exists>a0 a live a'. allocator_t_construct 0x1000 0x40 = Some a0 \<and>
     serve hal_alloc hal_free [Mem_alloc 0x21 1] (a0, Map.empty) = Some (a, live) \<and>
     hal_alloc 0x20 16 a = Some (0, a') \<and>
     (\<exists>q e. taken a q = Some e \<and> 0x1000 < unat e \<and> unat q < 0x1020)"
proof -
  define a0 where "a0 = the (allocator_t_construct 0x1000 0x40)"
  define r where "r = the (serve hal_alloc hal_free [Mem_alloc 0x21 1] (a0, Map.empty))"
  have c: "allocator_t_construct 0x1000 0x40 = Some a0"
    by (simp add: a0_def allocator_t_construct_def)
  have s: "serve hal_alloc hal_free [Mem_alloc 0x21 1] (a0, Map.empty) = Some (fst r, snd r)"
    and full: "hal_alloc 0x20 16 (fst r) = Some (0, fst r)"
    by (simp_all add: r_def a0_def allocator_t_construct_def reset_def hal_alloc_def Let_def)
  have "\<forall>s :: u64. 0x1000 \<le> s \<longrightarrow> 16 dvd unat s \<longrightarrow> unat s \<le> 0x1020 \<longrightarrow>
      (\<exists>q e. taken (fst r) q = Some e \<and> unat s < unat e \<and> unat q < unat s + 32)"
    using hal_alloc_finds_space [OF _ c s, where k = 4 and n = "0x20", simplified, unfolded full] by simp
  from this [THEN spec [of _ "0x1000"]]
  have "\<exists>q e. taken (fst r) q = Some e \<and> 0x1000 < unat e \<and> unat q < 0x1020" by simp
  with c s full show ?thesis
    by (intro exI [of _ a0] exI [of _ "fst r"] exI [of _ "snd r"] conjI) assumption+
qed

end
