(* ===== verification/Hal_Arg_Pack.thy ===== *)
theory Hal_Arg_Pack
  imports Word_Bits
begin

unbundle bit_operations_syntax

text \<open>
  The packing of kernel arguments for a device, \<^verbatim>\<open>hal/source/arg_pack.cpp\<close> and
  \<^verbatim>\<open>hal/include/arg_pack.h\<close>. The vector of bytes is a list. A failed assertion and a write outside of
  the vector are \<^term>\<open>None\<close>.
\<close>

section \<open>Arguments\<close>

datatype hal_arg_kind_t = hal_arg_address | hal_arg_value

datatype hal_addr_space_t = hal_space_local | hal_space_global

text \<open>The union of \<^verbatim>\<open>address\<close> and \<^verbatim>\<open>pod_data\<close> is its 64 bits.\<close>

record hal_arg_t =
  arg_kind :: hal_arg_kind_t
  arg_space :: hal_addr_space_t
  arg_size :: u64
  arg_address :: u64

record hal_argpack_t =
  pack :: "u8 list"
  word_size :: u32

section \<open>Rounding\<close>

definition round_up_power_2 :: "u64 \<Rightarrow> u64" where
  "round_up_power_2 v =
     (let v0 = v - 1;
          v1 = v0 OR drop_bit 1 v0;
          v2 = v1 OR drop_bit 2 v1;
          v3 = v2 OR drop_bit 4 v2;
          v4 = v3 OR drop_bit 8 v3;
          v5 = v4 OR drop_bit 16 v4;
          v6 = v5 OR drop_bit 32 v5
      in v6 + 1)"

definition is_power_2 :: "u64 \<Rightarrow> bool" where
  "is_power_2 v \<longleftrightarrow> v AND (v - 1) = 0"

definition round_to_multiple_p2 :: "u64 \<Rightarrow> u64 \<Rightarrow> u64 option" where
  "round_to_multiple_p2 val mult =
     (if is_power_2 mult then Some ((val + (mult - 1)) AND NOT (mult - 1)) else None)"

definition calc_padding :: "u64 \<Rightarrow> u64 \<Rightarrow> u64 option" where
  "calc_padding write_point align_size =
     (case round_to_multiple_p2 write_point align_size of None \<Rightarrow> None
      | Some alignedIndex \<Rightarrow> Some (alignedIndex - write_point))"

section \<open>The pack\<close>

definition clear :: "hal_argpack_t \<Rightarrow> hal_argpack_t" where
  "clear a = a\<lparr>pack := []\<rparr>"

text \<open>\<^verbatim>\<open>resize\<close> cuts the vector or extends it with zeros.\<close>

definition expand :: "u64 \<Rightarrow> u8 list \<Rightarrow> u8 list" where
  "expand num_bytes bytes =
     (let n = unat (of_nat (length bytes) + num_bytes)
      in take n bytes @ replicate (n - length bytes) 0)"

definition write_bytes :: "u64 \<Rightarrow> u8 list \<Rightarrow> u8 list \<Rightarrow> u8 list option" where
  "write_bytes write_point new bytes =
     (let i = unat write_point
      in if i + length new \<le> length bytes
         then Some (take i bytes @ new @ drop (i + length new) bytes) else None)"

definition bytes_at :: "byte_memory \<Rightarrow> ptr \<Rightarrow> nat \<Rightarrow> u8 list" where
  "bytes_at m p n = map (\<lambda>i. m (p + of_nat i)) [0..<n]"

text \<open>Every branch of \<^verbatim>\<open>add_arg\<close> appends padding and then the bytes of the argument.\<close>

definition append_aligned :: "u64 \<Rightarrow> u8 list \<Rightarrow> hal_argpack_t \<Rightarrow> hal_argpack_t option" where
  "append_aligned align_size new a =
     (case calc_padding (of_nat (length (pack a))) align_size of None \<Rightarrow> None
      | Some padding \<Rightarrow>
         (case write_bytes (of_nat (length (pack a)) + padding) new
                 (expand (of_nat (length new) + padding) (pack a)) of None \<Rightarrow> None
          | Some bytes \<Rightarrow> Some (a\<lparr>pack := bytes\<rparr>)))"

definition add_arg :: "byte_memory \<Rightarrow> hal_arg_t \<Rightarrow> hal_argpack_t \<Rightarrow> hal_argpack_t option" where
  "add_arg m arg a =
     (case (arg_space arg, arg_kind arg) of
        (hal_space_global, hal_arg_address) \<Rightarrow> append_aligned 8 (le_bytes 8 (arg_address arg)) a
      | (hal_space_global, hal_arg_value) \<Rightarrow>
          append_aligned (round_up_power_2 (arg_size arg))
            (bytes_at m (arg_address arg) (unat (arg_size arg))) a
      | (hal_space_local, hal_arg_address) \<Rightarrow>
          if word_size a = 64 then append_aligned 8 (le_bytes 8 (arg_size arg)) a
          else if word_size a = 32
          then append_aligned 4 (le_bytes 4 (ucast (ucast (arg_size arg) :: u32))) a
          else None
      | (hal_space_local, hal_arg_value) \<Rightarrow> None)"

fun add_args :: "byte_memory \<Rightarrow> hal_arg_t list \<Rightarrow> hal_argpack_t \<Rightarrow> hal_argpack_t option" where
  "add_args m [] a = Some a"
| "add_args m (arg # args) a =
     (case add_arg m arg a of None \<Rightarrow> None | Some a' \<Rightarrow> add_args m args a')"

definition build :: "byte_memory \<Rightarrow> hal_arg_t list \<Rightarrow> hal_argpack_t \<Rightarrow> hal_argpack_t option" where
  "build m args a = add_args m args (clear a)"

section \<open>Alignment\<close>

lemma round_up_power_2_spec:
  assumes "v \<noteq> 0" and "unat v \<le> 2 ^ 63"
  shows "\<exists>k < 64. round_up_power_2 v = 2 ^ k \<and> unat v \<le> 2 ^ k \<and> 2 ^ k < 2 * unat v"
proof (cases "v = 1")
  case True
  then show ?thesis
    by (intro exI [of _ 0]) (simp add: round_up_power_2_def)
next
  case False
  have "2 \<le> unat v"
  proof -
    have "unat v \<noteq> 0" "unat v \<noteq> 1"
      using assms(1) False by (metis unat_0 word_unat_eq_iff, metis unat_1 word_unat_eq_iff)
    then show ?thesis by linarith
  qed
  from round_up_power_of_two [OF this assms(2) smear_all [of "v - 1"]] show ?thesis
    by (simp add: round_up_power_2_def Let_def)
qed

text \<open>The smallest multiple of \<open>n\<close> that is not below \<open>x\<close>.\<close>

definition align_up :: "nat \<Rightarrow> nat \<Rightarrow> nat" where
  "align_up n x = n * ((x + (n - 1)) div n)"

lemma align_up_bounds:
  assumes "0 < n"
  shows "x \<le> align_up n x" and "align_up n x < x + n" and "n dvd align_up n x"
proof -
  have "x + (n - 1) = align_up n x + (x + (n - 1)) mod n"
    by (simp add: align_up_def)
  moreover have "(x + (n - 1)) mod n < n" using assms by simp
  ultimately show "x \<le> align_up n x" "align_up n x < x + n" using assms by linarith+
  show "n dvd align_up n x" by (simp add: align_up_def)
qed

lemma calc_padding_spec:
  assumes "k < 64" and "n + 2 ^ k \<le> 2 ^ 64"
  shows "calc_padding (of_nat n) (2 ^ k) = Some (of_nat (align_up (2 ^ k) n - n))"
proof -
  have al: "unat (2 ^ k :: u64) = 2 ^ k"
    using assms(1) by (simp add: unat_power_two)
  have pow: "is_power_2 (2 ^ k)"
    unfolding is_power_2_def
    by (rule bit_word_eqI) (auto simp: bit_simps bit_mask_iff simp flip: mask_eq_exp_minus_1)
  have n: "n < 2 ^ 64" using assms(2) by (rule less_le_trans [rotated]) simp
  have m1: "unat (2 ^ k - 1 :: u64) = 2 ^ k - 1"
    by (subst unat_minus_no_wrap) (simp_all only: al unat_1 one_le_power)
  have un: "unat (of_nat n :: u64) = n"
    using n unat_of_nat_small [of n, where 'a = 64] by simp
  have "n + (2 ^ k - 1) < 2 ^ 64"
    by (rule less_le_trans [OF _ assms(2)]) simp
  then have "unat (of_nat n + (2 ^ k - 1) :: u64) = n + (2 ^ k - 1)"
    using unat_plus_no_wrap [of "of_nat n :: u64" "2 ^ k - 1"] unfolding un m1 by simp
  then have "unat ((of_nat n + (2 ^ k - 1)) AND NOT (2 ^ k - 1) :: u64) = align_up (2 ^ k) n"
    unfolding unat_and_not_mask [OF al] align_up_def by (simp only:)
  then have "of_nat (unat ((of_nat n + (2 ^ k - 1)) AND NOT (2 ^ k - 1) :: u64)) = (of_nat (align_up (2 ^ k) n) :: u64)"
    by (rule arg_cong)
  then show ?thesis
    using align_up_bounds(1) [of "2 ^ k" n]
    by (simp add: calc_padding_def round_to_multiple_p2_def pow of_nat_diff)
qed

section \<open>Layout\<close>

lemma append_aligned_spec:
  assumes "k < 64" and "length (pack a) + 2 ^ k + length new \<le> 2 ^ 64"
  shows "append_aligned (2 ^ k) new a =
    Some (a\<lparr>pack := pack a @ replicate (align_up (2 ^ k) (length (pack a)) - length (pack a)) 0 @ new\<rparr>)"
proof -
  let ?n = "length (pack a)"
  let ?o = "align_up (2 ^ k) ?n"
  have bounds: "?n \<le> ?o" "?o < ?n + 2 ^ k"
    using align_up_bounds [of "2 ^ k" ?n] by simp_all
  have pad: "calc_padding (of_nat ?n) (2 ^ k) = Some (of_nat (?o - ?n))"
    using calc_padding_spec [OF assms(1), of ?n] assms(2) by simp
  have small: "?o + length new < 2 ^ LENGTH(64)" and small': "?o < 2 ^ LENGTH(64)"
    using bounds assms(2) by simp_all
  have sum1: "(of_nat ?n + of_nat (?o - ?n) :: u64) = of_nat ?o"
    using bounds(1) by (simp only: of_nat_add [symmetric] le_add_diff_inverse)
  have sum2: "(of_nat ?n + (of_nat (length new) + of_nat (?o - ?n)) :: u64) = of_nat (?o + length new)"
    unfolding sum1 [symmetric] of_nat_add by (simp only: ac_simps)
  show ?thesis
    using bounds(1) unfolding append_aligned_def pad option.case Let_def write_bytes_def expand_def sum1 sum2
      unat_of_nat_small [OF small] unat_of_nat_small [OF small']
    by simp
qed

text \<open>What an argument is packed as, and the arguments that are supported.\<close>

fun arg_bytes :: "byte_memory \<Rightarrow> u32 \<Rightarrow> hal_arg_t \<Rightarrow> u8 list" where
  "arg_bytes m ws arg =
     (case (arg_space arg, arg_kind arg) of
        (hal_space_global, hal_arg_address) \<Rightarrow> le_bytes 8 (arg_address arg)
      | (hal_space_global, hal_arg_value) \<Rightarrow> bytes_at m (arg_address arg) (unat (arg_size arg))
      | _ \<Rightarrow> le_bytes (unat ws div 8) (arg_size arg))"

definition arg_supported :: "u32 \<Rightarrow> hal_arg_t \<Rightarrow> bool" where
  "arg_supported ws arg \<longleftrightarrow>
     (case (arg_space arg, arg_kind arg) of
        (hal_space_global, hal_arg_address) \<Rightarrow> True
      | (hal_space_global, hal_arg_value) \<Rightarrow> arg_size arg \<noteq> 0 \<and> unat (arg_size arg) \<le> 2 ^ 63
      | (hal_space_local, hal_arg_address) \<Rightarrow> ws = 32 \<or> ws = 64
      | (hal_space_local, hal_arg_value) \<Rightarrow> False)"

text \<open>
  \<open>bytes\<close> holds the given arguments at the given offsets, from position \<open>pos\<close> to its end: each at the
  next multiple of the smallest power of two that is not below its size.
\<close>

fun laid_out :: "u8 list \<Rightarrow> nat \<Rightarrow> u8 list list \<Rightarrow> nat list \<Rightarrow> bool" where
  "laid_out bytes pos [] [] \<longleftrightarrow> pos = length bytes"
| "laid_out bytes pos (b # bs) (off # offs) \<longleftrightarrow>
     (\<exists>k < 64. off = align_up (2 ^ k) pos \<and> length b \<le> 2 ^ k \<and> 2 ^ k < 2 * length b) \<and>
     take (length b) (drop off bytes) = b \<and> laid_out bytes (off + length b) bs offs"
| "laid_out bytes pos _ _ \<longleftrightarrow> False"

lemma le_bytes_truncated: "n \<le> 4 \<Longrightarrow> le_bytes n (ucast (ucast v :: u32)) = le_bytes n v"
  by (auto simp: le_bytes_def byte_of_def intro!: bit_word_eqI simp: bit_simps)

lemma length_bytes_at [simp]: "length (bytes_at m p n) = n"
  by (simp add: bytes_at_def)

lemma add_arg_aligned:
  assumes "arg_supported (word_size a) arg"
  shows "\<exists>k < 64. add_arg m arg a = append_aligned (2 ^ k) (arg_bytes m (word_size a) arg) a \<and>
     length (arg_bytes m (word_size a) arg) \<le> 2 ^ k \<and> 2 ^ k < 2 * length (arg_bytes m (word_size a) arg)"
proof (cases "(arg_space arg, arg_kind arg) = (hal_space_global, hal_arg_value)")
  case True
  with assms have "arg_size arg \<noteq> 0" "unat (arg_size arg) \<le> 2 ^ 63"
    by (simp_all add: arg_supported_def)
  from round_up_power_2_spec [OF this] True show ?thesis
    by (auto simp: add_arg_def)
next
  case False
  then consider "arg_space arg = hal_space_global" "arg_kind arg = hal_arg_address"
    | "arg_space arg = hal_space_local" "arg_kind arg = hal_arg_address" "word_size a = 32"
    | "arg_space arg = hal_space_local" "arg_kind arg = hal_arg_address" "word_size a = 64"
    using assms by (cases "arg_space arg"; cases "arg_kind arg") (auto simp: arg_supported_def)
  then show ?thesis
    by cases (auto simp: add_arg_def le_bytes_truncated intro: exI [of _ 3] exI [of _ 2])
qed

lemma add_args_laid_out:
  assumes "\<forall>arg \<in> set args. arg_supported (word_size a) arg"
    and "length (pack a) + 3 * sum_list (map (\<lambda>arg. length (arg_bytes m (word_size a) arg)) args) < 2 ^ 64"
  shows "\<exists>rest offs. add_args m args a = Some (a\<lparr>pack := pack a @ rest\<rparr>) \<and>
     laid_out (pack a @ rest) (length (pack a)) (map (arg_bytes m (word_size a)) args) offs"
  using assms
proof (induction args arbitrary: a)
  case Nil
  then show ?case by (intro exI [of _ "[]"]) simp
next
  case (Cons arg args)
  let ?n = "length (pack a)" and ?b = "arg_bytes m (word_size a) arg"
  from Cons.prems(1) add_arg_aligned obtain k where k: "k < 64" "length ?b \<le> 2 ^ k" "2 ^ k < 2 * length ?b"
    and add: "add_arg m arg a = append_aligned (2 ^ k) ?b a" by (meson list.set_intros(1))
  let ?o = "align_up (2 ^ k) ?n"
  let ?a = "a\<lparr>pack := pack a @ replicate (?o - ?n) 0 @ ?b\<rparr>"
  have o: "?n \<le> ?o" "?o < ?n + 2 ^ k"
    using align_up_bounds [of "2 ^ k" ?n] by simp_all
  have add': "add_arg m arg a = Some ?a"
    unfolding add using Cons.prems(2) k by (intro append_aligned_spec) (simp_all del: arg_bytes.simps)
  have "\<exists>rest offs. add_args m args ?a = Some (?a\<lparr>pack := pack ?a @ rest\<rparr>) \<and>
     laid_out (pack ?a @ rest) (length (pack ?a)) (map (arg_bytes m (word_size ?a)) args) offs"
    using Cons.prems k o by (intro Cons.IH) (simp_all del: arg_bytes.simps)
  then obtain rest offs where IH: "add_args m args ?a = Some (?a\<lparr>pack := pack ?a @ rest\<rparr>)"
    "laid_out (pack ?a @ rest) (length (pack ?a)) (map (arg_bytes m (word_size ?a)) args) offs" by blast
  then show ?case
    using k o add' by (intro exI [of _ "replicate (?o - ?n) 0 @ ?b @ rest"] exI [of _ "?o # offs"])
      (auto simp del: arg_bytes.simps)
qed

section \<open>Properties\<close>

text \<open>
  C19: \<^verbatim>\<open>build\<close> succeeds for arguments of the supported kinds whose values are not empty, and packs each
  of them, byte for byte, at the next offset that is a multiple of the smallest power of two not below
  its size; nothing follows the last of them.
\<close>

theorem build_lays_out:
  assumes "\<forall>arg \<in> set args. arg_supported (word_size a) arg"
    and "3 * sum_list (map (\<lambda>arg. length (arg_bytes m (word_size a) arg)) args) < 2 ^ 64"
  shows "\<exists>bytes offs. build m args a = Some (a\<lparr>pack := bytes\<rparr>) \<and>
     laid_out bytes 0 (map (arg_bytes m (word_size a)) args) offs"
  using add_args_laid_out [of args "clear a" m] assms
  by (simp add: build_def clear_def del: arg_bytes.simps)

theorem build_lays_out_witness:
  "\<exists>bytes offs. build (\<lambda>p. ucast p)
      [\<lparr>arg_kind = hal_arg_value, arg_space = hal_space_global, arg_size = 3, arg_address = 0x40\<rparr>,
       \<lparr>arg_kind = hal_arg_address, arg_space = hal_space_local, arg_size = 0x20, arg_address = 0\<rparr>]
      \<lparr>pack = [], word_size = 32\<rparr> = Some \<lparr>pack = bytes, word_size = 32\<rparr> \<and>
     laid_out bytes 0 [[0x40, 0x41, 0x42], [0x20, 0, 0, 0]] offs"
  using build_lays_out [of "[\<lparr>arg_kind = hal_arg_value, arg_space = hal_space_global, arg_size = 3, arg_address = 0x40\<rparr>,
       \<lparr>arg_kind = hal_arg_address, arg_space = hal_space_local, arg_size = 0x20, arg_address = 0\<rparr>]"
      "\<lparr>pack = [], word_size = 32\<rparr>" "\<lambda>p. ucast p"]
  by (simp add: arg_supported_def le_bytes_def bytes_at_def byte_of_def upt_rec)

text \<open>
  A value of size 0 discards the arguments packed before it: its alignment is computed as 0, so
  that the padding is the negated size of the pack and the vector is cut to no bytes.
\<close>

lemma empty_value_discards:
  "build (\<lambda>p. ucast p)
      [\<lparr>arg_kind = hal_arg_address, arg_space = hal_space_global, arg_size = 8, arg_address = 0x40\<rparr>,
       \<lparr>arg_kind = hal_arg_value, arg_space = hal_space_global, arg_size = 0, arg_address = 0\<rparr>]
      \<lparr>pack = [], word_size = 64\<rparr> = Some \<lparr>pack = [], word_size = 64\<rparr>"
  by (simp add: build_def clear_def add_arg_def append_aligned_def calc_padding_def round_to_multiple_p2_def
      is_power_2_def expand_def write_bytes_def le_bytes_def bytes_at_def round_up_power_2_def Let_def)

end
