(* ===== verification/Cargo_Endian.thy ===== *)
theory Cargo_Endian
  imports Word_Bits
begin

unbundle bit_operations_syntax

text \<open>
  Reading and writing integers in byte order, \<^verbatim>\<open>cargo/include/cargo/endian.h\<close> and
  \<^verbatim>\<open>cargo/source/endian.cpp\<close>. The overloads for the four widths carry the width in their name; an
  iterator over bytes is an address in byte memory. The host is little-endian.
\<close>

type_synonym u16 = "16 word"

section \<open>Byte order\<close>

definition byte_swap16 :: "u16 \<Rightarrow> u16" where
  "byte_swap16 v = (drop_bit 8 v AND 0x00FF) OR (push_bit 8 v AND 0xFF00)"

definition byte_swap32 :: "u32 \<Rightarrow> u32" where
  "byte_swap32 v = (drop_bit 24 v AND 0x000000FF) OR (drop_bit 8 v AND 0x0000FF00)
     OR (push_bit 8 v AND 0x00FF0000) OR (push_bit 24 v AND 0xFF000000)"

definition byte_swap64 :: "u64 \<Rightarrow> u64" where
  "byte_swap64 v =
     (drop_bit 56 v AND 0xFF) OR (drop_bit 40 v AND push_bit 8 0xFF)
     OR (drop_bit 24 v AND push_bit 16 0xFF) OR (drop_bit 8 v AND push_bit 24 0xFF)
     OR (push_bit 8 v AND push_bit 32 0xFF) OR (push_bit 24 v AND push_bit 40 0xFF)
     OR (push_bit 40 v AND push_bit 48 0xFF) OR (push_bit 56 v AND push_bit 56 0xFF)"

section \<open>Little-endian memory\<close>

definition read_little_endian16 :: "byte_memory \<Rightarrow> ptr \<Rightarrow> u16" where
  "read_little_endian16 m p = ucast (m p) OR push_bit 8 (ucast (m (p + 1)))"

definition read_little_endian32 :: "byte_memory \<Rightarrow> ptr \<Rightarrow> u32" where
  "read_little_endian32 m p = ucast (m p) OR push_bit 8 (ucast (m (p + 1)))
     OR push_bit 16 (ucast (m (p + 2))) OR push_bit 24 (ucast (m (p + 3)))"

definition read_little_endian64 :: "byte_memory \<Rightarrow> ptr \<Rightarrow> u64" where
  "read_little_endian64 m p = ucast (m p) OR push_bit 8 (ucast (m (p + 1)))
     OR push_bit 16 (ucast (m (p + 2))) OR push_bit 24 (ucast (m (p + 3)))
     OR push_bit 32 (ucast (m (p + 4))) OR push_bit 40 (ucast (m (p + 5)))
     OR push_bit 48 (ucast (m (p + 6))) OR push_bit 56 (ucast (m (p + 7)))"

definition write_little_endian8 :: "u8 \<Rightarrow> ptr \<Rightarrow> byte_memory \<Rightarrow> byte_memory" where
  "write_little_endian8 v p m = m(p := v)"

definition write_little_endian16 :: "u16 \<Rightarrow> ptr \<Rightarrow> byte_memory \<Rightarrow> byte_memory" where
  "write_little_endian16 v p m = m(p := ucast (v AND 0xFF), p + 1 := ucast (drop_bit 8 v AND 0xFF))"

definition write_little_endian32 :: "u32 \<Rightarrow> ptr \<Rightarrow> byte_memory \<Rightarrow> byte_memory" where
  "write_little_endian32 v p m =
     m(p := ucast (v AND 0xFF), p + 1 := ucast (drop_bit 8 v AND 0xFF),
       p + 2 := ucast (drop_bit 16 v AND 0xFF), p + 3 := ucast (drop_bit 24 v AND 0xFF))"

definition write_little_endian64 :: "u64 \<Rightarrow> ptr \<Rightarrow> byte_memory \<Rightarrow> byte_memory" where
  "write_little_endian64 v p m =
     m(p := ucast (v AND 0xFF), p + 1 := ucast (drop_bit 8 v AND 0xFF),
       p + 2 := ucast (drop_bit 16 v AND 0xFF), p + 3 := ucast (drop_bit 24 v AND 0xFF),
       p + 4 := ucast (drop_bit 32 v AND 0xFF), p + 5 := ucast (drop_bit 40 v AND 0xFF),
       p + 6 := ucast (drop_bit 48 v AND 0xFF), p + 7 := ucast (drop_bit 56 v AND 0xFF))"

section \<open>Big-endian memory\<close>

definition read_big_endian32 :: "byte_memory \<Rightarrow> ptr \<Rightarrow> u32" where
  "read_big_endian32 m p = byte_swap32 (read_little_endian32 m p)"

definition write_big_endian32 :: "u32 \<Rightarrow> ptr \<Rightarrow> byte_memory \<Rightarrow> byte_memory" where
  "write_big_endian32 v p m = write_little_endian32 (byte_swap32 v) p m"

section \<open>Round trips\<close>

lemma bit_0xFF: "bit (0xFF :: 'a :: len word) n \<longleftrightarrow> n < 8 \<and> n < LENGTH('a)"
proof -
  have "(0xFF :: 'a word) = mask 8"
    by (simp add: mask_eq_exp_minus_1)
  then show ?thesis
    by (simp only: bit_mask_iff possible_bit_word) blast
qed

text \<open>Byte \<open>k\<close> of a word, as it is stored and as it is read back.\<close>

lemma bit_stored_byte:
  "bit (push_bit k (ucast (ucast (drop_bit k v AND 0xFF) :: u8)) :: 'a :: len word) n \<longleftrightarrow>
     k \<le> n \<and> n < k + 8 \<and> n < LENGTH('a) \<and> bit (v :: 'a word) n"
  unfolding bit_push_bit_iff bit_unsigned_iff bit_and_iff bit_drop_bit_eq bit_0xFF possible_bit_word
  by auto

lemma bit_stored_byte_0:
  "bit (ucast (ucast (v AND 0xFF) :: u8) :: 'a :: len word) n \<longleftrightarrow> n < 8 \<and> bit (v :: 'a word) n"
  using bit_stored_byte [of 0 v n] by (auto dest: bit_imp_le_length)

lemma ptr_offsets:
  fixes p a b :: ptr
  shows "p + a = p \<longleftrightarrow> a = 0" "p = p + a \<longleftrightarrow> a = 0" "p + a = p + b \<longleftrightarrow> a = b"
  by auto

lemmas endian_defs = read_little_endian16_def read_little_endian32_def read_little_endian64_def
  write_little_endian8_def write_little_endian16_def write_little_endian32_def write_little_endian64_def

lemma read_write_little_endian:
  "read_little_endian16 (write_little_endian16 v16 p m) p = v16"
  "read_little_endian32 (write_little_endian32 v32 p m) p = v32"
  "read_little_endian64 (write_little_endian64 v64 p m) p = v64"
proof -
  show "read_little_endian16 (write_little_endian16 v16 p m) p = v16"
    by (rule bit_word_eqI) (auto simp: endian_defs ptr_offsets bit_or_iff bit_stored_byte bit_stored_byte_0)
  show "read_little_endian32 (write_little_endian32 v32 p m) p = v32"
    by (rule bit_word_eqI) (auto simp: endian_defs ptr_offsets bit_or_iff bit_stored_byte bit_stored_byte_0)
  show "read_little_endian64 (write_little_endian64 v64 p m) p = v64"
    by (rule bit_word_eqI) (auto simp: endian_defs ptr_offsets bit_or_iff bit_stored_byte bit_stored_byte_0)
qed

text \<open>Bytes outside of the written range are kept.\<close>

lemma write_little_endian_outside:
  "1 \<le> unat (a - p) \<Longrightarrow> write_little_endian8 v8 p m a = m a"
  "2 \<le> unat (a - p) \<Longrightarrow> write_little_endian16 v16 p m a = m a"
  "4 \<le> unat (a - p) \<Longrightarrow> write_little_endian32 v32 p m a = m a"
  "8 \<le> unat (a - p) \<Longrightarrow> write_little_endian64 v64 p m a = m a"
  by (auto simp: endian_defs)

text \<open>Swapping the bytes of a value moves byte \<open>j\<close> to the mirrored place.\<close>

lemma swap_masks:
  "(0x00FF :: u16) = mask 8" "(0xFF00 :: u16) = push_bit 8 (mask 8)"
  "(0x000000FF :: u32) = mask 8" "(0x0000FF00 :: u32) = push_bit 8 (mask 8)"
  "(0x00FF0000 :: u32) = push_bit 16 (mask 8)" "(0xFF000000 :: u32) = push_bit 24 (mask 8)"
  "(0xFF :: u64) = mask 8"
  by (simp_all add: mask_eq_exp_minus_1)

lemma bit_swap_part:
  "bit (drop_bit a v AND push_bit b (mask 8) :: 'a :: len word) n \<longleftrightarrow>
     b \<le> n \<and> n < b + 8 \<and> n < LENGTH('a) \<and> bit v (n + a)"
  "bit (push_bit a v AND push_bit b (mask 8) :: 'a :: len word) n \<longleftrightarrow>
     b \<le> n \<and> n < b + 8 \<and> n < LENGTH('a) \<and> a \<le> n \<and> bit v (n - a)"
  "bit (drop_bit a v AND mask 8 :: 'a :: len word) n \<longleftrightarrow> n < 8 \<and> n < LENGTH('a) \<and> bit v (n + a)"
  unfolding bit_push_bit_iff bit_and_iff bit_drop_bit_eq bit_mask_iff possible_bit_word
  by (auto simp: add.commute)

lemma bit_byte_swap16:
  assumes "n < 16"
  shows "bit (byte_swap16 v) n \<longleftrightarrow> bit v (8 * (1 - n div 8) + n mod 8)"
proof -
  have "n = 8 * (n div 8) + n mod 8" "n mod 8 < 8" "n div 8 < 2"
    using assms by simp_all
  then obtain j r where n: "n = 8 * j + r" "r < 8" "j < 2" "n div 8 = j" "n mod 8 = r" by blast
  then consider "j = 0" | "j = 1" by linarith
  then show ?thesis
    unfolding byte_swap16_def swap_masks bit_or_iff bit_swap_part n(4,5)
    by cases (use n(1,2) in \<open>auto simp: add.commute\<close>)
qed

lemma bit_byte_swap32:
  assumes "n < 32"
  shows "bit (byte_swap32 v) n \<longleftrightarrow> bit v (8 * (3 - n div 8) + n mod 8)"
proof -
  have "n = 8 * (n div 8) + n mod 8" "n mod 8 < 8" "n div 8 < 4"
    using assms by simp_all
  then obtain j r where n: "n = 8 * j + r" "r < 8" "j < 4" "n div 8 = j" "n mod 8 = r" by blast
  then consider "j = 0" | "j = 1" | "j = 2" | "j = 3" by linarith
  then show ?thesis
    unfolding byte_swap32_def swap_masks bit_or_iff bit_swap_part n(4,5)
    by cases (use n(1,2) in \<open>auto simp: add.commute\<close>)
qed

lemma bit_byte_swap64:
  assumes "n < 64"
  shows "bit (byte_swap64 v) n \<longleftrightarrow> bit v (8 * (7 - n div 8) + n mod 8)"
proof -
  have "n = 8 * (n div 8) + n mod 8" "n mod 8 < 8" "n div 8 < 8"
    using assms by simp_all
  then obtain j r where n: "n = 8 * j + r" "r < 8" "j < 8" "n div 8 = j" "n mod 8 = r" by blast
  then consider "j = 0" | "j = 1" | "j = 2" | "j = 3" | "j = 4" | "j = 5" | "j = 6" | "j = 7"
    by (atomize_elim) presburger
  then show ?thesis
    unfolding byte_swap64_def swap_masks bit_or_iff bit_swap_part n(4,5)
    by cases (use n(1,2) in \<open>auto simp: add.commute\<close>)
qed

lemma byte_swap_involution:
  "byte_swap16 (byte_swap16 v16) = v16" "byte_swap32 (byte_swap32 v32) = v32"
  "byte_swap64 (byte_swap64 v64) = v64"
proof -
  show "byte_swap16 (byte_swap16 v16) = v16"
    by (rule bit_word_eqI) (simp add: bit_byte_swap16)
  show "byte_swap32 (byte_swap32 v32) = v32"
    by (rule bit_word_eqI) (simp add: bit_byte_swap32)
  show "byte_swap64 (byte_swap64 v64) = v64"
    by (rule bit_word_eqI) (simp add: bit_byte_swap64)
qed

end
