(* ===== verification/Loader_Elf.thy ===== *)
theory Loader_Elf
  imports Cargo_Endian
begin

unbundle bit_operations_syntax

text \<open>
  The view of an ELF file that the loader has, \<^verbatim>\<open>loader/include/loader/elf.h\<close> and
  \<^verbatim>\<open>loader/source/elf.cpp\<close>. The file is in memory and its structures are read through pointers:
  a \<^verbatim>\<open>Section\<close> is the address of its header and a \<^verbatim>\<open>Symbol\<close> the address of its entry. Reads are not
  checked against the size of the file, as in the code. The offsets of the members are those of the
  structures on the host; the host is little-endian. Names have fewer than \<open>n\<close> characters; \<^term>\<open>None\<close> is
  a longer name or a failed assertion. The vectors of a map are lists.
\<close>

section \<open>Files\<close>

record ElfFile =
  elf_begin :: ptr
  elf_size :: u64
  symbol_section :: "ptr option"

definition is32Bit :: "byte_memory \<Rightarrow> ElfFile \<Rightarrow> bool" where
  "is32Bit m f \<longleftrightarrow> m (elf_begin f + 4) = 1"

definition file_is_little :: "byte_memory \<Rightarrow> ElfFile \<Rightarrow> bool" where
  "file_is_little m f \<longleftrightarrow> m (elf_begin f + 5) = 1"

definition field16 :: "byte_memory \<Rightarrow> ElfFile \<Rightarrow> u16 \<Rightarrow> u16" where
  "field16 m f v = (if file_is_little m f then v else byte_swap16 v)"

definition field32 :: "byte_memory \<Rightarrow> ElfFile \<Rightarrow> u32 \<Rightarrow> u32" where
  "field32 m f v = (if file_is_little m f then v else byte_swap32 v)"

definition field64 :: "byte_memory \<Rightarrow> ElfFile \<Rightarrow> u64 \<Rightarrow> u64" where
  "field64 m f v = (if file_is_little m f then v else byte_swap64 v)"

text \<open>A member of a structure at \<open>p\<close>, at its offset in the 32-bit and in the 64-bit format.\<close>

definition member16 :: "byte_memory \<Rightarrow> ElfFile \<Rightarrow> ptr \<Rightarrow> ptr \<Rightarrow> ptr \<Rightarrow> u16" where
  "member16 m f p off32 off64 =
     field16 m f (read_little_endian16 m (p + (if is32Bit m f then off32 else off64)))"

definition member32 :: "byte_memory \<Rightarrow> ElfFile \<Rightarrow> ptr \<Rightarrow> ptr \<Rightarrow> ptr \<Rightarrow> u32" where
  "member32 m f p off32 off64 =
     field32 m f (read_little_endian32 m (p + (if is32Bit m f then off32 else off64)))"

text \<open>A member of the type \<^verbatim>\<open>addr_t\<close>, which has the width of the format.\<close>

definition member_addr :: "byte_memory \<Rightarrow> ElfFile \<Rightarrow> ptr \<Rightarrow> ptr \<Rightarrow> ptr \<Rightarrow> u64" where
  "member_addr m f p off32 off64 =
     (if is32Bit m f then ucast (field32 m f (read_little_endian32 m (p + off32)))
      else field64 m f (read_little_endian64 m (p + off64)))"

definition elf_machine :: "byte_memory \<Rightarrow> ElfFile \<Rightarrow> u16" where
  "elf_machine m f = member16 m f (elf_begin f) 18 18"

abbreviation (input) Machine_X86 :: u16 where "Machine_X86 \<equiv> 0x03"
abbreviation (input) Machine_ARM :: u16 where "Machine_ARM \<equiv> 0x28"
abbreviation (input) Machine_X86_64 :: u16 where "Machine_X86_64 \<equiv> 0x3E"
abbreviation (input) Machine_AARCH64 :: u16 where "Machine_AARCH64 \<equiv> 0xB7"

text \<open>\<^verbatim>\<open>isValidElf\<close>; \<^verbatim>\<open>sizeof(Header32)\<close> is 52.\<close>

definition isValidElf :: "byte_memory \<Rightarrow> ptr \<Rightarrow> u64 \<Rightarrow> bool" where
  "isValidElf m p sz \<longleftrightarrow> p AND 7 = 0 \<and> 52 \<le> sz \<and>
     m p = 0x7F \<and> m (p + 1) = 0x45 \<and> m (p + 2) = 0x4C \<and> m (p + 3) = 0x46"

text \<open>The number of sections is read without the conversion of the byte order.\<close>

definition sectionCount :: "byte_memory \<Rightarrow> ElfFile \<Rightarrow> nat" where
  "sectionCount m f =
     unat (read_little_endian16 m (elf_begin f + (if is32Bit m f then 48 else 60)))"

definition elf_section :: "byte_memory \<Rightarrow> ElfFile \<Rightarrow> u64 \<Rightarrow> ptr" where
  "elf_section m f index =
     elf_begin f + member_addr m f (elf_begin f) 32 40
       + index * ucast (member16 m f (elf_begin f) 46 58)"

section \<open>Sections\<close>

definition section_type :: "byte_memory \<Rightarrow> ElfFile \<Rightarrow> ptr \<Rightarrow> u32" where
  "section_type m f sh = member32 m f sh 4 4"

definition section_flags :: "byte_memory \<Rightarrow> ElfFile \<Rightarrow> ptr \<Rightarrow> u32" where
  "section_flags m f sh = member32 m f sh 8 8"

definition section_file_offset :: "byte_memory \<Rightarrow> ElfFile \<Rightarrow> ptr \<Rightarrow> u64" where
  "section_file_offset m f sh = member_addr m f sh 16 24"

definition section_size :: "byte_memory \<Rightarrow> ElfFile \<Rightarrow> ptr \<Rightarrow> u64" where
  "section_size m f sh = member_addr m f sh 20 32"

definition section_entrySize :: "byte_memory \<Rightarrow> ElfFile \<Rightarrow> ptr \<Rightarrow> u64" where
  "section_entrySize m f sh = member_addr m f sh 36 56"

abbreviation (input) SectionType_RELA :: u32 where "SectionType_RELA \<equiv> 4"
abbreviation (input) SectionType_NOBITS :: u32 where "SectionType_NOBITS \<equiv> 8"
abbreviation (input) SectionType_REL :: u32 where "SectionType_REL \<equiv> 9"

definition section_index :: "byte_memory \<Rightarrow> ElfFile \<Rightarrow> ptr \<Rightarrow> u32" where
  "section_index m f sh =
     ucast ((sh - elf_section m f 0) div ucast (member16 m f (elf_begin f) 46 58))"

definition section_sizeToAlloc :: "byte_memory \<Rightarrow> ElfFile \<Rightarrow> ptr \<Rightarrow> u64" where
  "section_sizeToAlloc m f sh =
     (if elf_machine m f = Machine_X86 \<or> elf_machine m f = Machine_X86_64 then section_size m f sh
      else section_size m f sh + 2048)"

text \<open>\<^verbatim>\<open>data\<close>: the first byte and the number of bytes.\<close>

definition section_data :: "byte_memory \<Rightarrow> ElfFile \<Rightarrow> ptr \<Rightarrow> (ptr \<times> u64) option" where
  "section_data m f sh =
     (if section_type m f sh = SectionType_NOBITS then None
      else Some (elf_begin f + section_file_offset m f sh, section_size m f sh))"

definition section_name :: "nat \<Rightarrow> byte_memory \<Rightarrow> ElfFile \<Rightarrow> ptr \<Rightarrow> string option" where
  "section_name n m f sh =
     (let names = elf_section m f (ucast (member16 m f (elf_begin f) 50 62))
      in c_string_at n m
           (elf_begin f + section_file_offset m f names + ucast (member32 m f sh 0 0)))"

text \<open>\<^verbatim>\<open>section(name)\<close>: the first section with the name.\<close>

fun find_section :: "nat \<Rightarrow> byte_memory \<Rightarrow> ElfFile \<Rightarrow> string \<Rightarrow> nat list \<Rightarrow> ptr option option" where
  "find_section n m f name [] = Some None"
| "find_section n m f name (i # is) =
     (case section_name n m f (elf_section m f (of_nat i)) of
        None \<Rightarrow> None
      | Some s \<Rightarrow>
          if name = s then Some (Some (elf_section m f (of_nat i)))
          else find_section n m f name is)"

definition elf_section_named :: "nat \<Rightarrow> byte_memory \<Rightarrow> ElfFile \<Rightarrow> string \<Rightarrow> ptr option option" where
  "elf_section_named n m f name = find_section n m f name [0..<sectionCount m f]"

definition ElfFile_construct :: "nat \<Rightarrow> byte_memory \<Rightarrow> ptr \<Rightarrow> u64 \<Rightarrow> ElfFile option" where
  "ElfFile_construct n m p sz =
     (if p AND 7 = 0
      then let f = \<lparr>elf_begin = p, elf_size = sz, symbol_section = None\<rparr>
           in case elf_section_named n m f ''.symtab'' of
                None \<Rightarrow> None
              | Some sh \<Rightarrow> Some (f\<lparr>symbol_section := sh\<rparr>)
      else Some \<lparr>elf_begin = 0, elf_size = 0, symbol_section = None\<rparr>)"

section \<open>Symbols\<close>

text \<open>An entry size of 0 in the symbol table is a division by zero.\<close>

definition symbolCount :: "byte_memory \<Rightarrow> ElfFile \<Rightarrow> u64 option" where
  "symbolCount m f =
     (case symbol_section f of None \<Rightarrow> Some 0
      | Some sh \<Rightarrow>
          if section_entrySize m f sh = 0 then None
          else Some (section_size m f sh div section_entrySize m f sh))"

definition elf_symbol :: "byte_memory \<Rightarrow> ElfFile \<Rightarrow> u64 \<Rightarrow> ptr option" where
  "elf_symbol m f index =
     (case symbolCount m f of None \<Rightarrow> None
      | Some cnt \<Rightarrow>
          if \<not> index < cnt then None
          else case symbol_section f of None \<Rightarrow> None
            | Some sh \<Rightarrow>
                (case section_data m f sh of None \<Rightarrow> None
                 | Some (p, _) \<Rightarrow> Some (p + section_entrySize m f sh * index)))"

definition symbol_name :: "nat \<Rightarrow> byte_memory \<Rightarrow> ElfFile \<Rightarrow> ptr \<Rightarrow> string option option" where
  "symbol_name n m f entry =
     (case elf_section_named n m f ''.strtab'' of
        None \<Rightarrow> None
      | Some None \<Rightarrow> Some None
      | Some (Some sh) \<Rightarrow>
          if member32 m f entry 0 0 = 0 then Some None
          else map_option Some (c_string_at n m
                 (elf_begin f + section_file_offset m f sh + ucast (member32 m f entry 0 0))))"

definition symbol_sectionIndex :: "byte_memory \<Rightarrow> ElfFile \<Rightarrow> ptr \<Rightarrow> u16" where
  "symbol_sectionIndex m f entry = member16 m f entry 14 6"

definition symbol_value :: "byte_memory \<Rightarrow> ElfFile \<Rightarrow> ptr \<Rightarrow> u64" where
  "symbol_value m f entry = member_addr m f entry 4 8"

abbreviation (input) SymbolSpecialSection_ABSOLUTE :: u16 where "SymbolSpecialSection_ABSOLUTE \<equiv> 0xFFF1"

definition isSpecial :: "u16 \<Rightarrow> bool" where
  "isSpecial sidx \<longleftrightarrow> sidx = 0 \<or> 0xFF00 \<le> sidx"

text \<open>\<^verbatim>\<open>symbol(name)\<close>: the first symbol with the name.\<close>

fun find_symbol :: "nat \<Rightarrow> byte_memory \<Rightarrow> ElfFile \<Rightarrow> string \<Rightarrow> nat list \<Rightarrow> ptr option option" where
  "find_symbol n m f name [] = Some None"
| "find_symbol n m f name (i # is) =
     (case elf_symbol m f (of_nat i) of None \<Rightarrow> None
      | Some entry \<Rightarrow>
         (case symbol_name n m f entry of None \<Rightarrow> None
          | Some s \<Rightarrow> if s = Some name then Some (Some entry) else find_symbol n m f name is))"

definition elf_symbol_named :: "nat \<Rightarrow> byte_memory \<Rightarrow> ElfFile \<Rightarrow> string \<Rightarrow> ptr option option" where
  "elf_symbol_named n m f name =
     (case symbolCount m f of None \<Rightarrow> None
      | Some cnt \<Rightarrow> find_symbol n m f name [0..<unat cnt])"

section \<open>Maps\<close>

record Mapping =
  map_section_index :: u32
  writable_address :: ptr
  stub_address :: ptr
  writable_end :: ptr
  target_address :: u64

record ElfMap =
  map_file :: ElfFile
  sectionMappings :: "Mapping list"
  callbacks :: "(string \<times> u64) list"

definition addSectionMapping ::
  "byte_memory \<Rightarrow> ptr \<Rightarrow> ptr \<Rightarrow> ptr \<Rightarrow> u64 \<Rightarrow> ElfMap \<Rightarrow> ElfMap" where
  "addSectionMapping m sh writable wend target emap =
     emap\<lparr>sectionMappings := sectionMappings emap @
       [\<lparr>map_section_index = section_index m (map_file emap) sh, writable_address = writable,
         stub_address = writable + section_size m (map_file emap) sh, writable_end = wend,
         target_address = target\<rparr>]\<rparr>"

definition addCallback :: "string \<Rightarrow> u64 \<Rightarrow> ElfMap \<Rightarrow> ElfMap" where
  "addCallback name target emap = emap\<lparr>callbacks := callbacks emap @ [(name, target)]\<rparr>"

text \<open>The \<^verbatim>\<open>std::find_if\<close> that the accessors of a mapping begin with.\<close>

definition find_mapping :: "u32 \<Rightarrow> ElfMap \<Rightarrow> Mapping option" where
  "find_mapping index emap = find (\<lambda>mp. map_section_index mp = index) (sectionMappings emap)"

definition getSectionTargetAddress :: "u32 \<Rightarrow> ElfMap \<Rightarrow> u64 option" where
  "getSectionTargetAddress index emap = map_option target_address (find_mapping index emap)"

definition getSectionWritableAddress :: "u32 \<Rightarrow> ElfMap \<Rightarrow> ptr option" where
  "getSectionWritableAddress index emap = map_option writable_address (find_mapping index emap)"

definition getRemainingStubSpace :: "u32 \<Rightarrow> ElfMap \<Rightarrow> (ptr \<times> ptr) option" where
  "getRemainingStubSpace index emap =
     map_option (\<lambda>mp. (stub_address mp, writable_end mp)) (find_mapping index emap)"

definition getStubTargetAddress :: "u32 \<Rightarrow> ElfMap \<Rightarrow> u64 option" where
  "getStubTargetAddress index emap =
     map_option (\<lambda>mp. target_address mp + (stub_address mp - writable_address mp)) (find_mapping index emap)"

fun shrink_first :: "u32 \<Rightarrow> u64 \<Rightarrow> Mapping list \<Rightarrow> Mapping list" where
  "shrink_first index bytes [] = []"
| "shrink_first index bytes (mp # mps) =
     (if map_section_index mp = index then mp\<lparr>stub_address := stub_address mp + bytes\<rparr> # mps
      else mp # shrink_first index bytes mps)"

definition shrinkRemainingStubSpace :: "u32 \<Rightarrow> u64 \<Rightarrow> ElfMap \<Rightarrow> ElfMap" where
  "shrinkRemainingStubSpace index bytes emap =
     emap\<lparr>sectionMappings := shrink_first index bytes (sectionMappings emap)\<rparr>"

text \<open>
  The address of a symbol: the callback with its name, its value for an absolute symbol, nothing for
  the other special sections, and otherwise its place in its mapped section.
\<close>

definition symbol_target :: "byte_memory \<Rightarrow> ElfMap \<Rightarrow> ptr \<Rightarrow> u64 option" where
  "symbol_target m emap entry =
     (let f = map_file emap; sidx = symbol_sectionIndex m f entry
      in if sidx = SymbolSpecialSection_ABSOLUTE then Some (symbol_value m f entry)
         else if isSpecial sidx then None
         else map_option (\<lambda>sa. sa + symbol_value m f entry) (getSectionTargetAddress (ucast sidx) emap))"

definition getSymbolTargetAddress :: "nat \<Rightarrow> byte_memory \<Rightarrow> u32 \<Rightarrow> ElfMap \<Rightarrow> u64 option option" where
  "getSymbolTargetAddress n m index emap =
     (case elf_symbol m (map_file emap) (ucast index) of None \<Rightarrow> None
      | Some entry \<Rightarrow>
         (case symbol_name n m (map_file emap) entry of None \<Rightarrow> None
          | Some name \<Rightarrow>
             (case find (\<lambda>c. Some (fst c) = name) (callbacks emap) of
                Some c \<Rightarrow> Some (Some (snd c))
              | None \<Rightarrow> Some (symbol_target m emap entry))))"

definition getSymbolTargetAddress_named ::
  "nat \<Rightarrow> byte_memory \<Rightarrow> string \<Rightarrow> ElfMap \<Rightarrow> u64 option option" where
  "getSymbolTargetAddress_named n m name emap =
     (case find (\<lambda>c. fst c = name) (callbacks emap) of
        Some c \<Rightarrow> Some (Some (snd c))
      | None \<Rightarrow>
         (case elf_symbol_named n m (map_file emap) name of None \<Rightarrow> None
          | Some None \<Rightarrow> Some None
          | Some (Some entry) \<Rightarrow> Some (symbol_target m emap entry)))"

end
