(* ===== verification/Loader_Relocations.thy ===== *)
theory Loader_Relocations
  imports Loader_Elf
begin

unbundle bit_operations_syntax

text \<open>
  Resolving the relocations of a loaded ELF file, \<^verbatim>\<open>loader/source/relocations.cpp\<close>: the relocations of
  x86, x86-64, Arm and AArch64, the stubs of far branches, and the pass over the relocation sections.
  A relocation changes byte memory and, when it creates a stub, the map of sections; \<^term>\<open>None\<close> is a failed
  assertion, and the \<^typ>\<open>bool\<close> is the result of the code. Messages to \<^verbatim>\<open>stderr\<close> are not modelled.
\<close>

section \<open>Relocation types\<close>

abbreviation (input) R_386_NONE :: u32 where "R_386_NONE \<equiv> 0"
abbreviation (input) R_386_32 :: u32 where "R_386_32 \<equiv> 1"
abbreviation (input) R_386_PC32 :: u32 where "R_386_PC32 \<equiv> 2"
abbreviation (input) R_386_PC16 :: u32 where "R_386_PC16 \<equiv> 21"
abbreviation (input) R_386_PC8 :: u32 where "R_386_PC8 \<equiv> 23"
abbreviation (input) R_X86_64_NONE :: u32 where "R_X86_64_NONE \<equiv> 0"
abbreviation (input) R_X86_64_64 :: u32 where "R_X86_64_64 \<equiv> 1"
abbreviation (input) R_X86_64_PC32 :: u32 where "R_X86_64_PC32 \<equiv> 2"
abbreviation (input) R_X86_64_32 :: u32 where "R_X86_64_32 \<equiv> 10"
abbreviation (input) R_X86_64_32S :: u32 where "R_X86_64_32S \<equiv> 11"
abbreviation (input) R_X86_64_PC16 :: u32 where "R_X86_64_PC16 \<equiv> 13"
abbreviation (input) R_X86_64_PC8 :: u32 where "R_X86_64_PC8 \<equiv> 15"
abbreviation (input) R_X86_64_PC64 :: u32 where "R_X86_64_PC64 \<equiv> 24"
abbreviation (input) R_ARM_NONE :: u32 where "R_ARM_NONE \<equiv> 0x00"
abbreviation (input) R_ARM_PC24 :: u32 where "R_ARM_PC24 \<equiv> 0x01"
abbreviation (input) R_ARM_ABS32 :: u32 where "R_ARM_ABS32 \<equiv> 0x02"
abbreviation (input) R_ARM_CALL :: u32 where "R_ARM_CALL \<equiv> 0x1c"
abbreviation (input) R_ARM_JUMP24 :: u32 where "R_ARM_JUMP24 \<equiv> 0x1d"
abbreviation (input) R_ARM_TARGET1 :: u32 where "R_ARM_TARGET1 \<equiv> 0x26"
abbreviation (input) R_ARM_PREL31 :: u32 where "R_ARM_PREL31 \<equiv> 0x2a"
abbreviation (input) R_ARM_MOVW_ABS_NC :: u32 where "R_ARM_MOVW_ABS_NC \<equiv> 0x2b"
abbreviation (input) R_ARM_MOVT_ABS :: u32 where "R_ARM_MOVT_ABS \<equiv> 0x2c"
abbreviation (input) R_AARCH64_NONE :: u32 where "R_AARCH64_NONE \<equiv> 0"
abbreviation (input) R_AARCH64_ABS64 :: u32 where "R_AARCH64_ABS64 \<equiv> 0x101"
abbreviation (input) R_AARCH64_ABS32 :: u32 where "R_AARCH64_ABS32 \<equiv> 0x102"
abbreviation (input) R_AARCH64_ABS16 :: u32 where "R_AARCH64_ABS16 \<equiv> 0x103"
abbreviation (input) R_AARCH64_PREL64 :: u32 where "R_AARCH64_PREL64 \<equiv> 0x104"
abbreviation (input) R_AARCH64_PREL32 :: u32 where "R_AARCH64_PREL32 \<equiv> 0x105"
abbreviation (input) R_AARCH64_PREL16 :: u32 where "R_AARCH64_PREL16 \<equiv> 0x106"
abbreviation (input) R_AARCH64_MOVW_UABS_G0_NC :: u32 where "R_AARCH64_MOVW_UABS_G0_NC \<equiv> 0x108"
abbreviation (input) R_AARCH64_MOVW_UABS_G1_NC :: u32 where "R_AARCH64_MOVW_UABS_G1_NC \<equiv> 0x10a"
abbreviation (input) R_AARCH64_MOVW_UABS_G2_NC :: u32 where "R_AARCH64_MOVW_UABS_G2_NC \<equiv> 0x10c"
abbreviation (input) R_AARCH64_MOVW_UABS_G3 :: u32 where "R_AARCH64_MOVW_UABS_G3 \<equiv> 0x10d"
abbreviation (input) R_AARCH64_ADR_PREL_PG_HI21 :: u32 where "R_AARCH64_ADR_PREL_PG_HI21 \<equiv> 0x113"
abbreviation (input) R_AARCH64_ADD_ABS_LO12_NC :: u32 where "R_AARCH64_ADD_ABS_LO12_NC \<equiv> 0x115"
abbreviation (input) R_AARCH64_LDST8_ABS_LO12_NC :: u32 where "R_AARCH64_LDST8_ABS_LO12_NC \<equiv> 0x116"
abbreviation (input) R_AARCH64_JUMP26 :: u32 where "R_AARCH64_JUMP26 \<equiv> 0x11a"
abbreviation (input) R_AARCH64_CALL26 :: u32 where "R_AARCH64_CALL26 \<equiv> 0x11b"
abbreviation (input) R_AARCH64_LDST16_ABS_LO12_NC :: u32 where "R_AARCH64_LDST16_ABS_LO12_NC \<equiv> 0x11c"
abbreviation (input) R_AARCH64_LDST32_ABS_LO12_NC :: u32 where "R_AARCH64_LDST32_ABS_LO12_NC \<equiv> 0x11d"
abbreviation (input) R_AARCH64_LDST64_ABS_LO12_NC :: u32 where "R_AARCH64_LDST64_ABS_LO12_NC \<equiv> 0x11e"
abbreviation (input) R_AARCH64_LDST128_ABS_LO12_NC :: u32 where "R_AARCH64_LDST128_ABS_LO12_NC \<equiv> 0x12b"

section \<open>Relocations\<close>

record Relocation =
  rel_type :: u32
  rel_symbol_index :: u32
  rel_offset :: u64
  rel_addend :: u64
  rel_section_index :: u32

text \<open>The entries of a \<^verbatim>\<open>StubMap\<close>: a value and the address of the stub that jumps to it.\<close>

type_synonym StubMap = "(u64 \<times> u64) list"

definition getTarget :: "u64 \<Rightarrow> StubMap \<Rightarrow> u64 option" where
  "getTarget v stubs = map_option snd (find (\<lambda>e. fst e = v) stubs)"

definition getBitRange :: "'a :: len word \<Rightarrow> nat \<Rightarrow> nat \<Rightarrow> 'a word" where
  "getBitRange v first sz = drop_bit first v AND mask sz"

definition setBitRange :: "u32 \<Rightarrow> u32 \<Rightarrow> nat \<Rightarrow> nat \<Rightarrow> u32" where
  "setBitRange v subvalue first sz =
     (let msk = push_bit first (mask sz) in (v AND NOT msk) OR (push_bit first subvalue AND msk))"

text \<open>
  The beginning of every resolve function: the address of the symbol with the addend, the base of the
  relocated section, and where its bytes can be written. \<^term>\<open>Some None\<close> when one of them is missing.
\<close>

definition reloc_places ::
  "nat \<Rightarrow> byte_memory \<Rightarrow> Relocation \<Rightarrow> ElfMap \<Rightarrow> (u64 \<times> u64 \<times> ptr) option option" where
  "reloc_places n m r emap =
     (case getSymbolTargetAddress n m (rel_symbol_index r) emap of None \<Rightarrow> None
      | Some symbol \<Rightarrow>
          let symbol_target_address = (case symbol of None \<Rightarrow> 0 | Some a \<Rightarrow> a);
              base = (case getSectionTargetAddress (rel_section_index r) emap of None \<Rightarrow> 0 | Some a \<Rightarrow> a);
              begin = (case getSectionWritableAddress (rel_section_index r) emap of None \<Rightarrow> 0 | Some a \<Rightarrow> a)
          in if symbol_target_address = 0 \<or> base = 0 \<or> begin = 0 then Some None
             else Some (Some (symbol_target_address + rel_addend r, base, begin)))"

section \<open>x86\<close>

definition apply_X86_64 :: "u32 \<Rightarrow> u64 \<Rightarrow> u64 \<Rightarrow> ptr \<Rightarrow> byte_memory \<Rightarrow> (bool \<times> byte_memory) option" where
  "apply_X86_64 ty symbol_target_address pc relocation_address m =
     (if ty = R_X86_64_NONE then Some (True, m)
      else if ty = R_X86_64_64
      then Some (True, write_little_endian64 symbol_target_address relocation_address m)
      else if ty = R_X86_64_PC64
      then Some (True, write_little_endian64 (symbol_target_address - pc) relocation_address m)
      else if ty = R_X86_64_32
      then let trunc = (ucast symbol_target_address :: u32)
           in if symbol_target_address \<noteq> ucast trunc then Some (False, m)
              else Some (True, write_little_endian32 trunc relocation_address m)
      else if ty = R_X86_64_32S
      then let trunc = (ucast symbol_target_address :: u32)
           in if sint symbol_target_address \<noteq> sint trunc then Some (False, m)
              else Some (True, write_little_endian32 trunc relocation_address m)
      else if ty = R_X86_64_PC32
      then let trunc = (ucast (symbol_target_address - pc) :: u32)
           in if sint (symbol_target_address - pc) \<noteq> sint trunc then Some (False, m)
              else Some (True, write_little_endian32 trunc relocation_address m)
      else if ty = R_X86_64_PC16
      then let trunc = (ucast (symbol_target_address - pc) :: u16)
           in if sint (symbol_target_address - pc) \<noteq> sint trunc then Some (False, m)
              else Some (True, write_little_endian16 trunc relocation_address m)
      else if ty = R_X86_64_PC8
      then let trunc = (ucast (symbol_target_address - pc) :: u8)
           in if sint (symbol_target_address - pc) \<noteq> sint trunc then Some (False, m)
              else Some (True, write_little_endian8 trunc relocation_address m)
      else None)"

text \<open>The offset of a relocation is cut to 32 bits.\<close>

definition resolveX86_64 ::
  "nat \<Rightarrow> Relocation \<Rightarrow> ElfMap \<Rightarrow> byte_memory \<Rightarrow> (bool \<times> byte_memory) option" where
  "resolveX86_64 n r emap m =
     (let relocation_offset = rel_offset r AND 0xFFFFFFFF
      in case reloc_places n m r emap of None \<Rightarrow> None
         | Some None \<Rightarrow> Some (False, m)
         | Some (Some (symbol_target_address, base, begin)) \<Rightarrow>
             apply_X86_64 (rel_type r) symbol_target_address (base + relocation_offset)
               (begin + relocation_offset) m)"

text \<open>The same places for the 32-bit machines, on which addresses and addends are cut to 32 bits.\<close>

definition reloc_places32 ::
  "nat \<Rightarrow> byte_memory \<Rightarrow> Relocation \<Rightarrow> ElfMap \<Rightarrow> (u32 \<times> u32 \<times> ptr) option option" where
  "reloc_places32 n m r emap =
     (case getSymbolTargetAddress n m (rel_symbol_index r) emap of None \<Rightarrow> None
      | Some symbol \<Rightarrow>
          let symbol_target_address = (ucast (case symbol of None \<Rightarrow> 0 | Some a \<Rightarrow> a) :: u32);
              base = (ucast (case getSectionTargetAddress (rel_section_index r) emap of
                               None \<Rightarrow> 0 | Some a \<Rightarrow> a) :: u32);
              begin = (case getSectionWritableAddress (rel_section_index r) emap of None \<Rightarrow> 0 | Some a \<Rightarrow> a)
          in if symbol_target_address = 0 \<or> base = 0 \<or> begin = 0 then Some None
             else Some (Some (symbol_target_address + ucast (rel_addend r), base, begin)))"

definition apply_X86_32 :: "u32 \<Rightarrow> u32 \<Rightarrow> u32 \<Rightarrow> ptr \<Rightarrow> byte_memory \<Rightarrow> (bool \<times> byte_memory) option" where
  "apply_X86_32 ty symbol_target_address pc relocation_address m =
     (if ty = R_386_NONE then Some (True, m)
      else if ty = R_386_32
      then Some (True, write_little_endian32
             (symbol_target_address + read_little_endian32 m relocation_address) relocation_address m)
      else if ty = R_386_PC32
      then Some (True, write_little_endian32
             (symbol_target_address - pc + scast (m relocation_address)) relocation_address m)
      else if ty = R_386_PC16
      then let trunc = (ucast (symbol_target_address - pc) :: u16)
           in if sint (symbol_target_address - pc) \<noteq> sint trunc then Some (False, m)
              else Some (True, write_little_endian16 trunc relocation_address m)
      else if ty = R_386_PC8
      then let trunc = (ucast (symbol_target_address - pc) :: u8)
           in if sint (symbol_target_address - pc) \<noteq> sint trunc then Some (False, m)
              else Some (True, write_little_endian8 trunc relocation_address m)
      else None)"

definition resolveX86_32 ::
  "nat \<Rightarrow> Relocation \<Rightarrow> ElfMap \<Rightarrow> byte_memory \<Rightarrow> (bool \<times> byte_memory) option" where
  "resolveX86_32 n r emap m =
     (let relocation_offset = (ucast (rel_offset r) :: u32)
      in case reloc_places32 n m r emap of None \<Rightarrow> None
         | Some None \<Rightarrow> Some (False, m)
         | Some (Some (symbol_target_address, base, begin)) \<Rightarrow>
             apply_X86_32 (rel_type r) symbol_target_address (base + relocation_offset)
               (begin + ucast relocation_offset) m)"

section \<open>Arm\<close>

text \<open>
  \<^verbatim>\<open>getOrCreateStub\<close>: the address of the stub, or 0; a new stub is not entered in the \<^verbatim>\<open>StubMap\<close>.
\<close>

definition arm_stub ::
  "u32 \<Rightarrow> u32 \<Rightarrow> StubMap \<Rightarrow> ElfMap \<Rightarrow> byte_memory \<Rightarrow> (u32 \<times> ElfMap \<times> byte_memory) option" where
  "arm_stub symbol_target_address index stubs emap m =
     (case getTarget (ucast symbol_target_address) stubs of
        Some target \<Rightarrow> Some (ucast target, emap, m)
      | None \<Rightarrow>
         (case getRemainingStubSpace index emap of None \<Rightarrow> Some (0, emap, m)
          | Some (first, last_end) \<Rightarrow>
              if last_end - first < 4 then Some (0, emap, m)
              else case getStubTargetAddress index emap of None \<Rightarrow> None
                | Some target \<Rightarrow>
                    Some (ucast target, shrinkRemainingStubSpace index 8 emap,
                          write_little_endian32 symbol_target_address (first + 4)
                            (write_little_endian32 0xE51FF004 first m))))"

definition apply_Arm ::
  "u32 \<Rightarrow> u32 \<Rightarrow> u32 \<Rightarrow> ptr \<Rightarrow> u32 \<Rightarrow> StubMap \<Rightarrow> ElfMap \<Rightarrow> byte_memory
    \<Rightarrow> (bool \<times> ElfMap \<times> byte_memory) option" where
  "apply_Arm ty symbol_target_address pc relocation_address index stubs emap m =
     (let v = read_little_endian32 m relocation_address
      in if ty = R_ARM_NONE then Some (True, emap, m)
         else if ty = R_ARM_PREL31
         then Some (True, emap, write_little_endian32
                (setBitRange v (symbol_target_address - pc) 0 31) relocation_address m)
         else if ty = R_ARM_TARGET1 \<or> ty = R_ARM_ABS32
         then Some (True, emap, write_little_endian32 (symbol_target_address + v) relocation_address m)
         else if ty = R_ARM_MOVW_ABS_NC \<or> ty = R_ARM_MOVT_ABS
         then let bits = (if ty = R_ARM_MOVW_ABS_NC then getBitRange symbol_target_address 0 16
                          else getBitRange symbol_target_address 16 16)
              in Some (True, emap, write_little_endian32
                   (setBitRange (setBitRange v (drop_bit 12 bits) 16 4) bits 0 12) relocation_address m)
         else if ty = R_ARM_PC24 \<or> ty = R_ARM_CALL \<or> ty = R_ARM_JUMP24
         then case arm_stub symbol_target_address index stubs emap m of None \<Rightarrow> None
           | Some (stub_target, emap1, m1) \<Rightarrow>
               let relative_value = drop_bit 2 ((stub_target - pc - 8) AND 0x03FFFFFC)
               in if v AND 0xFFFFFF \<noteq> 0xFFFFFE then Some (False, emap1, m1)
                  else Some (True, emap1, write_little_endian32
                         (setBitRange v relative_value 0 24) relocation_address m1)
         else None)"

definition resolveArm ::
  "nat \<Rightarrow> Relocation \<Rightarrow> StubMap \<Rightarrow> ElfMap \<Rightarrow> byte_memory \<Rightarrow> (bool \<times> ElfMap \<times> byte_memory) option" where
  "resolveArm n r stubs emap m =
     (let relocation_offset = (ucast (rel_offset r) :: u32)
      in case reloc_places32 n m r emap of None \<Rightarrow> None
         | Some None \<Rightarrow> Some (False, emap, m)
         | Some (Some (symbol_target_address, base, begin)) \<Rightarrow>
             apply_Arm (rel_type r) symbol_target_address (base + relocation_offset)
               (begin + ucast relocation_offset) (rel_section_index r) stubs emap m)"

section \<open>AArch64\<close>

text \<open>The five instructions of a stub for the address \<open>a\<close>, written at \<open>p\<close>.\<close>

definition write_aarch64_stub :: "u64 \<Rightarrow> ptr \<Rightarrow> byte_memory \<Rightarrow> byte_memory" where
  "write_aarch64_stub a p m =
     write_little_endian32 0xD61F0200 (p + 16)
    (write_little_endian32 (setBitRange 0xF2800010 (ucast (a AND 0xFFFF)) 5 16) (p + 12)
    (write_little_endian32 (setBitRange 0xF2A00010 (ucast (getBitRange a 16 16)) 5 16) (p + 8)
    (write_little_endian32 (setBitRange 0xF2C00010 (ucast (getBitRange a 32 16)) 5 16) (p + 4)
    (write_little_endian32 (setBitRange 0xD2E00010 (ucast (getBitRange a 48 16)) 5 16) p m))))"

definition aarch64_stub ::
  "u64 \<Rightarrow> u32 \<Rightarrow> StubMap \<Rightarrow> ElfMap \<Rightarrow> byte_memory \<Rightarrow> (u64 \<times> ElfMap \<times> byte_memory) option" where
  "aarch64_stub symbol_target_address index stubs emap m =
     (case getTarget symbol_target_address stubs of
        Some target \<Rightarrow> Some (target, emap, m)
      | None \<Rightarrow>
         (case getRemainingStubSpace index emap of None \<Rightarrow> Some (0, emap, m)
          | Some (first, last_end) \<Rightarrow>
              if last_end - first < 4 then Some (0, emap, m)
              else case getStubTargetAddress index emap of None \<Rightarrow> None
                | Some target \<Rightarrow>
                    Some (target + 4, shrinkRemainingStubSpace index 20 emap,
                          write_aarch64_stub symbol_target_address first m)))"

definition in_branch_range :: "u64 \<Rightarrow> bool" where
  "in_branch_range relative_value \<longleftrightarrow>
     - (2 ^ 27) \<le> sint relative_value \<and> sint relative_value < 2 ^ 27"

text \<open>The 26-bit immediate is combined with the instruction by a bitwise or.\<close>

definition branch_imm26 :: "u64 \<Rightarrow> u32 \<Rightarrow> u32" where
  "branch_imm26 relative_value value32 = value32 OR ucast (drop_bit 2 relative_value AND 0x03FFFFFF)"

definition apply_branch26 ::
  "u64 \<Rightarrow> u64 \<Rightarrow> ptr \<Rightarrow> u32 \<Rightarrow> StubMap \<Rightarrow> ElfMap \<Rightarrow> byte_memory \<Rightarrow> (bool \<times> ElfMap \<times> byte_memory) option" where
  "apply_branch26 symbol_target_address pc relocation_address index stubs emap m =
     (let value32 = read_little_endian32 m relocation_address
      in if in_branch_range (symbol_target_address - pc)
         then Some (True, emap, write_little_endian32
                (branch_imm26 (symbol_target_address - pc) value32) relocation_address m)
         else case aarch64_stub symbol_target_address index stubs emap m of None \<Rightarrow> None
           | Some (stub_target, emap1, m1) \<Rightarrow>
               if stub_target = 0 \<or> \<not> in_branch_range (stub_target - pc) then Some (False, emap1, m1)
               else Some (True, emap1, write_little_endian32
                      (branch_imm26 (stub_target - pc) value32) relocation_address m1))"

text \<open>
  The relocations that store bits of the symbol address in a field of an instruction: the first and
  the number of bits, and the position and the width of the field.
\<close>

definition aarch64_field :: "u32 \<Rightarrow> (nat \<times> nat \<times> nat \<times> nat) option" where
  "aarch64_field ty =
     (if ty = R_AARCH64_MOVW_UABS_G0_NC then Some (0, 32, 5, 16)
      else if ty = R_AARCH64_MOVW_UABS_G1_NC then Some (16, 16, 5, 16)
      else if ty = R_AARCH64_MOVW_UABS_G2_NC then Some (32, 16, 5, 16)
      else if ty = R_AARCH64_MOVW_UABS_G3 then Some (48, 16, 5, 16)
      else if ty = R_AARCH64_ADD_ABS_LO12_NC \<or> ty = R_AARCH64_LDST8_ABS_LO12_NC then Some (0, 12, 10, 12)
      else if ty = R_AARCH64_LDST16_ABS_LO12_NC then Some (1, 11, 10, 12)
      else if ty = R_AARCH64_LDST32_ABS_LO12_NC then Some (2, 10, 10, 12)
      else if ty = R_AARCH64_LDST64_ABS_LO12_NC then Some (3, 9, 10, 12)
      else if ty = R_AARCH64_LDST128_ABS_LO12_NC then Some (4, 8, 10, 12)
      else None)"

definition apply_AArch64 ::
  "u32 \<Rightarrow> u64 \<Rightarrow> u64 \<Rightarrow> ptr \<Rightarrow> u32 \<Rightarrow> StubMap \<Rightarrow> ElfMap \<Rightarrow> byte_memory
    \<Rightarrow> (bool \<times> ElfMap \<times> byte_memory) option" where
  "apply_AArch64 ty symbol_target_address pc relocation_address index stubs emap m =
     (let value32 = read_little_endian32 m relocation_address;
          relative = symbol_target_address - pc
      in if ty = R_AARCH64_NONE then Some (True, emap, m)
         else if ty = R_AARCH64_ABS16
         then if sint (ucast symbol_target_address :: u16) \<noteq> sint symbol_target_address
              then Some (False, emap, m)
              else Some (True, emap, write_little_endian16 (ucast symbol_target_address) relocation_address m)
         else if ty = R_AARCH64_ABS32
         then if sint (ucast symbol_target_address :: u32) \<noteq> sint symbol_target_address
              then Some (False, emap, m)
              else Some (True, emap, write_little_endian32 (ucast symbol_target_address) relocation_address m)
         else if ty = R_AARCH64_ABS64
         then Some (True, emap, write_little_endian64 symbol_target_address relocation_address m)
         else if ty = R_AARCH64_PREL64
         then Some (True, emap, write_little_endian64 relative relocation_address m)
         else if ty = R_AARCH64_PREL32
         then if sint (ucast relative :: u32) \<noteq> sint relative then Some (False, emap, m)
              else Some (True, emap, write_little_endian32 (ucast relative) relocation_address m)
         else if ty = R_AARCH64_PREL16
         then if sint (ucast relative :: u16) \<noteq> sint relative then Some (False, emap, m)
              else Some (True, emap, write_little_endian16 (ucast relative) relocation_address m)
         else if ty = R_AARCH64_CALL26 \<or> ty = R_AARCH64_JUMP26
         then apply_branch26 symbol_target_address pc relocation_address index stubs emap m
         else if ty = R_AARCH64_ADR_PREL_PG_HI21
         then let page_difference = (symbol_target_address AND NOT 0xFFF) - (pc AND NOT 0xFFF)
              in if sint page_difference \<ge> 2 ^ 32 \<or> sint page_difference < - (2 ^ 32)
                 then Some (False, emap, m)
                 else let pages = (ucast (drop_bit 12 page_difference) :: u32)
                   in Some (True, emap, write_little_endian32
                        (setBitRange (setBitRange value32 (getBitRange pages 0 2) 29 2)
                          (getBitRange pages 2 19) 3 19) relocation_address m)
         else case aarch64_field ty of None \<Rightarrow> None
           | Some (first, cnt, pos, sz) \<Rightarrow>
               Some (True, emap, write_little_endian32
                 (setBitRange value32 (ucast (getBitRange symbol_target_address first cnt)) pos sz)
                 relocation_address m))"

definition resolveAArch64 ::
  "nat \<Rightarrow> Relocation \<Rightarrow> StubMap \<Rightarrow> ElfMap \<Rightarrow> byte_memory \<Rightarrow> (bool \<times> ElfMap \<times> byte_memory) option" where
  "resolveAArch64 n r stubs emap m =
     (case reloc_places n m r emap of None \<Rightarrow> None
      | Some None \<Rightarrow> Some (False, emap, m)
      | Some (Some (symbol_target_address, base, begin)) \<Rightarrow>
          apply_AArch64 (rel_type r) symbol_target_address (base + rel_offset r)
            (begin + rel_offset r) (rel_section_index r) stubs emap m)"

section \<open>Relocation sections\<close>

definition fromElf32Rel :: "byte_memory \<Rightarrow> ElfFile \<Rightarrow> u32 \<Rightarrow> ptr \<Rightarrow> Relocation" where
  "fromElf32Rel m f section_id entry =
     (let info = field32 m f (read_little_endian32 m (entry + 4))
      in \<lparr>rel_type = info AND 0xFF, rel_symbol_index = drop_bit 8 info,
          rel_offset = ucast (field32 m f (read_little_endian32 m entry)), rel_addend = 0,
          rel_section_index = section_id\<rparr>)"

definition fromElf32RelA :: "byte_memory \<Rightarrow> ElfFile \<Rightarrow> u32 \<Rightarrow> ptr \<Rightarrow> Relocation" where
  "fromElf32RelA m f section_id entry =
     (fromElf32Rel m f section_id entry)
       \<lparr>rel_addend := scast (field32 m f (read_little_endian32 m (entry + 8)))\<rparr>"

definition fromElf64Rel :: "byte_memory \<Rightarrow> ElfFile \<Rightarrow> u32 \<Rightarrow> ptr \<Rightarrow> Relocation" where
  "fromElf64Rel m f section_id entry =
     (let info = field64 m f (read_little_endian64 m (entry + 8))
      in \<lparr>rel_type = ucast (info AND 0xFFFFFFFF), rel_symbol_index = ucast (drop_bit 32 info),
          rel_offset = field64 m f (read_little_endian64 m entry), rel_addend = 0,
          rel_section_index = section_id\<rparr>)"

definition fromElf64RelA :: "byte_memory \<Rightarrow> ElfFile \<Rightarrow> u32 \<Rightarrow> ptr \<Rightarrow> Relocation" where
  "fromElf64RelA m f section_id entry =
     (fromElf64Rel m f section_id entry)
       \<lparr>rel_addend := field64 m f (read_little_endian64 m (entry + 16))\<rparr>"

definition resolve ::
  "nat \<Rightarrow> Relocation \<Rightarrow> StubMap \<Rightarrow> ElfMap \<Rightarrow> byte_memory \<Rightarrow> (bool \<times> ElfMap \<times> byte_memory) option" where
  "resolve n r stubs emap m =
     (let mach = elf_machine m (map_file emap)
      in if mach = Machine_X86 then map_option (\<lambda>(b, m). (b, emap, m)) (resolveX86_32 n r emap m)
         else if mach = Machine_X86_64 then map_option (\<lambda>(b, m). (b, emap, m)) (resolveX86_64 n r emap m)
         else if mach = Machine_ARM then resolveArm n r stubs emap m
         else if mach = Machine_AARCH64 then resolveAArch64 n r stubs emap m
         else None)"

text \<open>
  The loop over the entries of a section, given their number: a section whose size is not a multiple
  of the entry size runs past its end. The \<^verbatim>\<open>StubMap\<close> of a section starts empty.
\<close>

fun resolve_entries ::
  "nat \<Rightarrow> (byte_memory \<Rightarrow> ElfFile \<Rightarrow> u32 \<Rightarrow> ptr \<Rightarrow> Relocation) \<Rightarrow> u32 \<Rightarrow> u64 \<Rightarrow> nat \<Rightarrow> ptr \<Rightarrow> ElfMap
    \<Rightarrow> byte_memory \<Rightarrow> (bool \<times> ElfMap \<times> byte_memory) option" where
  "resolve_entries n from section_id entry_size 0 it emap m = Some (True, emap, m)"
| "resolve_entries n from section_id entry_size (Suc k) it emap m =
     (case resolve n (from m (map_file emap) section_id it) [] emap m of None \<Rightarrow> None
      | Some (False, emap1, m1) \<Rightarrow> Some (False, emap1, m1)
      | Some (True, emap1, m1) \<Rightarrow>
          resolve_entries n from section_id entry_size k (it + entry_size) emap1 m1)"

definition resolve_section ::
  "nat \<Rightarrow> (byte_memory \<Rightarrow> ElfFile \<Rightarrow> u32 \<Rightarrow> ptr \<Rightarrow> Relocation) \<Rightarrow> ptr \<Rightarrow> string \<Rightarrow> ElfMap
    \<Rightarrow> byte_memory \<Rightarrow> (bool \<times> ElfMap \<times> byte_memory) option" where
  "resolve_section n from sh rel_section emap m =
     (let f = map_file emap
      in case elf_section_named n m f rel_section of None \<Rightarrow> None
         | Some None \<Rightarrow> Some (True, emap, m)
         | Some (Some target) \<Rightarrow>
             let section_id = section_index m f target
             in if getSectionTargetAddress section_id emap = None then Some (True, emap, m)
                else case section_data m f sh of None \<Rightarrow> None
                  | Some (first, sz) \<Rightarrow>
                      if sz mod section_entrySize m f sh \<noteq> 0 then None
                      else resolve_entries n from section_id (section_entrySize m f sh)
                             (unat (sz div section_entrySize m f sh)) first emap m)"

text \<open>The sections in order, with explicit and without explicit addends.\<close>

fun resolve_sections :: "nat \<Rightarrow> nat list \<Rightarrow> ElfMap \<Rightarrow> byte_memory \<Rightarrow> (bool \<times> ElfMap \<times> byte_memory) option" where
  "resolve_sections n [] emap m = Some (True, emap, m)"
| "resolve_sections n (i # is) emap m =
     (let f = map_file emap; sh = elf_section m f (of_nat i)
      in if section_entrySize m f sh = 0 then resolve_sections n is emap m
         else case section_name n m f sh of None \<Rightarrow> None
           | Some name \<Rightarrow>
              (case (if take 5 name = ''.rela'' \<and> section_type m f sh = SectionType_RELA
                     then resolve_section n (if is32Bit m f then fromElf32RelA else fromElf64RelA)
                            sh (drop 5 name) emap m
                     else if take 4 name = ''.rel'' \<and> section_type m f sh = SectionType_REL
                     then resolve_section n (if is32Bit m f then fromElf32Rel else fromElf64Rel)
                            sh (drop 4 name) emap m
                     else Some (True, emap, m)) of None \<Rightarrow> None
               | Some (False, emap1, m1) \<Rightarrow> Some (False, emap1, m1)
               | Some (True, emap1, m1) \<Rightarrow> resolve_sections n is emap1 m1))"

definition resolveRelocations :: "nat \<Rightarrow> ElfMap \<Rightarrow> byte_memory \<Rightarrow> (bool \<times> ElfMap \<times> byte_memory) option" where
  "resolveRelocations n emap m = resolve_sections n [0..<sectionCount m (map_file emap)] emap m"

section \<open>Truncation\<close>

text \<open>A value fits a narrower signed or unsigned field exactly when truncating keeps it.\<close>

lemma scast_trunc:
  fixes v :: u64
  assumes "sint v = sint (ucast v :: 'b :: len word)"
  shows "scast (ucast v :: 'b word) = v"
  using assms by (metis scast_id signed_of_int of_int_sint scast_eq)

lemma scast_no_trunc:
  fixes v :: u64
  assumes "sint v \<noteq> sint (ucast v :: 'b :: len word)" and "LENGTH('b) \<le> 64"
  shows "scast (x :: 'b word) \<noteq> v"
proof
  assume x: "scast x = v"
  then have "ucast v = x"
    using assms(2) by (auto intro!: bit_word_eqI simp: bit_simps)
  moreover have "sint (scast x :: u64) = sint x"
    using assms(2) by (simp add: sint_up_scast is_up)
  ultimately show False
    using x assms(1) by simp
qed

lemma ucast_no_trunc:
  fixes v :: u64
  assumes "v \<noteq> ucast (ucast v :: u32)"
  shows "ucast (x :: u32) \<noteq> v"
proof
  assume x: "ucast x = v"
  then have "ucast v = x"
    by (auto intro!: bit_word_eqI simp: bit_simps)
  with x assms show False by simp
qed

section \<open>The meaning of the x86-64 relocations\<close>

text \<open>
  The value that a relocation stores, the width of its field, and the value that the field stands for
  when the machine reads it.
\<close>

definition x86_64_value :: "u32 \<Rightarrow> u64 \<Rightarrow> u64 \<Rightarrow> u64" where
  "x86_64_value ty S P =
     (if ty \<in> {R_X86_64_64, R_X86_64_32, R_X86_64_32S} then S else S - P)"

definition x86_64_width :: "u32 \<Rightarrow> nat" where
  "x86_64_width ty =
     (if ty \<in> {R_X86_64_64, R_X86_64_PC64} then 8
      else if ty \<in> {R_X86_64_32, R_X86_64_32S, R_X86_64_PC32} then 4
      else if ty = R_X86_64_PC16 then 2 else 1)"

definition x86_64_load :: "u32 \<Rightarrow> byte_memory \<Rightarrow> ptr \<Rightarrow> u64" where
  "x86_64_load ty m p =
     (if ty \<in> {R_X86_64_64, R_X86_64_PC64} then read_little_endian64 m p
      else if ty = R_X86_64_32 then ucast (read_little_endian32 m p)
      else if ty \<in> {R_X86_64_32S, R_X86_64_PC32} then scast (read_little_endian32 m p)
      else if ty = R_X86_64_PC16 then scast (read_little_endian16 m p)
      else scast (m p))"

lemmas x86_64_meaning = x86_64_value_def x86_64_width_def x86_64_load_def

lemma apply_X86_64_correct:
  assumes "apply_X86_64 ty S P p m = Some (ok, m')" and "ty \<noteq> R_X86_64_NONE"
  shows "if ok
     then x86_64_load ty m' p = x86_64_value ty S P \<and>
       (\<forall>a. x86_64_width ty \<le> unat (a - p) \<longrightarrow> m' a = m a)
     else m' = m \<and> (\<forall>m0. x86_64_load ty m0 p \<noteq> x86_64_value ty S P)"
proof -
  note apply_defs = apply_X86_64_def x86_64_meaning Let_def
  consider "ty = R_X86_64_64 \<or> ty = R_X86_64_PC64" | "ty = R_X86_64_32" | "ty = R_X86_64_32S"
    | "ty = R_X86_64_PC32" | "ty = R_X86_64_PC16" | "ty = R_X86_64_PC8"
    using assms by (auto simp: apply_X86_64_def split: if_splits)
  then show ?thesis
  proof cases
    case 1
    with assms(1) show ?thesis
      by (auto simp: apply_defs read_write_little_endian write_little_endian_outside)
  next
    case 2
    with assms(1) show ?thesis
      by (auto simp: apply_defs read_write_little_endian write_little_endian_outside
          dest: ucast_no_trunc split: if_splits)
  next
    case 3
    with assms(1) show ?thesis
      by (auto simp: apply_defs read_write_little_endian write_little_endian_outside scast_trunc
          dest: scast_no_trunc split: if_splits)
  next
    case 4
    with assms(1) show ?thesis
      by (auto simp: apply_defs read_write_little_endian write_little_endian_outside scast_trunc
          dest: scast_no_trunc split: if_splits)
  next
    case 5
    with assms(1) show ?thesis
      by (auto simp: apply_defs read_write_little_endian write_little_endian_outside scast_trunc
          dest: scast_no_trunc split: if_splits)
  next
    case 6
    with assms(1) show ?thesis
      by (auto simp: apply_defs write_little_endian_outside write_little_endian8_def scast_trunc
          dest: scast_no_trunc split: if_splits)
  qed
qed

section \<open>Resolving one relocation of an x86-64 file\<close>

text \<open>
  A 64-bit little-endian file at \<open>0x1000\<close> for the machine \<open>mach\<close>, whose symbol table at \<open>0x2000\<close> has one
  symbol, at offset 16 of section 1, and a map that places this section.
\<close>

definition demo_elf_memory :: "u8 \<Rightarrow> byte_memory" where
  "demo_elf_memory mach = (\<lambda>_. 0)(0x1004 := 2, 0x1005 := 1, 0x1012 := mach, 0x2019 := 5, 0x2020 := 24,
     0x2038 := 24, 0x1506 := 1, 0x1508 := 0x10)"

definition demo_elf_map :: "ptr \<Rightarrow> ElfMap" where
  "demo_elf_map stub_end =
     \<lparr>map_file = \<lparr>elf_begin = 0x1000, elf_size = 0x2000, symbol_section = Some 0x2000\<rparr>,
      sectionMappings = [\<lparr>map_section_index = 1, writable_address = 0x5000, stub_address = 0x5100,
        writable_end = stub_end, target_address = 0x400000\<rparr>], callbacks = []\<rparr>"

definition demo_relocation :: "u32 \<Rightarrow> u64 \<Rightarrow> Relocation" where
  "demo_relocation ty addend =
     \<lparr>rel_type = ty, rel_symbol_index = 0, rel_offset = 8, rel_addend = addend, rel_section_index = 1\<rparr>"

lemmas elf_defs = elf_section_named_def sectionCount_def elf_machine_def getSymbolTargetAddress_def elf_symbol_def symbolCount_def symbol_name_def symbol_target_def
  symbol_sectionIndex_def symbol_value_def isSpecial_def getSectionTargetAddress_def find_mapping_def
  getSectionWritableAddress_def section_size_def section_entrySize_def section_file_offset_def section_data_def
  section_type_def member16_def member32_def member_addr_def is32Bit_def file_is_little_def
  field16_def field32_def field64_def read_little_endian16_def read_little_endian32_def read_little_endian64_def

lemma demo_places:
  "reloc_places 2 (demo_elf_memory mach) (demo_relocation ty addend) (demo_elf_map e) =
     Some (Some (0x400010 + addend, 0x400000, 0x5000))"
  by (simp add: reloc_places_def demo_elf_memory_def demo_elf_map_def demo_relocation_def elf_defs Let_def word_le_nat_alt)

text \<open>
  C9: resolving a relocation of an x86-64 file is sound and complete: on success the relocated field
  stands for the value that the relocation type prescribes, the symbol with the addend or its distance
  from the place, and no byte outside the field has changed; it fails only when no content of the field
  stands for this value, and then changes nothing.
\<close>

theorem x86_64_relocation_correct:
  assumes "elf_machine m (map_file emap) = Machine_X86_64" and "rel_type r \<noteq> R_X86_64_NONE"
    and "reloc_places n m r emap = Some (Some (S, base, begin))"
    and "resolve n r stubs emap m = Some (ok, emap', m')"
  defines "offset \<equiv> rel_offset r AND 0xFFFFFFFF"
  shows "emap' = emap \<and>
    (if ok
     then x86_64_load (rel_type r) m' (begin + offset) = x86_64_value (rel_type r) S (base + offset) \<and>
       (\<forall>a. x86_64_width (rel_type r) \<le> unat (a - (begin + offset)) \<longrightarrow> m' a = m a)
     else m' = m \<and>
       (\<forall>m0. x86_64_load (rel_type r) m0 (begin + offset) \<noteq> x86_64_value (rel_type r) S (base + offset)))"
proof -
  have "resolveX86_64 n r emap m = Some (ok, m')" and "emap' = emap"
    using assms(1,4) by (auto simp: resolve_def Let_def)
  then show ?thesis
    using apply_X86_64_correct [OF _ assms(2)] assms(3)
    by (simp add: resolveX86_64_def Let_def offset_def)
qed

lemma demo_machine: "elf_machine (demo_elf_memory mach) (map_file (demo_elf_map e)) = ucast mach"
  by (simp add: demo_elf_memory_def demo_elf_map_def elf_defs)

theorem x86_64_relocation_correct_witness:
  "\<exists>m'. resolve 2 (demo_relocation R_X86_64_PC32 (- 4)) [] (demo_elf_map 0x5200) (demo_elf_memory 0x3E)
      = Some (True, demo_elf_map 0x5200, m') \<and>
     x86_64_load R_X86_64_PC32 m' 0x5008 = 4 \<and> m' 0x500C = 0"
proof -
  let ?m = "demo_elf_memory 0x3E" and ?r = "demo_relocation R_X86_64_PC32 (- 4)"
  let ?m' = "write_little_endian32 4 0x5008 ?m"
  have machine: "elf_machine ?m (map_file (demo_elf_map 0x5200)) = Machine_X86_64"
    by (simp add: demo_machine)
  have r: "rel_type ?r = 2" "rel_offset ?r = 8"
    by (simp_all add: demo_relocation_def)
  have run: "resolve 2 ?r [] (demo_elf_map 0x5200) ?m = Some (True, demo_elf_map 0x5200, ?m')"
    by (simp add: resolve_def machine Let_def resolveX86_64_def demo_places r apply_X86_64_def)
  have "rel_type ?r \<noteq> R_X86_64_NONE" by (simp add: r)
  from x86_64_relocation_correct [OF machine this demo_places run] have
    "x86_64_load R_X86_64_PC32 ?m' 0x5008 = 4" and "?m' 0x500C = ?m 0x500C"
    by (simp_all add: r x86_64_value_def x86_64_width_def)
  with run show ?thesis
    by (intro exI [of _ ?m']) (simp add: demo_elf_memory_def)
qed

end
