(* ===== verification/Loader_AArch64.thy ===== *)
theory Loader_AArch64
  imports Loader_Relocations
begin

unbundle bit_operations_syntax

text \<open>
  What the AArch64 relocations of \<^theory_text>\<open>Loader_Relocations\<close> mean to the machine: the target of a
  branch with a 26-bit immediate, and the jump that the instructions of a stub perform. The meaning of
  the instructions is that of the architecture; it is a specification and not part of the loader.
\<close>

section \<open>The meaning of an AArch64 branch\<close>

text \<open>The address a branch with a 26-bit immediate at \<open>pc\<close> jumps to.\<close>

definition branch26_target :: "u64 \<Rightarrow> u32 \<Rightarrow> u64" where
  "branch26_target pc insn = pc + push_bit 2 (signed_take_bit 25 (ucast insn))"

lemma bit_signed_range:
  fixes r :: u64
  assumes "- (2 ^ k) \<le> sint r" and "sint r < 2 ^ k" and "k < 64" and "n < 64"
  shows "bit r n \<longleftrightarrow> bit r (min k n)"
proof -
  have "signed_take_bit k (sint r) = sint r"
    using assms(1,2) by (rule signed_take_bit_int_eq_self)
  then have "bit (sint r) n \<longleftrightarrow> bit (sint r) (min k n)"
    by (metis bit_signed_take_bit_iff possible_bit_int)
  moreover have "bit (sint r) i \<longleftrightarrow> bit r i" if "i < 64" for i
    using that by (simp add: bit_sint_iff)
  moreover have "min k n < 64"
    using assms(3) by linarith
  ultimately show ?thesis
    using assms(4) by blast
qed

lemma bit_0x03FFFFFF: "bit (0x03FFFFFF :: u64) i \<longleftrightarrow> i < 26"
proof -
  have "(0x03FFFFFF :: u64) = mask 26" by (simp add: mask_eq_exp_minus_1)
  then show ?thesis by (simp only: bit_mask_iff possible_bit_word) auto
qed

lemma bit_branch_imm26:
  assumes "j < 32"
  shows "bit (branch_imm26 r insn) j \<longleftrightarrow> bit insn j \<or> j < 26 \<and> bit r (j + 2)"
  using assms unfolding branch_imm26_def bit_or_iff bit_unsigned_iff bit_and_iff bit_drop_bit_eq bit_0x03FFFFFF
  by (auto simp: add.commute)

lemma branch_imm26_target:
  assumes "in_branch_range (t - pc)" and "take_bit 2 (t - pc) = 0" and "take_bit 26 insn = 0"
  shows "branch26_target pc (branch_imm26 (t - pc) insn) = t"
proof -
  let ?r = "t - pc"
  have low: "\<not> bit ?r n" if "n < 2" for n
    using assms(2) that by (metis bit_take_bit_iff bit_0_eq bot_apply bot_bool_def)
  have imm: "\<not> bit insn j" if "j < 26" for j
    using assms(3) that by (metis bit_take_bit_iff bit_0_eq bot_apply bot_bool_def)
  have "push_bit 2 (signed_take_bit 25 (ucast (branch_imm26 ?r insn))) = ?r"
  proof (rule bit_word_eqI)
    fix n
    assume "n < LENGTH(64)"
    then have n: "n < 64" by simp
    have j: "min 25 (n - 2) < 26" and j': "min 25 (n - 2) < 32" by simp_all
    have "bit (push_bit 2 (signed_take_bit 25 (ucast (branch_imm26 ?r insn) :: u64))) n \<longleftrightarrow>
        2 \<le> n \<and> bit (branch_imm26 ?r insn) (min 25 (n - 2))"
      using n unfolding bit_push_bit_iff bit_signed_take_bit_iff bit_unsigned_iff by auto
    also have "\<dots> \<longleftrightarrow> 2 \<le> n \<and> bit ?r (min 25 (n - 2) + 2)"
      unfolding bit_branch_imm26 [OF j'] using imm [OF j] j by blast
    also have "\<dots> \<longleftrightarrow> 2 \<le> n \<and> bit ?r (min 27 n)"
    proof (cases "2 \<le> n")
      case True
      then have "min 25 (n - 2) + 2 = min 27 n" by arith
      then show ?thesis by (simp only:)
    qed simp
    also have "\<dots> \<longleftrightarrow> bit ?r n"
    proof (cases "2 \<le> n")
      case True
      then show ?thesis
        using bit_signed_range [OF _ _ _, of 27 ?r n] assms(1) n by (simp add: in_branch_range_def)
    next
      case False
      then show ?thesis
        using low [of n] by simp
    qed
    finally show "bit (push_bit 2 (signed_take_bit 25 (ucast (branch_imm26 ?r insn) :: u64))) n \<longleftrightarrow> bit ?r n" .
  qed
  then show ?thesis
    by (simp add: branch26_target_def)
qed

lemma branch_imm26_opcode: "drop_bit 26 (branch_imm26 r insn) = drop_bit 26 insn"
proof (rule bit_word_eqI)
  fix n
  show "bit (drop_bit 26 (branch_imm26 r insn)) n \<longleftrightarrow> bit (drop_bit 26 insn) n"
    using bit_branch_imm26 [of "26 + n" r insn] bit_imp_le_length [of "branch_imm26 r insn" "26 + n"]
      bit_imp_le_length [of insn "26 + n"]
    by (cases "26 + n < 32") (auto simp: bit_drop_bit_eq)
qed

section \<open>The meaning of a stub\<close>

text \<open>
  The instructions \<^verbatim>\<open>movz\<close> and \<^verbatim>\<open>movk\<close> on the register \<^verbatim>\<open>ip0\<close>: the immediate and its position in the
  register; \<^verbatim>\<open>movz\<close> clears the other bits and \<^verbatim>\<open>movk\<close> keeps them.
\<close>

definition move_imm :: "u32 \<Rightarrow> u64" where
  "move_imm insn = push_bit (16 * unat (drop_bit 21 insn AND mask 2)) (ucast (drop_bit 5 insn AND mask 16))"

definition move_mask :: "u32 \<Rightarrow> u64" where
  "move_mask insn = push_bit (16 * unat (drop_bit 21 insn AND mask 2)) (mask 16)"

definition exec_move :: "u32 \<Rightarrow> u64 \<Rightarrow> u64 option" where
  "exec_move insn ip0 =
     (if insn AND 0xFF80001F = 0xD2800010 then Some (move_imm insn)
      else if insn AND 0xFF80001F = 0xF2800010 then Some ((ip0 AND NOT (move_mask insn)) OR move_imm insn)
      else None)"

text \<open>Executing instructions from \<open>p\<close> until the branch on \<^verbatim>\<open>ip0\<close>: the address that is jumped to.\<close>

fun run_stub :: "nat \<Rightarrow> byte_memory \<Rightarrow> ptr \<Rightarrow> u64 \<Rightarrow> u64 option" where
  "run_stub 0 m p ip0 = None"
| "run_stub (Suc k) m p ip0 =
     (let insn = read_little_endian32 m p
      in if insn = 0xD61F0200 then Some ip0
         else case exec_move insn ip0 of None \<Rightarrow> None | Some x \<Rightarrow> run_stub k m (p + 4) x)"

lemma and_not_disjoint:
  fixes a b :: "'a :: len word"
  assumes "a AND b = 0"
  shows "a AND NOT b = a"
proof (rule bit_word_eqI)
  fix n
  assume "n < LENGTH('a)"
  moreover have "\<not> (bit a n \<and> bit b n)"
    using assms by (metis bit_and_iff bit_0_eq bot_apply bot_bool_def)
  ultimately show "bit (a AND NOT b) n \<longleftrightarrow> bit a n"
    unfolding bit_and_iff bit_not_iff possible_bit_word by blast
qed

lemma setBitRange_imm:
  assumes "insn AND push_bit 5 (mask 16) = 0"
  shows "setBitRange insn v 5 16 = insn OR push_bit 5 (v AND mask 16)"
  unfolding setBitRange_def Let_def and_not_disjoint [OF assms] push_bit_and ..

text \<open>The fields of a move instruction with its immediate filled in.\<close>

lemma bit_move_imm: "bit (push_bit 5 (v AND mask 16) :: u32) n \<longleftrightarrow> 5 \<le> n \<and> n < 21 \<and> bit v (n - 5)"
  unfolding bit_push_bit_iff bit_and_iff bit_mask_iff possible_bit_word by (auto dest: bit_imp_le_length)

lemma move_fields:
  fixes insn v :: u32
  assumes "insn AND push_bit 5 (mask 16) = 0"
  defines "i \<equiv> insn OR push_bit 5 (v AND mask 16)"
  shows "i AND 0xFF80001F = insn AND 0xFF80001F"
    and "drop_bit 21 i AND mask 2 = drop_bit 21 insn AND mask 2"
    and "drop_bit 5 i AND mask 16 = v AND mask 16"
proof -
  have zero: "\<not> bit insn n" if "5 \<le> n" "n < 21" for n
    using arg_cong [OF assms(1), of "\<lambda>w. bit w n"] that
    unfolding bit_and_iff bit_push_bit_iff bit_mask_iff possible_bit_word by auto
  have "push_bit 5 (v AND mask 16) AND 0xFF80001F = (0 :: u32)"
  proof -
    have "push_bit 5 (v AND mask 16) AND 0xFF80001F = push_bit 5 v AND (push_bit 5 (mask 16) AND 0xFF80001F)"
      by (simp only: push_bit_and and.assoc)
    also have "push_bit 5 (mask 16) AND 0xFF80001F = (0 :: u32)"
      by (simp add: mask_eq_exp_minus_1)
    finally show ?thesis by simp
  qed
  then show "i AND 0xFF80001F = insn AND 0xFF80001F"
    by (simp add: i_def bit.conj_disj_distrib2)
  show "drop_bit 21 i AND mask 2 = drop_bit 21 insn AND mask 2"
  proof (rule bit_word_eqI)
    fix n
    show "bit (drop_bit 21 i AND mask 2) n \<longleftrightarrow> bit (drop_bit 21 insn AND mask 2) n"
      unfolding i_def bit_and_iff bit_or_iff bit_drop_bit_eq o_apply bit_move_imm by simp
  qed
  show "drop_bit 5 i AND mask 16 = v AND mask 16"
  proof (rule bit_word_eqI)
    fix n
    show "bit (drop_bit 5 i AND mask 16) n \<longleftrightarrow> bit (v AND mask 16) n"
      unfolding i_def bit_and_iff bit_or_iff bit_drop_bit_eq o_apply bit_move_imm bit_mask_iff
      using zero [of "5 + n"] by auto
  qed
qed

text \<open>The register \<open>x\<close> with 16 bits from the position \<open>k\<close> taken from the address \<open>a\<close>.\<close>

definition move_wide :: "nat \<Rightarrow> u64 \<Rightarrow> u64 \<Rightarrow> u64" where
  "move_wide k a x = (x AND NOT (push_bit k (mask 16))) OR (a AND push_bit k (mask 16))"

lemma bit_move_wide:
  "n < 64 \<Longrightarrow> bit (move_wide k a x) n \<longleftrightarrow> (if k \<le> n \<and> n < k + 16 then bit a n else bit x n)"
  unfolding move_wide_def bit_or_iff bit_and_iff bit_not_iff bit_push_bit_iff bit_mask_iff possible_bit_word
  by auto

lemma move_wide_all: "move_wide 0 a (move_wide 16 a (move_wide 32 a (move_wide 48 a x))) = a"
  by (rule bit_word_eqI) (simp add: bit_move_wide)

lemma move_wide_low:
  "move_wide 0 a (move_wide 16 a (move_wide 32 a x)) = push_bit 48 (drop_bit 48 x) OR take_bit 48 a"
proof (rule bit_word_eqI)
  fix n
  assume "n < LENGTH(64)"
  then show "bit (move_wide 0 a (move_wide 16 a (move_wide 32 a x))) n \<longleftrightarrow>
      bit (push_bit 48 (drop_bit 48 x) OR take_bit 48 a) n"
    unfolding bit_or_iff bit_push_bit_iff bit_take_bit_iff bit_drop_bit_eq o_apply possible_bit_word
    by (auto simp: bit_move_wide)
qed

lemma ucast_bit_range: "push_bit k (ucast (ucast (getBitRange a k 16) AND mask 16 :: u32)) = a AND push_bit k (mask 16)"
  for a :: u64
proof (rule bit_word_eqI)
  fix n
  assume "n < LENGTH(64)"
  then show "bit (push_bit k (ucast (ucast (getBitRange a k 16) AND mask 16 :: u32)) :: u64) n \<longleftrightarrow>
      bit (a AND push_bit k (mask 16)) n"
    unfolding getBitRange_def bit_push_bit_iff bit_unsigned_iff bit_and_iff bit_mask_iff bit_drop_bit_eq o_apply
      possible_bit_word by auto
qed

lemma exec_movz:
  assumes "insn AND push_bit 5 (mask 16) = 0" and "insn AND 0xFF80001F = 0xD2800010"
    and "16 * unat (drop_bit 21 insn AND mask 2) = k"
  shows "exec_move (setBitRange insn (ucast (getBitRange a k 16)) 5 16) x = Some (move_wide k a 0)"
  unfolding exec_move_def setBitRange_imm [OF assms(1)] move_fields [OF assms(1)] move_imm_def assms(2,3)
    ucast_bit_range move_wide_def by simp

lemma exec_movk:
  assumes "insn AND push_bit 5 (mask 16) = 0" and "insn AND 0xFF80001F = 0xF2800010"
    and "16 * unat (drop_bit 21 insn AND mask 2) = k"
  shows "exec_move (setBitRange insn (ucast (getBitRange a k 16)) 5 16) x = Some (move_wide k a x)"
  unfolding exec_move_def setBitRange_imm [OF assms(1)] move_fields [OF assms(1)] move_imm_def move_mask_def
    assms(2,3) ucast_bit_range move_wide_def by simp

lemma read_write32_apart:
  assumes "4 \<le> unat (p - q)" and "4 \<le> unat (p + 1 - q)" and "4 \<le> unat (p + 2 - q)" and "4 \<le> unat (p + 3 - q)"
  shows "read_little_endian32 (write_little_endian32 v q m) p = read_little_endian32 m p"
  unfolding read_little_endian32_def using assms by (simp add: write_little_endian_outside)

lemma move_opcodes:
  "(0xD2E00010 :: u32) AND push_bit 5 (mask 16) = 0" "(0xD2E00010 :: u32) AND 0xFF80001F = 0xD2800010"
  "16 * unat (drop_bit 21 (0xD2E00010 :: u32) AND mask 2) = 48"
  "(0xF2C00010 :: u32) AND push_bit 5 (mask 16) = 0" "(0xF2C00010 :: u32) AND 0xFF80001F = 0xF2800010"
  "16 * unat (drop_bit 21 (0xF2C00010 :: u32) AND mask 2) = 32"
  "(0xF2A00010 :: u32) AND push_bit 5 (mask 16) = 0" "(0xF2A00010 :: u32) AND 0xFF80001F = 0xF2800010"
  "16 * unat (drop_bit 21 (0xF2A00010 :: u32) AND mask 2) = 16"
  "(0xF2800010 :: u32) AND push_bit 5 (mask 16) = 0" "(0xF2800010 :: u32) AND 0xFF80001F = 0xF2800010"
  "16 * unat (drop_bit 21 (0xF2800010 :: u32) AND mask 2) = 0"
  by (simp_all add: mask_eq_exp_minus_1)

lemma stub_first: "exec_move (setBitRange 0xD2E00010 (ucast (getBitRange a 48 16)) 5 16) x = Some (move_wide 48 a 0)"
  by (rule exec_movz) (simp_all only: move_opcodes)

lemma stub_rest:
  "exec_move (setBitRange 0xF2C00010 (ucast (getBitRange a 32 16)) 5 16) x = Some (move_wide 32 a x)"
  "exec_move (setBitRange 0xF2A00010 (ucast (getBitRange a 16 16)) 5 16) x = Some (move_wide 16 a x)"
  "exec_move (setBitRange 0xF2800010 (ucast (a AND 0xFFFF)) 5 16) x = Some (move_wide 0 a x)"
proof -
  show "exec_move (setBitRange 0xF2C00010 (ucast (getBitRange a 32 16)) 5 16) x = Some (move_wide 32 a x)"
    by (rule exec_movk) (simp_all only: move_opcodes)
  show "exec_move (setBitRange 0xF2A00010 (ucast (getBitRange a 16 16)) 5 16) x = Some (move_wide 16 a x)"
    by (rule exec_movk) (simp_all only: move_opcodes)
  have "a AND 0xFFFF = getBitRange a 0 16"
    by (simp add: getBitRange_def mask_eq_exp_minus_1)
  moreover have "exec_move (setBitRange 0xF2800010 (ucast (getBitRange a 0 16)) 5 16) x = Some (move_wide 0 a x)"
    by (rule exec_movk) (simp_all only: move_opcodes)
  ultimately show "exec_move (setBitRange 0xF2800010 (ucast (a AND 0xFFFF)) 5 16) x = Some (move_wide 0 a x)"
    by simp
qed

lemma move_not_branch: "exec_move insn x = Some y \<Longrightarrow> insn \<noteq> 0xD61F0200"
  by (auto simp: exec_move_def)

lemma run_stub_move:
  assumes "exec_move (read_little_endian32 m p) x = Some y"
  shows "run_stub (Suc k) m p x = run_stub k m (p + 4) y"
  using assms move_not_branch [OF assms] by (simp add: Let_def)

lemma stub_instructions:
  defines "m' \<equiv> \<lambda>a p m. write_aarch64_stub a p m"
  shows "read_little_endian32 (m' a p m) p = setBitRange 0xD2E00010 (ucast (getBitRange a 48 16)) 5 16"
    and "read_little_endian32 (m' a p m) (p + 4) = setBitRange 0xF2C00010 (ucast (getBitRange a 32 16)) 5 16"
    and "read_little_endian32 (m' a p m) (p + 8) = setBitRange 0xF2A00010 (ucast (getBitRange a 16 16)) 5 16"
    and "read_little_endian32 (m' a p m) (p + 12) = setBitRange 0xF2800010 (ucast (a AND 0xFFFF)) 5 16"
    and "read_little_endian32 (m' a p m) (p + 16) = 0xD61F0200"
  by (simp_all add: m'_def write_aarch64_stub_def read_write_little_endian read_write32_apart
      unsigned_minus_1_eq_mask mask_eq_exp_minus_1)

text \<open>A stub jumps to its address when it is entered at its first instruction.\<close>

lemma run_stub_entry: "run_stub 5 (write_aarch64_stub a p m) p x = Some a"
proof -
  have "run_stub (Suc (Suc (Suc (Suc (Suc 0))))) (write_aarch64_stub a p m) p x = Some a"
    by (simp add: run_stub_move stub_instructions stub_first stub_rest Let_def move_wide_all add.assoc
        del: run_stub.simps) (simp add: stub_instructions Let_def)
  then show ?thesis by (simp add: eval_nat_numeral)
qed

lemma run_stub_second:
  "run_stub 5 (write_aarch64_stub a p m) (p + 4) x = Some (push_bit 48 (drop_bit 48 x) OR take_bit 48 a)"
proof -
  have "run_stub (Suc (Suc (Suc (Suc (Suc 0))))) (write_aarch64_stub a p m) (p + 4) x =
      Some (push_bit 48 (drop_bit 48 x) OR take_bit 48 a)"
    by (simp add: run_stub_move stub_instructions stub_rest move_wide_low add.assoc del: run_stub.simps)
      (simp add: stub_instructions Let_def)
  then show ?thesis by (simp add: eval_nat_numeral)
qed

lemma stub_frame:
  assumes "20 \<le> unat (b - p)"
  shows "write_aarch64_stub a p m b = m b"
proof -
  have "4 \<le> unat (b - (p + k))" if "unat k \<le> 16" for k :: ptr
  proof -
    have "unat (b - p - k) = unat (b - p) - unat k"
      using assms that by (intro unat_sub) (simp add: word_le_nat_alt)
    then show ?thesis
      using assms that by (simp add: diff_diff_eq)
  qed
  from this [of 0] this [of 4] this [of 8] this [of 12] this [of 16] show ?thesis
    by (simp add: write_aarch64_stub_def write_little_endian_outside)
qed

section \<open>Resolving a branch of an AArch64 file\<close>

text \<open>
  C16: a \<^verbatim>\<open>bl\<close> or \<^verbatim>\<open>b\<close> instruction whose immediate is zero, as assemblers leave it, and whose target is
  aligned and at most 128 MiB away, is resolved to jump to exactly the symbol with the addend: its
  opcode stays, and no byte outside the instruction changes.
\<close>

theorem aarch64_near_branch:
  assumes "elf_machine m (map_file emap) = Machine_AARCH64"
    and "rel_type r = R_AARCH64_CALL26 \<or> rel_type r = R_AARCH64_JUMP26"
    and "reloc_places n m r emap = Some (Some (S, base, begin))"
    and "in_branch_range (S - (base + rel_offset r))" and "take_bit 2 (S - (base + rel_offset r)) = 0"
    and "take_bit 26 (read_little_endian32 m (begin + rel_offset r)) = 0"
  shows "\<exists>m'. resolve n r stubs emap m = Some (True, emap, m') \<and>
     branch26_target (base + rel_offset r) (read_little_endian32 m' (begin + rel_offset r)) = S \<and>
     drop_bit 26 (read_little_endian32 m' (begin + rel_offset r)) =
       drop_bit 26 (read_little_endian32 m (begin + rel_offset r)) \<and>
     (\<forall>a. 4 \<le> unat (a - (begin + rel_offset r)) \<longrightarrow> m' a = m a)"
proof -
  let ?insn = "read_little_endian32 m (begin + rel_offset r)" and ?pc = "base + rel_offset r"
  let ?m' = "write_little_endian32 (branch_imm26 (S - ?pc) ?insn) (begin + rel_offset r) m"
  have "resolve n r stubs emap m = Some (True, emap, ?m')"
    using assms(2) by (auto simp: resolve_def assms(1,3,4) resolveAArch64_def apply_AArch64_def
        apply_branch26_def Let_def)
  then show ?thesis
    by (auto simp: read_write_little_endian branch_imm26_opcode write_little_endian_outside
        branch_imm26_target [OF assms(4-6)])
qed

theorem aarch64_near_branch_witness:
  "\<exists>m'. resolve 2 (demo_relocation R_AARCH64_CALL26 0) [] (demo_elf_map 0x5200) (demo_elf_memory 0xB7)
      = Some (True, demo_elf_map 0x5200, m') \<and>
     branch26_target 0x400008 (read_little_endian32 m' 0x5008) = 0x400010"
proof -
  let ?m = "demo_elf_memory 0xB7" and ?r = "demo_relocation R_AARCH64_CALL26 0"
  have machine: "elf_machine ?m (map_file (demo_elf_map 0x5200)) = Machine_AARCH64"
    by (simp add: demo_machine)
  have r: "rel_type ?r = 0x11b" "rel_offset ?r = 8"
    by (simp_all add: demo_relocation_def)
  have insn: "read_little_endian32 ?m 0x5008 = 0"
    by (simp add: r demo_elf_memory_def read_little_endian32_def)
  show ?thesis
    using aarch64_near_branch [where r = ?r and stubs = "[]", OF machine _ demo_places]
    by (auto simp: r in_branch_range_def insn)
qed

text \<open>
  C17: the stub that a far branch creates jumps to the symbol when it is entered at its first
  instruction, whatever \<^verbatim>\<open>ip0\<close> holds, and takes 20 bytes; but the address that the branch is given is that
  of its second instruction, from which it jumps to an address whose upper 16 bits are those that \<^verbatim>\<open>ip0\<close>
  happens to hold.
\<close>

theorem aarch64_stub_jumps:
  assumes "getTarget S stubs = None" and "getRemainingStubSpace idx emap = Some (first, stub_end)"
    and "4 \<le> stub_end - first" and "getStubTargetAddress idx emap = Some target"
  shows "\<exists>m'. aarch64_stub S idx stubs emap m =
       Some (target + 4, shrinkRemainingStubSpace idx 20 emap, m') \<and>
     (\<forall>ip0. run_stub 5 m' first ip0 = Some S) \<and>
     (\<forall>ip0. run_stub 5 m' (first + 4) ip0 = Some (push_bit 48 (drop_bit 48 ip0) OR take_bit 48 S)) \<and>
     (\<forall>a. 20 \<le> unat (a - first) \<longrightarrow> m' a = m a)"
proof -
  have "aarch64_stub S idx stubs emap m =
      Some (target + 4, shrinkRemainingStubSpace idx 20 emap, write_aarch64_stub S first m)"
    using assms by (simp add: aarch64_stub_def linorder_not_less [symmetric])
  then show ?thesis
    using run_stub_entry run_stub_second stub_frame by blast
qed

theorem aarch64_stub_jumps_witness:
  "\<exists>m'. aarch64_stub 0x123456789ABC 1 [] (demo_elf_map 0x5200) (\<lambda>_. 0) =
       Some (0x400104, shrinkRemainingStubSpace 1 20 (demo_elf_map 0x5200), m') \<and>
     run_stub 5 m' 0x5100 0xFFFF000000000000 = Some 0x123456789ABC \<and>
     run_stub 5 m' 0x5104 0xFFFF000000000000 = Some 0xFFFF123456789ABC"
proof -
  have "getTarget 0x123456789ABC [] = None"
    and "getRemainingStubSpace 1 (demo_elf_map 0x5200) = Some (0x5100, 0x5200)"
    and "4 \<le> (0x5200 :: u64) - 0x5100" and "getStubTargetAddress 1 (demo_elf_map 0x5200) = Some 0x400100"
    by (simp_all add: getTarget_def getRemainingStubSpace_def getStubTargetAddress_def find_mapping_def
        demo_elf_map_def)
  from aarch64_stub_jumps [OF this, of "\<lambda>_. 0"] obtain m' where
    "aarch64_stub 0x123456789ABC 1 [] (demo_elf_map 0x5200) (\<lambda>_. 0) =
       Some (0x400104, shrinkRemainingStubSpace 1 20 (demo_elf_map 0x5200), m')"
    and "run_stub 5 m' 0x5100 0xFFFF000000000000 = Some 0x123456789ABC"
    and "run_stub 5 m' (0x5100 + 4) 0xFFFF000000000000 =
       Some (push_bit 48 (drop_bit 48 0xFFFF000000000000) OR take_bit 48 0x123456789ABC)"
    by auto
  then show ?thesis by (intro exI [of _ m']) simp
qed

text \<open>
  The loader writes past the end of the memory of a section: 4 free bytes suffice for a stub of 8
  bytes on Arm and of 20 bytes on AArch64.
\<close>

lemma stub_space_overrun:
  "getRemainingStubSpace 1 (demo_elf_map 0x5104) = Some (0x5100, 0x5104) \<and>
   (\<exists>emap' m'. arm_stub 0x12345678 1 [] (demo_elf_map 0x5104) (\<lambda>_. 0) = Some (0x400100, emap', m') \<and>
      m' 0x5104 = 0x78) \<and>
   (\<exists>emap' m'. aarch64_stub 0x123456789ABC 1 [] (demo_elf_map 0x5104) (\<lambda>_. 0) = Some (0x400104, emap', m') \<and>
      m' 0x5113 = 0xD6)"
  by (simp add: arm_stub_def aarch64_stub_def getTarget_def getRemainingStubSpace_def
      getStubTargetAddress_def find_mapping_def demo_elf_map_def write_aarch64_stub_def endian_defs)

text \<open>
  \<^verbatim>\<open>R_AARCH64_ADR_PREL_PG_HI21\<close> writes the upper part of the page number at bit 3 instead of bit 5, so
  \<^verbatim>\<open>adrp x1, 0\<close> resolved for a symbol 4 pages ahead becomes \<^verbatim>\<open>adrp x9, 0\<close>: the register is
  changed and the immediate is not.
\<close>

lemma adrp_field_misplaced:
  "\<exists>m'. apply_AArch64 R_AARCH64_ADR_PREL_PG_HI21 0x404010 0x400008 0x5008 1 [] (demo_elf_map 0x5200)
       (write_little_endian32 0x90000001 0x5008 (\<lambda>_. 0)) = Some (True, demo_elf_map 0x5200, m') \<and>
     read_little_endian32 m' 0x5008 = 0x90000009"
  by (simp add: apply_AArch64_def read_write_little_endian setBitRange_def getBitRange_def Let_def
      mask_eq_exp_minus_1)

end
