(* ===== verification/Metadata_Stack.thy ===== *)
theory Metadata_Stack
  imports Mux_Prelude
begin

text \<open>
  The stack of the metadata library, \<^verbatim>\<open>metadata/detail/md_stack.h\<close>, \<^verbatim>\<open>md_value.h\<close> and \<^verbatim>\<open>basic_map.h\<close>, with
  the readers of \<^verbatim>\<open>metadata.cpp\<close>. A value is a type tag and a shared pointer, so a container and the
  stack can refer to the same data; the data of a stack are a list, a pointer is a position in it, and
  new data are added at its end. Data that nothing refers to any more stay in the list. Integers are
  their 64 bits, real numbers the bits of their representation, and strings their bytes.
\<close>

section \<open>Values\<close>

datatype md_err = MD_E_OOM | MD_E_TYPE_ERR | MD_E_RANGE_ERR | MD_E_INDEX_ERR | MD_E_KEY_ERR
  | MD_E_DUPLICATE_KEY | MD_E_PRECISION_ERR | MD_E_EMPTY_STACK | MD_E_STACK_CORRUPT | MD_E_INVALID_FMT_STR
  | MD_E_INVALID_BINARY | MD_E_INVALID_KEY | MD_E_NO_HOOKS | MD_E_INVALID_FLAGS | MD_E_STACK_NOT_REGISTERED
  | MD_E_STACK_ALREADY_REGISTERED | MD_E_STACK_FINALIZED | MD_SUCCESS

datatype md_value_type = MD_TYPE_SINT | MD_TYPE_UINT | MD_TYPE_REAL | MD_TYPE_BYTESTR | MD_TYPE_ZSTR
  | MD_TYPE_ARRAY | MD_TYPE_HASH

datatype md_fmt = MD_FMT_RAW_BYTES | MD_FMT_MSGPACK | MD_FMT_JSON | MD_FMT_LLVM_BC_MD | MD_FMT_LLVM_TEXT_MD

record basic_value =
  m_type :: md_value_type
  m_data :: nat

datatype md_storage = Signed_data u64 | Unsigned_data u64 | Real_data u64 | String_data "u8 list"
  | Bytes_data "u8 list" | Array_data "basic_value list" | Map_data "(basic_value \<times> basic_value) list"

record basic_stack =
  m_store :: "md_storage list"
  m_stack :: "basic_value list"
  finalized :: bool
  out_fmt :: md_fmt

definition basic_stack_construct :: "md_fmt \<Rightarrow> basic_stack" where
  "basic_stack_construct fmt = \<lparr>m_store = [], m_stack = [], finalized = False, out_fmt = fmt\<rparr>"

text \<open>
  \<^verbatim>\<open>get\<close> reads the data of a value as the type that the caller names; \<^term>\<open>None\<close> when the pointer is invalid.
  The callers then match the data, which fails when they have another type.
\<close>

definition get_data :: "md_storage list \<Rightarrow> basic_value \<Rightarrow> md_storage option" where
  "get_data st v = (if m_data v < length st then Some (st ! m_data v) else None)"

text \<open>The data of a value that are those of its tag, for code that switches over the tag.\<close>

fun data_tag :: "md_storage \<Rightarrow> md_value_type" where
  "data_tag (Signed_data _) = MD_TYPE_SINT"
| "data_tag (Unsigned_data _) = MD_TYPE_UINT"
| "data_tag (Real_data _) = MD_TYPE_REAL"
| "data_tag (String_data _) = MD_TYPE_ZSTR"
| "data_tag (Bytes_data _) = MD_TYPE_BYTESTR"
| "data_tag (Array_data _) = MD_TYPE_ARRAY"
| "data_tag (Map_data _) = MD_TYPE_HASH"

definition get_typed :: "md_storage list \<Rightarrow> basic_value \<Rightarrow> md_storage option" where
  "get_typed st v =
     (case get_data st v of None \<Rightarrow> None | Some d \<Rightarrow> if data_tag d = m_type v then Some d else None)"

section \<open>Operations of the stack\<close>

definition stack_top :: "basic_stack \<Rightarrow> md_err + nat" where
  "stack_top s = (if m_stack s = [] then Inl MD_E_EMPTY_STACK else Inr (length (m_stack s) - 1))"

text \<open>The body that the push operations share.\<close>

definition push_value :: "md_value_type \<Rightarrow> md_storage \<Rightarrow> basic_stack \<Rightarrow> (md_err + nat) \<times> basic_stack" where
  "push_value ty d s =
     (if finalized s then (Inl MD_E_STACK_FINALIZED, s)
      else let s' = s\<lparr>m_store := m_store s @ [d],
                     m_stack := m_stack s @ [\<lparr>m_type = ty, m_data = length (m_store s)\<rparr>]\<rparr>
           in (stack_top s', s'))"

definition push_unsigned :: "u64 \<Rightarrow> basic_stack \<Rightarrow> (md_err + nat) \<times> basic_stack" where
  "push_unsigned v = push_value MD_TYPE_UINT (Unsigned_data v)"

definition push_signed :: "u64 \<Rightarrow> basic_stack \<Rightarrow> (md_err + nat) \<times> basic_stack" where
  "push_signed v = push_value MD_TYPE_SINT (Signed_data v)"

definition push_real :: "u64 \<Rightarrow> basic_stack \<Rightarrow> (md_err + nat) \<times> basic_stack" where
  "push_real v = push_value MD_TYPE_REAL (Real_data v)"

text \<open>A C string ends at its first zero byte.\<close>

definition push_zstr :: "u8 list \<Rightarrow> basic_stack \<Rightarrow> (md_err + nat) \<times> basic_stack" where
  "push_zstr v = push_value MD_TYPE_ZSTR (String_data (takeWhile (\<lambda>c. c \<noteq> 0) v))"

definition push_map :: "basic_stack \<Rightarrow> (md_err + nat) \<times> basic_stack" where
  "push_map = push_value MD_TYPE_HASH (Map_data [])"

definition push_arr :: "basic_stack \<Rightarrow> (md_err + nat) \<times> basic_stack" where
  "push_arr = push_value MD_TYPE_ARRAY (Array_data [])"

definition push_bytes :: "u8 list \<Rightarrow> basic_stack \<Rightarrow> (md_err + nat) \<times> basic_stack" where
  "push_bytes bytes = push_value MD_TYPE_BYTESTR (Bytes_data bytes)"

definition md_pop :: "basic_stack \<Rightarrow> (md_err + nat) \<times> basic_stack" where
  "md_pop s =
     (if finalized s then (Inl MD_E_STACK_FINALIZED, s)
      else if m_stack s = [] then (Inl MD_E_EMPTY_STACK, s)
      else let s' = s\<lparr>m_stack := butlast (m_stack s)\<rparr> in (stack_top s', s'))"

text \<open>\<^term>\<open>None\<close> when the data of a value are not those of its tag.\<close>

definition arr_append :: "nat \<Rightarrow> nat \<Rightarrow> basic_stack \<Rightarrow> ((md_err + nat) \<times> basic_stack) option" where
  "arr_append arr_idx elem_idx s =
     (if finalized s then Some (Inl MD_E_STACK_FINALIZED, s)
      else case stack_top s of Inl e \<Rightarrow> Some (Inl e, s)
        | Inr top_idx \<Rightarrow>
            if elem_idx \<le> arr_idx then Some (Inl MD_E_INDEX_ERR, s)
            else if elem_idx > top_idx \<or> arr_idx > top_idx then Some (Inl MD_E_INDEX_ERR, s)
            else let arr = m_stack s ! arr_idx
              in if m_type arr \<noteq> MD_TYPE_ARRAY then Some (Inl MD_E_TYPE_ERR, s)
                 else case get_data (m_store s) arr of
                     Some (Array_data vs) \<Rightarrow>
                       Some (Inr (length vs),
                         s\<lparr>m_store := (m_store s)[m_data arr := Array_data (vs @ [m_stack s ! elem_idx])]\<rparr>)
                   | _ \<Rightarrow> None)"

text \<open>
  \<^verbatim>\<open>insert\<close> of \<^verbatim>\<open>basic_map\<close>. Keys are compared with \<^verbatim>\<open>operator==\<close> of \<^verbatim>\<open>basic_value\<close>, which compares the tags and
  the pointers, not the data.
\<close>

definition map_find :: "basic_value \<Rightarrow> (basic_value \<times> 'b) list \<Rightarrow> 'b option" where
  "map_find key kvs = map_option snd (find (\<lambda>kv. fst kv = key) kvs)"

definition map_insert :: "basic_value \<times> 'b \<Rightarrow> (basic_value \<times> 'b) list \<Rightarrow> (basic_value \<times> 'b) list option" where
  "map_insert kv kvs = (case map_find (fst kv) kvs of Some _ \<Rightarrow> None | None \<Rightarrow> Some (kvs @ [kv]))"

definition hash_set_kv :: "nat \<Rightarrow> nat \<Rightarrow> nat \<Rightarrow> basic_stack \<Rightarrow> ((md_err + nat) \<times> basic_stack) option" where
  "hash_set_kv map_idx key_idx val_idx s =
     (if finalized s then Some (Inl MD_E_STACK_FINALIZED, s)
      else case stack_top s of Inl e \<Rightarrow> Some (Inl e, s)
        | Inr top_idx \<Rightarrow>
            if key_idx \<le> map_idx \<or> val_idx \<le> map_idx then Some (Inl MD_E_INDEX_ERR, s)
            else if map_idx > top_idx \<or> key_idx > top_idx \<or> val_idx > top_idx
            then Some (Inl MD_E_INDEX_ERR, s)
            else let map_elem = m_stack s ! map_idx; key = m_stack s ! key_idx
              in if m_type map_elem \<noteq> MD_TYPE_HASH then Some (Inl MD_E_TYPE_ERR, s)
                 else if m_type key = MD_TYPE_HASH \<or> m_type key = MD_TYPE_ARRAY \<or> m_type key = MD_TYPE_BYTESTR
                 then Some (Inl MD_E_KEY_ERR, s)
                 else case get_data (m_store s) map_elem of
                     Some (Map_data kvs) \<Rightarrow>
                       (case map_insert (key, m_stack s ! val_idx) kvs of
                          None \<Rightarrow> Some (Inl MD_E_DUPLICATE_KEY, s)
                        | Some kvs' \<Rightarrow> Some (Inr (length kvs' - 1),
                            s\<lparr>m_store := (m_store s)[m_data map_elem := Map_data kvs']\<rparr>))
                   | _ \<Rightarrow> None)"

definition freeze_stack :: "basic_stack \<Rightarrow> md_err \<times> basic_stack" where
  "freeze_stack s =
     (if finalized s then (MD_E_STACK_FINALIZED, s) else (MD_SUCCESS, s\<lparr>finalized := True\<rparr>))"

definition set_out_fmt :: "md_fmt \<Rightarrow> basic_stack \<Rightarrow> basic_stack" where
  "set_out_fmt fmt s = s\<lparr>out_fmt := fmt\<rparr>"

section \<open>Reading values\<close>

definition md_get_value :: "nat \<Rightarrow> basic_stack \<Rightarrow> basic_value option" where
  "md_get_value idx s =
     (case stack_top s of Inl _ \<Rightarrow> None | Inr t \<Rightarrow> if idx > t then None else Some (m_stack s ! idx))"

text \<open>The getters: an error code or the value; \<^term>\<open>None\<close> when the tag and the data disagree.\<close>

definition md_get_uint :: "md_storage list \<Rightarrow> basic_value \<Rightarrow> (md_err + u64) option" where
  "md_get_uint st v =
     (if m_type v \<noteq> MD_TYPE_UINT then Some (Inl MD_E_TYPE_ERR)
      else case get_data st v of Some (Unsigned_data n) \<Rightarrow> Some (Inr n) | _ \<Rightarrow> None)"

definition md_get_sint :: "md_storage list \<Rightarrow> basic_value \<Rightarrow> (md_err + u64) option" where
  "md_get_sint st v =
     (if m_type v \<noteq> MD_TYPE_SINT then Some (Inl MD_E_TYPE_ERR)
      else case get_data st v of Some (Signed_data n) \<Rightarrow> Some (Inr n) | _ \<Rightarrow> None)"

definition md_get_real :: "md_storage list \<Rightarrow> basic_value \<Rightarrow> (md_err + u64) option" where
  "md_get_real st v =
     (if m_type v \<noteq> MD_TYPE_REAL then Some (Inl MD_E_TYPE_ERR)
      else case get_data st v of Some (Real_data n) \<Rightarrow> Some (Inr n) | _ \<Rightarrow> None)"

text \<open>The bytes with their length, and the string with its terminating zero.\<close>

definition md_get_bytes :: "md_storage list \<Rightarrow> basic_value \<Rightarrow> (md_err + u8 list) option" where
  "md_get_bytes st v =
     (if m_type v \<noteq> MD_TYPE_BYTESTR then Some (Inl MD_E_TYPE_ERR)
      else case get_data st v of Some (Bytes_data bs) \<Rightarrow> Some (Inr bs) | _ \<Rightarrow> None)"

definition md_get_zstr :: "md_storage list \<Rightarrow> basic_value \<Rightarrow> (md_err + u8 list) option" where
  "md_get_zstr st v =
     (if m_type v \<noteq> MD_TYPE_ZSTR then Some (Inl MD_E_TYPE_ERR)
      else case get_data st v of Some (String_data bs) \<Rightarrow> Some (Inr (bs @ [0])) | _ \<Rightarrow> None)"

definition md_get_array_idx :: "md_storage list \<Rightarrow> basic_value \<Rightarrow> nat \<Rightarrow> (md_err + basic_value) option" where
  "md_get_array_idx st v idx =
     (if m_type v \<noteq> MD_TYPE_ARRAY then Some (Inl MD_E_TYPE_ERR)
      else case get_data st v of
          Some (Array_data vs) \<Rightarrow>
            Some (if idx \<ge> length vs then Inl MD_E_INDEX_ERR else Inr (vs ! idx))
        | _ \<Rightarrow> None)"

definition md_get_array_size :: "md_storage list \<Rightarrow> basic_value \<Rightarrow> (md_err + nat) option" where
  "md_get_array_size st v =
     (if m_type v \<noteq> MD_TYPE_ARRAY then Some (Inl MD_E_TYPE_ERR)
      else case get_data st v of Some (Array_data vs) \<Rightarrow> Some (Inr (length vs)) | _ \<Rightarrow> None)"

definition md_get_hashtable_key ::
  "md_storage list \<Rightarrow> basic_value \<Rightarrow> basic_value \<Rightarrow> (md_err + basic_value) option" where
  "md_get_hashtable_key st ht key =
     (if m_type ht \<noteq> MD_TYPE_HASH then Some (Inl MD_E_TYPE_ERR)
      else case get_data st ht of
          Some (Map_data kvs) \<Rightarrow>
            Some (case map_find key kvs of None \<Rightarrow> Inl MD_E_INVALID_KEY | Some v \<Rightarrow> Inr v)
        | _ \<Rightarrow> None)"

section \<open>Well-formed stacks\<close>

text \<open>
  The tag of every value is that of its data. The values of a container come after it in the data, so
  following pointers ends; the keys of a map are scalars, and no two of them are the same value.
\<close>

fun contents :: "md_storage \<Rightarrow> basic_value list" where
  "contents (Array_data vs) = vs"
| "contents (Map_data kvs) = map fst kvs @ map snd kvs"
| "contents _ = []"

definition typed :: "md_storage list \<Rightarrow> basic_value \<Rightarrow> bool" where
  "typed st v \<longleftrightarrow> m_data v < length st \<and> m_type v = data_tag (st ! m_data v)"

definition scalar_tag :: "md_value_type \<Rightarrow> bool" where
  "scalar_tag ty \<longleftrightarrow> ty \<noteq> MD_TYPE_HASH \<and> ty \<noteq> MD_TYPE_ARRAY \<and> ty \<noteq> MD_TYPE_BYTESTR"

fun keys_ok :: "md_storage \<Rightarrow> bool" where
  "keys_ok (Map_data kvs) \<longleftrightarrow> distinct (map fst kvs) \<and> (\<forall>kv \<in> set kvs. scalar_tag (m_type (fst kv)))"
| "keys_ok _ \<longleftrightarrow> True"

definition data_ok :: "md_storage list \<Rightarrow> nat \<Rightarrow> md_storage \<Rightarrow> bool" where
  "data_ok st r d \<longleftrightarrow> keys_ok d \<and> (\<forall>v \<in> set (contents d). r < m_data v \<and> typed st v)"

definition store_ok :: "md_storage list \<Rightarrow> bool" where
  "store_ok st \<longleftrightarrow> (\<forall>r < length st. data_ok st r (st ! r))"

definition stack_ok :: "basic_stack \<Rightarrow> bool" where
  "stack_ok s \<longleftrightarrow> store_ok (m_store s) \<and> (\<forall>v \<in> set (m_stack s). typed (m_store s) v) \<and>
     sorted_wrt (<) (map m_data (m_stack s))"

lemma typed_append: "typed st v \<Longrightarrow> typed (st @ ds) v"
  by (simp add: typed_def nth_append)

lemma typed_update: "data_tag d = data_tag (st ! r) \<Longrightarrow> typed (st[r := d]) v \<longleftrightarrow> typed st v"
  by (cases "r < length st") (auto simp: typed_def nth_list_update)

lemma data_ok_append: "data_ok st r d \<Longrightarrow> data_ok (st @ ds) r d"
  by (auto simp: data_ok_def typed_append)

lemma data_ok_update: "data_tag d' = data_tag (st ! i) \<Longrightarrow> data_ok (st[i := d']) r d \<longleftrightarrow> data_ok st r d"
  by (simp add: data_ok_def typed_update)

lemma stack_ok_construct: "stack_ok (basic_stack_construct fmt)"
  by (simp add: basic_stack_construct_def stack_ok_def store_ok_def)

text \<open>A new value is put after all the data.\<close>

lemma stack_ok_push:
  assumes "stack_ok s" and "contents d = []" and "keys_ok d" and "ty = data_tag d"
  shows "stack_ok (snd (push_value ty d s))"
proof -
  have "store_ok (m_store s @ [d])"
    using assms by (auto simp: stack_ok_def store_ok_def nth_append less_Suc_eq data_ok_append)
      (simp add: data_ok_def)
  moreover have "typed (m_store s @ [d]) \<lparr>m_type = ty, m_data = length (m_store s)\<rparr>"
    by (simp add: typed_def assms(4))
  moreover have "sorted_wrt (<) (map m_data (m_stack s) @ [length (m_store s)])"
    using assms(1) by (auto simp: stack_ok_def sorted_wrt_append typed_def)
  ultimately show ?thesis
    using assms(1) by (auto simp: push_value_def stack_ok_def typed_append Let_def)
qed

lemma stack_ok_pop:
  assumes "stack_ok s"
  shows "stack_ok (snd (md_pop s))"
proof (cases "m_stack s" rule: rev_cases)
  case Nil
  then show ?thesis using assms by (simp add: md_pop_def)
next
  case (snoc vs v)
  then show ?thesis using assms by (simp add: md_pop_def Let_def stack_ok_def sorted_wrt_append)
qed

text \<open>A container that grows by values above it.\<close>

lemma stack_ok_grow:
  assumes "stack_ok s" and "data_tag d = data_tag (m_store s ! r)" and "data_ok (m_store s) r d"
  shows "stack_ok (s\<lparr>m_store := (m_store s)[r := d]\<rparr>)"
proof -
  have "store_ok ((m_store s)[r := d])"
    using assms unfolding store_ok_def stack_ok_def
    by (metis data_ok_update length_list_update nth_list_update_eq nth_list_update_neq)
  then show ?thesis
    using assms by (simp add: stack_ok_def typed_update)
qed

lemma typed_data:
  assumes "typed st v"
  shows "get_data st v = Some (st ! m_data v)" and "data_tag (st ! m_data v) = m_type v"
  using assms by (simp_all add: typed_def get_data_def)

lemma typed_get_typed: "typed st v \<Longrightarrow> get_typed st v = Some (st ! m_data v)"
  by (simp add: get_typed_def typed_data)

lemma array_dataE:
  assumes "typed st v" and "m_type v = MD_TYPE_ARRAY"
  obtains vs where "st ! m_data v = Array_data vs"
  using typed_data(2) [OF assms(1)] assms(2) by (cases "st ! m_data v") auto

lemma map_dataE:
  assumes "typed st v" and "m_type v = MD_TYPE_HASH"
  obtains kvs where "st ! m_data v = Map_data kvs"
  using typed_data(2) [OF assms(1)] assms(2) by (cases "st ! m_data v") auto

lemma stack_valueD:
  assumes "stack_ok s" and "i < length (m_stack s)"
  shows "typed (m_store s) (m_stack s ! i)"
    and "data_ok (m_store s) (m_data (m_stack s ! i)) (m_store s ! m_data (m_stack s ! i))"
  using assms by (simp_all add: stack_ok_def store_ok_def typed_def)

lemma stack_order:
  assumes "stack_ok s" and "i < j" and "j < length (m_stack s)"
  shows "m_data (m_stack s ! i) < m_data (m_stack s ! j)"
  using sorted_wrt_nth_less [of "(<)" "map m_data (m_stack s)" i j] assms by (simp add: stack_ok_def)

lemma top_bound: "stack_top s = Inr t \<Longrightarrow> i \<le> t \<Longrightarrow> i < length (m_stack s)"
  by (cases "m_stack s") (auto simp: stack_top_def)

lemma arr_append_ok:
  assumes "stack_ok s"
  shows "\<exists>r s'. arr_append arr_idx elem_idx s = Some (r, s') \<and> stack_ok s'"
proof (cases "\<exists>t. stack_top s = Inr t \<and> arr_idx < elem_idx \<and> elem_idx \<le> t \<and>
    m_type (m_stack s ! arr_idx) = MD_TYPE_ARRAY \<and> \<not> finalized s")
  case True
  then obtain t where t: "stack_top s = Inr t" "arr_idx < elem_idx" "elem_idx \<le> t"
    "m_type (m_stack s ! arr_idx) = MD_TYPE_ARRAY" "\<not> finalized s"
    by blast
  then have len: "elem_idx < length (m_stack s)" "arr_idx < length (m_stack s)"
    using top_bound [OF t(1)] by auto
  let ?arr = "m_stack s ! arr_idx"
  obtain vs where vs: "m_store s ! m_data ?arr = Array_data vs"
    using array_dataE [OF stack_valueD(1) [OF assms len(2)] t(4)] .
  have "data_ok (m_store s) (m_data ?arr) (Array_data (vs @ [m_stack s ! elem_idx]))"
    using stack_valueD [OF assms len(2)] stack_valueD(1) [OF assms len(1)] stack_order [OF assms t(2) len(1)]
    by (auto simp: vs data_ok_def)
  from stack_ok_grow [OF assms _ this] show ?thesis
    using t len typed_data(1) [OF stack_valueD(1) [OF assms len(2)]] by (simp add: arr_append_def vs Let_def)
next
  case False
  then show ?thesis
    using assms by (auto simp: arr_append_def Let_def not_less not_le split: sum.split)
qed

lemma map_insert_keys:
  assumes "map_insert (k, v) kvs = Some kvs'" and "keys_ok (Map_data kvs)" and "scalar_tag (m_type k)"
  shows "kvs' = kvs @ [(k, v)]" and "keys_ok (Map_data kvs')"
  using assms by (auto simp: map_insert_def map_find_def find_None_iff split: option.splits)

lemma hash_set_kv_ok:
  assumes "stack_ok s"
  shows "\<exists>r s'. hash_set_kv map_idx key_idx val_idx s = Some (r, s') \<and> stack_ok s'"
proof (cases "\<exists>t. stack_top s = Inr t \<and> map_idx < key_idx \<and> map_idx < val_idx \<and> key_idx \<le> t \<and> val_idx \<le> t \<and>
    m_type (m_stack s ! map_idx) = MD_TYPE_HASH \<and> scalar_tag (m_type (m_stack s ! key_idx)) \<and> \<not> finalized s")
  case True
  then obtain t where t: "stack_top s = Inr t" "map_idx < key_idx" "map_idx < val_idx" "key_idx \<le> t"
    "val_idx \<le> t" "m_type (m_stack s ! map_idx) = MD_TYPE_HASH" "scalar_tag (m_type (m_stack s ! key_idx))"
    "\<not> finalized s"
    by blast
  then have len: "map_idx < length (m_stack s)" "key_idx < length (m_stack s)" "val_idx < length (m_stack s)"
    using top_bound [OF t(1)] by auto
  let ?map = "m_stack s ! map_idx" and ?kv = "(m_stack s ! key_idx, m_stack s ! val_idx)"
  obtain kvs where kvs: "m_store s ! m_data ?map = Map_data kvs"
    using map_dataE [OF stack_valueD(1) [OF assms len(1)] t(6)] .
  have run: "hash_set_kv map_idx key_idx val_idx s = (case map_insert ?kv kvs of
      None \<Rightarrow> Some (Inl MD_E_DUPLICATE_KEY, s)
    | Some kvs' \<Rightarrow> Some (Inr (length kvs' - 1), s\<lparr>m_store := (m_store s)[m_data ?map := Map_data kvs']\<rparr>))"
    using t len typed_data(1) [OF stack_valueD(1) [OF assms len(1)]]
    by (simp add: hash_set_kv_def kvs Let_def scalar_tag_def)
  show ?thesis
  proof (cases "map_insert ?kv kvs")
    case None
    then show ?thesis using run assms by simp
  next
    case (Some kvs')
    have ok: "data_ok (m_store s) (m_data ?map) (Map_data kvs)"
      using stack_valueD(2) [OF assms len(1)] by (simp add: kvs)
    then have "data_ok (m_store s) (m_data ?map) (Map_data kvs')"
      using map_insert_keys [OF Some _ t(7)] stack_valueD(1) [OF assms] len
        stack_order [OF assms t(2) len(2)] stack_order [OF assms t(3) len(3)]
      by (auto simp: data_ok_def)
    from stack_ok_grow [OF assms _ this] show ?thesis
      using run Some by (simp add: kvs)
  qed
next
  case False
  then show ?thesis
    using assms by (auto simp: hash_set_kv_def Let_def scalar_tag_def not_less not_le split: sum.split)
qed

section \<open>Sequences of operations\<close>

datatype md_op = Push_unsigned u64 | Push_signed u64 | Push_real u64 | Push_zstr "u8 list" | Push_bytes "u8 list"
  | Push_arr | Push_map | Pop | Arr_append nat nat | Hash_set_kv nat nat nat | Freeze_stack | Set_out_fmt md_fmt

fun md_exec :: "md_op \<Rightarrow> basic_stack \<Rightarrow> basic_stack option" where
  "md_exec (Push_unsigned v) s = Some (snd (push_unsigned v s))"
| "md_exec (Push_signed v) s = Some (snd (push_signed v s))"
| "md_exec (Push_real v) s = Some (snd (push_real v s))"
| "md_exec (Push_zstr v) s = Some (snd (push_zstr v s))"
| "md_exec (Push_bytes v) s = Some (snd (push_bytes v s))"
| "md_exec Push_arr s = Some (snd (push_arr s))"
| "md_exec Push_map s = Some (snd (push_map s))"
| "md_exec Pop s = Some (snd (md_pop s))"
| "md_exec (Arr_append i j) s = map_option snd (arr_append i j s)"
| "md_exec (Hash_set_kv i j k) s = map_option snd (hash_set_kv i j k s)"
| "md_exec Freeze_stack s = Some (snd (freeze_stack s))"
| "md_exec (Set_out_fmt fmt) s = Some (set_out_fmt fmt s)"

fun md_run :: "md_op list \<Rightarrow> basic_stack \<Rightarrow> basic_stack option" where
  "md_run [] s = Some s"
| "md_run (x # xs) s = (case md_exec x s of None \<Rightarrow> None | Some s' \<Rightarrow> md_run xs s')"

lemmas push_defs = push_unsigned_def push_signed_def push_real_def push_zstr_def push_bytes_def push_arr_def
  push_map_def

lemma stack_ok_flags: "stack_ok s \<Longrightarrow> stack_ok (snd (freeze_stack s))" "stack_ok s \<Longrightarrow> stack_ok (set_out_fmt fmt s)"
  by (simp_all add: freeze_stack_def set_out_fmt_def stack_ok_def)

lemma md_exec_ok:
  assumes "stack_ok s"
  shows "\<exists>s'. md_exec x s = Some s' \<and> stack_ok s'"
proof (cases x)
  case (Arr_append i j)
  then show ?thesis using arr_append_ok [OF assms, of i j] by auto
next
  case (Hash_set_kv i j k)
  then show ?thesis using hash_set_kv_ok [OF assms, of i j k] by auto
qed (use assms in \<open>simp_all add: push_defs stack_ok_push stack_ok_pop stack_ok_flags\<close>)

text \<open>No reader finds data of another type than the tag of the value says.\<close>

definition readable :: "md_storage list \<Rightarrow> basic_value \<Rightarrow> bool" where
  "readable st v \<longleftrightarrow> md_get_uint st v \<noteq> None \<and> md_get_sint st v \<noteq> None \<and> md_get_real st v \<noteq> None \<and>
     md_get_bytes st v \<noteq> None \<and> md_get_zstr st v \<noteq> None \<and> (\<forall>i. md_get_array_idx st v i \<noteq> None) \<and>
     md_get_array_size st v \<noteq> None \<and> (\<forall>k. md_get_hashtable_key st v k \<noteq> None)"

lemmas getter_defs = md_get_uint_def md_get_sint_def md_get_real_def md_get_bytes_def md_get_zstr_def
  md_get_array_idx_def md_get_array_size_def md_get_hashtable_key_def

lemma typed_readable:
  assumes "typed st v"
  shows "readable st v"
  using typed_data [OF assms] by (cases "st ! m_data v") (auto simp: readable_def getter_defs)

lemma md_run_ok: "stack_ok s \<Longrightarrow> \<exists>s'. md_run xs s = Some s' \<and> stack_ok s'"
proof (induction xs arbitrary: s)
  case (Cons x xs)
  then show ?case using md_exec_ok [of s x] by auto
qed simp

text \<open>
  C15: whatever operations a client performs on a new metadata stack, successful or not, each value on
  the stack and in a container carries the tag of the data it points to, so that every typed read is
  defined, and the values of a container lie after it in the data, so that no container reaches itself.
\<close>

theorem stack_well_typed:
  "\<exists>s. md_run xs (basic_stack_construct fmt) = Some s \<and> stack_ok s \<and>
     list_all (readable (m_store s)) (m_stack s @ concat (map contents (m_store s)))"
proof -
  obtain s where s: "md_run xs (basic_stack_construct fmt) = Some s" "stack_ok s"
    using md_run_ok [OF stack_ok_construct] by blast
  then have "\<forall>v \<in> set (m_stack s @ concat (map contents (m_store s))). typed (m_store s) v"
    by (auto simp: stack_ok_def store_ok_def data_ok_def in_set_conv_nth [of _ "m_store s"])
  then show ?thesis
    using s typed_readable by (fastforce simp: list_all_iff)
qed

end
