(* ===== verification/Metadata_Serializer.thy ===== *)
theory Metadata_Serializer
  imports Metadata_Stack Cargo_Endian
begin

text \<open>
  The serializers of metadata stacks, \<^verbatim>\<open>metadata/detail/stack_serializer.h\<close>: raw bytes, and the subset of
  MessagePack that the library reads and writes. Bytes are lists, a pointer into a binary is the rest
  of its bytes, and \<^term>\<open>None\<close> is a read past the end, a failed assertion, or data of the wrong type.
  Recursion over the data of a stack has fuel; the number of data is enough of it. The host is
  little-endian.
\<close>

section \<open>Numbers\<close>

abbreviation (input) MD_ENDIAN_LITTLE :: u8 where "MD_ENDIAN_LITTLE \<equiv> 0x01"
abbreviation (input) MD_ENDIAN_BIG :: u8 where "MD_ENDIAN_BIG \<equiv> 0x02"

text \<open>The number with the given bytes, the lowest first, as \<^verbatim>\<open>read_little_endian\<close> combines them.\<close>

primrec bytes_value :: "u8 list \<Rightarrow> u64" where
  "bytes_value [] = 0"
| "bytes_value (b # bs) = or (ucast b) (push_bit 8 (bytes_value bs))"

definition swap_bytes :: "nat \<Rightarrow> u64 \<Rightarrow> u64" where
  "swap_bytes w v = bytes_value (rev (le_bytes w v))"

definition read_value :: "nat \<Rightarrow> u8 list \<Rightarrow> u8 \<Rightarrow> u64 option" where
  "read_value w bs endianness =
     (if length bs < w then None
      else let le = bytes_value (take w bs)
           in Some (if endianness = MD_ENDIAN_BIG then swap_bytes w le else le))"

definition serialize_number :: "nat \<Rightarrow> u64 \<Rightarrow> u8 \<Rightarrow> u8 list" where
  "serialize_number w num endianness =
     (if MD_ENDIAN_LITTLE \<noteq> endianness then rev (le_bytes w num) else le_bytes w num)"

section \<open>Raw bytes\<close>

fun raw_element :: "nat \<Rightarrow> u8 \<Rightarrow> md_storage list \<Rightarrow> basic_value \<Rightarrow> u8 list option" where
  "raw_element 0 e st v = None"
| "raw_element (Suc k) e st v =
     (case get_typed st v of
        Some (Signed_data n) \<Rightarrow> Some (serialize_number 8 n e)
      | Some (Unsigned_data n) \<Rightarrow> Some (serialize_number 8 n e)
      | Some (Real_data n) \<Rightarrow> Some (serialize_number 8 n e)
      | Some (String_data str) \<Rightarrow> Some (str @ [0])
      | Some (Bytes_data bs) \<Rightarrow> Some bs
      | Some (Array_data vs) \<Rightarrow> map_option concat (those (map (raw_element k e st) vs))
      | Some (Map_data kvs) \<Rightarrow>
          map_option concat (those (concat (map (\<lambda>kv. [raw_element k e st (fst kv), raw_element k e st (snd kv)]) kvs)))
      | _ \<Rightarrow> None)"

definition raw_serialize :: "u8 \<Rightarrow> basic_stack \<Rightarrow> u8 list option" where
  "raw_serialize e s =
     map_option concat (those (map (raw_element (length (m_store s)) e (m_store s)) (m_stack s)))"

definition raw_deserialize :: "u8 list \<Rightarrow> nat \<Rightarrow> basic_stack \<Rightarrow> basic_stack option" where
  "raw_deserialize data block_len s =
     (if length data < block_len then None else Some (snd (push_bytes (take block_len data) s)))"

section \<open>MessagePack\<close>

abbreviation (input) MSG_PACK_UINT_64 :: u8 where "MSG_PACK_UINT_64 \<equiv> 0xcf"
abbreviation (input) MSG_PACK_INT_64 :: u8 where "MSG_PACK_INT_64 \<equiv> 0xd3"
abbreviation (input) MSG_PACK_DOUBLE :: u8 where "MSG_PACK_DOUBLE \<equiv> 0xcb"
abbreviation (input) MSG_PACK_STR_16 :: u8 where "MSG_PACK_STR_16 \<equiv> 0xda"
abbreviation (input) MSG_PACK_BIN_16 :: u8 where "MSG_PACK_BIN_16 \<equiv> 0xc5"
abbreviation (input) MSG_PACK_BIN_32 :: u8 where "MSG_PACK_BIN_32 \<equiv> 0xc6"
abbreviation (input) MSG_PACK_ARR_16 :: u8 where "MSG_PACK_ARR_16 \<equiv> 0xdc"
abbreviation (input) MSG_PACK_MAP_16 :: u8 where "MSG_PACK_MAP_16 \<equiv> 0xde"

text \<open>Lengths are cut to 16 bits, those of long byte strings to 32 bits.\<close>

fun serialize_element :: "nat \<Rightarrow> md_storage list \<Rightarrow> basic_value \<Rightarrow> u8 list option" where
  "serialize_element 0 st v = None"
| "serialize_element (Suc k) st v =
     (case get_typed st v of
        Some (Unsigned_data n) \<Rightarrow> Some (MSG_PACK_UINT_64 # serialize_number 8 n MD_ENDIAN_BIG)
      | Some (Signed_data n) \<Rightarrow> Some (MSG_PACK_INT_64 # serialize_number 8 n MD_ENDIAN_BIG)
      | Some (Real_data n) \<Rightarrow> Some (MSG_PACK_DOUBLE # serialize_number 8 n MD_ENDIAN_BIG)
      | Some (String_data str) \<Rightarrow>
          Some (MSG_PACK_STR_16 # serialize_number 2 (of_nat (length str)) MD_ENDIAN_BIG @ str)
      | Some (Bytes_data bs) \<Rightarrow>
          Some (if length bs \<ge> 65535
                then MSG_PACK_BIN_32 # serialize_number 4 (of_nat (length bs)) MD_ENDIAN_BIG @ bs
                else MSG_PACK_BIN_16 # serialize_number 2 (of_nat (length bs)) MD_ENDIAN_BIG @ bs)
      | Some (Array_data vs) \<Rightarrow>
          map_option (\<lambda>bss. MSG_PACK_ARR_16 # serialize_number 2 (of_nat (length vs)) MD_ENDIAN_BIG @ concat bss)
            (those (map (serialize_element k st) vs))
      | Some (Map_data kvs) \<Rightarrow>
          map_option (\<lambda>bss. MSG_PACK_MAP_16 # serialize_number 2 (of_nat (length kvs)) MD_ENDIAN_BIG @ concat bss)
            (those (concat (map (\<lambda>kv. [serialize_element k st (fst kv), serialize_element k st (snd kv)]) kvs)))
      | _ \<Rightarrow> None)"

definition msgpack_serialize :: "basic_stack \<Rightarrow> u8 list option" where
  "msgpack_serialize s =
     map_option concat (those (map (serialize_element (length (m_store s)) (m_store s)) (m_stack s)))"

text \<open>
  Reading a number or a length and the bytes that follow it; and the loops over the elements of an
  array and of a map, given the reader of an element, which append the values at the top of the stack to the container and pop them.
\<close>

definition read_sized :: "nat \<Rightarrow> u8 list \<Rightarrow> (u8 list \<times> u8 list) option" where
  "read_sized w data =
     (case read_value w data MD_ENDIAN_BIG of None \<Rightarrow> None
      | Some n \<Rightarrow> let rest = drop w data
          in if length rest < unat n then None else Some (take (unat n) rest, drop (unat n) rest))"

definition append_top :: "nat \<Rightarrow> basic_stack \<Rightarrow> basic_stack option" where
  "append_top arr_idx s =
     (case stack_top s of Inl _ \<Rightarrow> None
      | Inr t \<Rightarrow> map_option (\<lambda>(_, s'). snd (md_pop s')) (arr_append arr_idx t s))"

definition set_top :: "nat \<Rightarrow> basic_stack \<Rightarrow> basic_stack option" where
  "set_top map_idx s =
     (case stack_top s of Inl _ \<Rightarrow> None
      | Inr t \<Rightarrow> map_option (\<lambda>(_, s'). snd (md_pop (snd (md_pop s')))) (hash_set_kv map_idx (t - 1) t s))"

primrec deserialize_items ::
  "(u8 \<Rightarrow> u8 list \<Rightarrow> basic_stack \<Rightarrow> (u8 list \<times> basic_stack) option) \<Rightarrow> nat \<Rightarrow> nat \<Rightarrow> u8 list \<Rightarrow> basic_stack
    \<Rightarrow> (u8 list \<times> basic_stack) option" where
  "deserialize_items elem arr_idx 0 data s = Some (data, s)"
| "deserialize_items elem arr_idx (Suc n) data s =
     (case data of [] \<Rightarrow> None
      | ty # data1 \<Rightarrow>
         (case elem ty data1 s of None \<Rightarrow> None
          | Some (data2, s1) \<Rightarrow>
             (case append_top arr_idx s1 of None \<Rightarrow> None
              | Some s2 \<Rightarrow> deserialize_items elem arr_idx n data2 s2)))"

primrec deserialize_pairs ::
  "(u8 \<Rightarrow> u8 list \<Rightarrow> basic_stack \<Rightarrow> (u8 list \<times> basic_stack) option) \<Rightarrow> nat \<Rightarrow> nat \<Rightarrow> u8 list \<Rightarrow> basic_stack
    \<Rightarrow> (u8 list \<times> basic_stack) option" where
  "deserialize_pairs elem map_idx 0 data s = Some (data, s)"
| "deserialize_pairs elem map_idx (Suc n) data s =
     (case data of [] \<Rightarrow> None
      | key_type # data1 \<Rightarrow>
         (case elem key_type data1 s of None \<Rightarrow> None
          | Some ([], _) \<Rightarrow> None
          | Some (val_type # data2, s1) \<Rightarrow>
             (case elem val_type data2 s1 of None \<Rightarrow> None
              | Some (data3, s2) \<Rightarrow>
                 (case set_top map_idx s2 of None \<Rightarrow> None
                  | Some s3 \<Rightarrow> deserialize_pairs elem map_idx n data3 s3))))"

primrec deserialize_element :: "nat \<Rightarrow> u8 \<Rightarrow> u8 list \<Rightarrow> basic_stack \<Rightarrow> (u8 list \<times> basic_stack) option" where
  "deserialize_element 0 fmt data s = None"
| "deserialize_element (Suc k) fmt data s =
     (if fmt = MSG_PACK_UINT_64
      then map_option (\<lambda>n. (drop 8 data, snd (push_unsigned n s))) (read_value 8 data MD_ENDIAN_BIG)
      else if fmt = MSG_PACK_INT_64
      then map_option (\<lambda>n. (drop 8 data, snd (push_signed n s))) (read_value 8 data MD_ENDIAN_BIG)
      else if fmt = MSG_PACK_DOUBLE
      then map_option (\<lambda>n. (drop 8 data, snd (push_real n s))) (read_value 8 data MD_ENDIAN_BIG)
      else if fmt = MSG_PACK_BIN_16
      then map_option (\<lambda>(bs, rest). (rest, snd (push_bytes bs s))) (read_sized 2 data)
      else if fmt = MSG_PACK_BIN_32
      then map_option (\<lambda>(bs, rest). (rest, snd (push_bytes bs s))) (read_sized 4 data)
      else if fmt = MSG_PACK_STR_16
      then map_option (\<lambda>(bs, rest). (rest, snd (push_zstr bs s))) (read_sized 2 data)
      else if fmt = MSG_PACK_ARR_16
      then case read_value 2 data MD_ENDIAN_BIG of None \<Rightarrow> None
        | Some arr_len \<Rightarrow>
           (case push_arr s of (Inl _, _) \<Rightarrow> None
            | (Inr arr_idx, s1) \<Rightarrow> deserialize_items (deserialize_element k) arr_idx (unat arr_len) (drop 2 data) s1)
      else if fmt = MSG_PACK_MAP_16
      then case read_value 2 data MD_ENDIAN_BIG of None \<Rightarrow> None
        | Some map_len \<Rightarrow>
           (case push_map s of (Inl _, _) \<Rightarrow> None
            | (Inr map_idx, s1) \<Rightarrow> deserialize_pairs (deserialize_element k) map_idx (unat map_len) (drop 2 data) s1)
      else None)"

text \<open>
  The loop over a block, given the rest of the binary and the number of bytes of the block that are
  left; an element may end after the block. Each element consumes its type byte, so the number of bytes
  is enough fuel.
\<close>

fun deserialize_block :: "nat \<Rightarrow> u8 list \<Rightarrow> int \<Rightarrow> basic_stack \<Rightarrow> basic_stack option" where
  "deserialize_block 0 data left s = (if left > 0 then None else Some s)"
| "deserialize_block (Suc k) data left s =
     (if left > 0
      then case data of [] \<Rightarrow> None
        | ty # data1 \<Rightarrow>
           (case deserialize_element (length data) ty data1 s of None \<Rightarrow> None
            | Some (data2, s1) \<Rightarrow>
                deserialize_block k data2 (left - int (length data) + int (length data2)) s1)
      else Some s)"

definition msgpack_deserialize :: "u8 list \<Rightarrow> nat \<Rightarrow> basic_stack \<Rightarrow> basic_stack option" where
  "msgpack_deserialize data block_len s = deserialize_block (length data) data (int block_len) s"

text \<open>\<^verbatim>\<open>finalize\<close> of a stack: the bytes of its values in its format; the stack is then empty.\<close>

definition stack_finalize :: "u8 \<Rightarrow> basic_stack \<Rightarrow> (u8 list \<times> basic_stack) option" where
  "stack_finalize e s =
     map_option (\<lambda>bytes. (bytes, s\<lparr>m_stack := []\<rparr>))
       (case out_fmt s of
          MD_FMT_RAW_BYTES \<Rightarrow> raw_serialize e s
        | MD_FMT_MSGPACK \<Rightarrow> msgpack_serialize s
        | _ \<Rightarrow> None)"

end
