(* ===== verification/Metadata_Trees.thy ===== *)
theory Metadata_Trees
  imports Metadata_Serializer
begin

text \<open>
  What the values of a metadata stack stand for, and what the serializers write for them: the trees that
  the data of a stack denote, their encodings in both formats, and that a well-typed stack can always
  be serialized. Numbers that are written are read back, in either byte order.
\<close>

section \<open>Round trip of numbers\<close>

lemma bit_bytes_value:
  "bit (bytes_value bs) n \<longleftrightarrow> n < 64 \<and> n div 8 < length bs \<and> bit (bs ! (n div 8)) (n mod 8)"
proof (induction bs arbitrary: n)
  case (Cons b bs)
  show ?case
  proof (cases "n < 8")
    case True
    then show ?thesis
      by (simp add: bit_or_iff bit_unsigned_iff bit_push_bit_iff)
  next
    case False
    then have "n div 8 = Suc ((n - 8) div 8)" and "(n - 8) mod 8 = n mod 8"
      by (simp_all add: le_div_geq le_mod_geq)
    then show ?thesis
      using False by (auto simp: bit_or_iff bit_unsigned_iff bit_push_bit_iff Cons.IH dest: bit_imp_le_length)
  qed
qed simp

lemma bit_le_bytes: "i < w \<Longrightarrow> bit (le_bytes w v ! i) j \<longleftrightarrow> j < 8 \<and> bit v (8 * i + j)"
  by (simp add: le_bytes_def byte_of_def bit_unsigned_iff bit_drop_bit_eq)

lemma bytes_value_le_bytes: "bytes_value (le_bytes w v) = take_bit (8 * w) v"
proof (rule bit_word_eqI)
  fix n
  assume "n < LENGTH(64)"
  moreover have "n div 8 < w \<longleftrightarrow> n < 8 * w"
    by (simp add: less_mult_imp_div_less div_less_iff_less_mult mult.commute)
  ultimately show "bit (bytes_value (le_bytes w v)) n \<longleftrightarrow> bit (take_bit (8 * w) v) n"
    by (auto simp: bit_bytes_value bit_le_bytes bit_take_bit_iff)
qed

lemma le_bytes_value:
  assumes "length bs \<le> 8"
  shows "le_bytes (length bs) (bytes_value bs) = bs"
proof (rule nth_equalityI)
  fix i
  assume "i < length (le_bytes (length bs) (bytes_value bs))"
  then have i: "i < length bs" by simp
  show "le_bytes (length bs) (bytes_value bs) ! i = bs ! i"
  proof (rule bit_word_eqI)
    fix j
    assume "j < LENGTH(8)"
    then show "bit (le_bytes (length bs) (bytes_value bs) ! i) j \<longleftrightarrow> bit (bs ! i) j"
      using i assms by (simp add: bit_le_bytes bit_bytes_value)
  qed
qed simp

lemma swap_bytes_value: "length bs \<le> 8 \<Longrightarrow> swap_bytes (length bs) (bytes_value bs) = bytes_value (rev bs)"
  by (simp add: swap_bytes_def le_bytes_value)

lemma length_serialize_number [simp]: "length (serialize_number w n e) = w"
  by (simp add: serialize_number_def)

lemma read_serialized_big:
  assumes "w \<le> 8"
  shows "read_value w (serialize_number w n MD_ENDIAN_BIG @ rest) MD_ENDIAN_BIG = Some (take_bit (8 * w) n)"
  using swap_bytes_value [of "rev (le_bytes w n)"] assms
  by (simp add: read_value_def serialize_number_def bytes_value_le_bytes)

text \<open>Swapping the bytes is what \<^verbatim>\<open>byte_swap\<close> does.\<close>

lemma bit_swap_bytes:
  assumes "w \<le> 8"
  shows "bit (swap_bytes w v) n \<longleftrightarrow> n div 8 < w \<and> bit v (8 * (w - Suc (n div 8)) + n mod 8)"
proof -
  have "n < 64" if "n div 8 < w"
    using that assms by (simp add: div_less_iff_less_mult)
  then show ?thesis
    by (auto simp: swap_bytes_def bit_bytes_value rev_nth bit_le_bytes)
qed

lemma swap_bytes_eqI:
  assumes "w \<le> 8" and "\<And>n. bit b n \<Longrightarrow> n < 8 * w"
    and "\<And>n. n < 8 * w \<Longrightarrow> bit b n \<longleftrightarrow> bit v (8 * (w - Suc (n div 8)) + n mod 8)"
  shows "swap_bytes w v = b"
proof (rule bit_word_eqI)
  fix n
  have div: "n div 8 < w \<longleftrightarrow> n < 8 * w"
    by (simp add: div_less_iff_less_mult mult.commute)
  show "bit (swap_bytes w v) n \<longleftrightarrow> bit b n"
    unfolding bit_swap_bytes [OF assms(1)] div using assms(2,3) by blast
qed

lemma bit_ucast64:
  "bit (ucast (v :: u16) :: u64) n \<longleftrightarrow> bit v n" "bit (ucast (v' :: u32) :: u64) n \<longleftrightarrow> bit v' n"
  using bit_imp_le_length [of v n] bit_imp_le_length [of v' n] by (auto simp: bit_unsigned_iff)

lemma swap_bytes_byte_swap:
  "swap_bytes 2 (ucast v16) = ucast (byte_swap16 v16)"
  "swap_bytes 4 (ucast v32) = ucast (byte_swap32 v32)"
  "swap_bytes 8 v64 = byte_swap64 v64"
proof -
  show "swap_bytes 2 (ucast v16) = ucast (byte_swap16 v16)"
  proof (rule swap_bytes_eqI)
    show "n < 8 * 2" if "bit (ucast (byte_swap16 v16) :: u64) n" for n
      using that bit_imp_le_length [of "byte_swap16 v16" n] by (simp add: bit_ucast64)
    show "bit (ucast (byte_swap16 v16) :: u64) n \<longleftrightarrow>
        bit (ucast v16 :: u64) (8 * (2 - Suc (n div 8)) + n mod 8)" if "n < 8 * 2" for n
      using that bit_byte_swap16 [of n v16] by (simp add: bit_ucast64)
  qed simp
  show "swap_bytes 4 (ucast v32) = ucast (byte_swap32 v32)"
  proof (rule swap_bytes_eqI)
    show "n < 8 * 4" if "bit (ucast (byte_swap32 v32) :: u64) n" for n
      using that bit_imp_le_length [of "byte_swap32 v32" n] by (simp add: bit_ucast64)
    show "bit (ucast (byte_swap32 v32) :: u64) n \<longleftrightarrow>
        bit (ucast v32 :: u64) (8 * (4 - Suc (n div 8)) + n mod 8)" if "n < 8 * 4" for n
      using that bit_byte_swap32 [of n v32] by (simp add: bit_ucast64)
  qed simp
  show "swap_bytes 8 v64 = byte_swap64 v64"
    by (rule swap_bytes_eqI) (use bit_imp_le_length [of "byte_swap64 v64"] in \<open>simp_all add: bit_byte_swap64\<close>)
qed

section \<open>Values as trees\<close>

text \<open>What a value stands for, with all that it contains.\<close>

datatype md_tree = T_sint u64 | T_uint u64 | T_real u64 | T_zstr "u8 list" | T_bytes "u8 list"
  | T_array "md_tree list" | T_hash "(md_tree \<times> md_tree) list"

text \<open>The value \<open>v\<close> stands for a tree, and all data it reaches are at \<open>b\<close> or after.\<close>

inductive denotes :: "nat \<Rightarrow> md_storage list \<Rightarrow> basic_value \<Rightarrow> md_tree \<Rightarrow> bool" for b st where
  sint: "b \<le> m_data v \<Longrightarrow> get_typed st v = Some (Signed_data n) \<Longrightarrow> denotes b st v (T_sint n)"
| uint: "b \<le> m_data v \<Longrightarrow> get_typed st v = Some (Unsigned_data n) \<Longrightarrow> denotes b st v (T_uint n)"
| real: "b \<le> m_data v \<Longrightarrow> get_typed st v = Some (Real_data n) \<Longrightarrow> denotes b st v (T_real n)"
| zstr: "b \<le> m_data v \<Longrightarrow> get_typed st v = Some (String_data bs) \<Longrightarrow> denotes b st v (T_zstr bs)"
| bytes: "b \<le> m_data v \<Longrightarrow> get_typed st v = Some (Bytes_data bs) \<Longrightarrow> denotes b st v (T_bytes bs)"
| array: "b \<le> m_data v \<Longrightarrow> get_typed st v = Some (Array_data vs) \<Longrightarrow> list_all2 (denotes b st) vs ts
    \<Longrightarrow> denotes b st v (T_array ts)"
| hash: "b \<le> m_data v \<Longrightarrow> get_typed st v = Some (Map_data kvs)
    \<Longrightarrow> list_all2 (\<lambda>kv tt. denotes b st (fst kv) (fst tt) \<and> denotes b st (snd kv) (snd tt)) kvs tts
    \<Longrightarrow> denotes b st v (T_hash tts)"

text \<open>The bytes of a tree in both formats.\<close>

primrec encode :: "md_tree \<Rightarrow> u8 list" where
  "encode (T_uint n) = MSG_PACK_UINT_64 # serialize_number 8 n MD_ENDIAN_BIG"
| "encode (T_sint n) = MSG_PACK_INT_64 # serialize_number 8 n MD_ENDIAN_BIG"
| "encode (T_real n) = MSG_PACK_DOUBLE # serialize_number 8 n MD_ENDIAN_BIG"
| "encode (T_zstr bs) = MSG_PACK_STR_16 # serialize_number 2 (of_nat (length bs)) MD_ENDIAN_BIG @ bs"
| "encode (T_bytes bs) =
     (if length bs \<ge> 65535 then MSG_PACK_BIN_32 # serialize_number 4 (of_nat (length bs)) MD_ENDIAN_BIG @ bs
      else MSG_PACK_BIN_16 # serialize_number 2 (of_nat (length bs)) MD_ENDIAN_BIG @ bs)"
| "encode (T_array ts) =
     MSG_PACK_ARR_16 # serialize_number 2 (of_nat (length ts)) MD_ENDIAN_BIG @ concat (map encode ts)"
| "encode (T_hash tts) =
     MSG_PACK_MAP_16 # serialize_number 2 (of_nat (length tts)) MD_ENDIAN_BIG @
       concat (map (\<lambda>(k, t). k @ t) (map (map_prod encode encode) tts))"

primrec raw_bytes :: "u8 \<Rightarrow> md_tree \<Rightarrow> u8 list" where
  "raw_bytes e (T_uint n) = serialize_number 8 n e"
| "raw_bytes e (T_sint n) = serialize_number 8 n e"
| "raw_bytes e (T_real n) = serialize_number 8 n e"
| "raw_bytes e (T_zstr bs) = bs @ [0]"
| "raw_bytes e (T_bytes bs) = bs"
| "raw_bytes e (T_array ts) = concat (map (raw_bytes e) ts)"
| "raw_bytes e (T_hash tts) = concat (map (\<lambda>(k, t). k @ t) (map (map_prod (raw_bytes e) (raw_bytes e)) tts))"

lemma those_map:
  assumes "\<forall>v \<in> set vs. \<exists>t. P v t \<and> f v = Some (g t) \<and> f' v = Some (g' t)"
  shows "\<exists>ts. list_all2 P vs ts \<and> those (map f vs) = Some (map g ts) \<and> those (map f' vs) = Some (map g' ts)"
  using assms
proof (induction vs)
  case (Cons v vs)
  then obtain t ts where "P v t" "f v = Some (g t)" "f' v = Some (g' t)" "list_all2 P vs ts"
    "those (map f vs) = Some (map g ts)" "those (map f' vs) = Some (map g' ts)"
    by auto
  then show ?case by (intro exI [of _ "t # ts"]) simp
qed simp

lemma those_pairs:
  assumes "\<forall>kv \<in> set kvs. \<exists>t. P (fst kv) t \<and> f (fst kv) = Some (g t) \<and> f' (fst kv) = Some (g' t)"
    and "\<forall>kv \<in> set kvs. \<exists>t. P (snd kv) t \<and> f (snd kv) = Some (g t) \<and> f' (snd kv) = Some (g' t)"
  shows "\<exists>tts. list_all2 (\<lambda>kv tt. P (fst kv) (fst tt) \<and> P (snd kv) (snd tt)) kvs tts \<and>
     map_option concat (those (concat (map (\<lambda>kv. [f (fst kv), f (snd kv)]) kvs))) =
       Some (concat (map (\<lambda>(k, t). k @ t) (map (map_prod g g) tts))) \<and>
     map_option concat (those (concat (map (\<lambda>kv. [f' (fst kv), f' (snd kv)]) kvs))) =
       Some (concat (map (\<lambda>(k, t). k @ t) (map (map_prod g' g') tts)))"
  using assms
proof (induction kvs)
  case (Cons kv kvs)
  then obtain k t tts where
    "P (fst kv) k" "f (fst kv) = Some (g k)" "f' (fst kv) = Some (g' k)"
    "P (snd kv) t" "f (snd kv) = Some (g t)" "f' (snd kv) = Some (g' t)"
    and "list_all2 (\<lambda>kv tt. P (fst kv) (fst tt) \<and> P (snd kv) (snd tt)) kvs tts"
    and "map_option concat (those (concat (map (\<lambda>kv. [f (fst kv), f (snd kv)]) kvs))) =
       Some (concat (map (\<lambda>(k, t). k @ t) (map (map_prod g g) tts)))"
    and "map_option concat (those (concat (map (\<lambda>kv. [f' (fst kv), f' (snd kv)]) kvs))) =
       Some (concat (map (\<lambda>(k, t). k @ t) (map (map_prod g' g') tts)))"
    by auto
  then show ?case by (intro exI [of _ "(k, t) # tts"]) auto
qed simp

lemma list_all2_length: "list_all2 P xs ys \<Longrightarrow> length ys = length xs"
  by (simp add: list_all2_lengthD)

text \<open>Every value of a well-formed store stands for a tree, and both serializers write it.\<close>

lemma serialize_total:
  assumes "store_ok st" and "typed st v" and "length st - m_data v \<le> k"
  shows "\<exists>t. denotes 0 st v t \<and> serialize_element k st v = Some (encode t) \<and>
     raw_element k e st v = Some (raw_bytes e t)"
  using assms(2,3)
proof (induction k arbitrary: v)
  case 0
  then show ?case by (simp add: typed_def)
next
  case (Suc k)
  have d: "get_typed st v = Some (st ! m_data v)" and len: "m_data v < length st"
    using Suc.prems(1) by (simp_all add: typed_get_typed typed_def)
  have child: "\<exists>t. denotes 0 st w t \<and> serialize_element k st w = Some (encode t) \<and>
      raw_element k e st w = Some (raw_bytes e t)" if "w \<in> set (contents (st ! m_data v))" for w
  proof (rule Suc.IH)
    have "m_data v < m_data w" and w: "typed st w"
      using assms(1) len that by (auto simp: store_ok_def data_ok_def)
    then show "typed st w" and "length st - m_data w \<le> k"
      using Suc.prems(2) len by simp_all
  qed
  show ?case
  proof (cases "st ! m_data v")
    case (Array_data vs)
    then obtain ts where "list_all2 (denotes 0 st) vs ts" "those (map (serialize_element k st) vs) = Some (map encode ts)"
      "those (map (raw_element k e st) vs) = Some (map (raw_bytes e) ts)"
      using those_map [of vs "denotes 0 st" "serialize_element k st" encode "raw_element k e st" "raw_bytes e"] child
      by auto
    then show ?thesis
      using d Array_data by (intro exI [of _ "T_array ts"]) (simp add: denotes.array list_all2_length)
  next
    case (Map_data kvs)
    let ?P = "\<lambda>kv tt. denotes 0 st (fst kv) (fst tt) \<and> denotes 0 st (snd kv) (snd tt)"
    obtain tts where tts: "list_all2 ?P kvs tts"
      "map_option concat (those (concat (map (\<lambda>kv. [serialize_element k st (fst kv), serialize_element k st (snd kv)]) kvs))) =
        Some (concat (map (\<lambda>(k, t). k @ t) (map (map_prod encode encode) tts)))"
      "map_option concat (those (concat (map (\<lambda>kv. [raw_element k e st (fst kv), raw_element k e st (snd kv)]) kvs))) =
        Some (concat (map (\<lambda>(k, t). k @ t) (map (map_prod (raw_bytes e) (raw_bytes e)) tts)))"
      using those_pairs [of kvs "denotes 0 st" "serialize_element k st" encode "raw_element k e st" "raw_bytes e"] child
      by (auto simp: Map_data)
    then show ?thesis
      using d Map_data by (intro exI [of _ "T_hash tts"]) (auto simp: denotes.hash list_all2_length)
  qed (use d in \<open>auto intro: denotes.intros\<close>)
qed

text \<open>
  Serializing a well-formed stack always ends, with the concatenated bytes of what its values stand for.
\<close>

lemma serialize_stack:
  assumes "stack_ok s"
  shows "\<exists>ts. list_all2 (denotes 0 (m_store s)) (m_stack s) ts \<and>
     msgpack_serialize s = Some (concat (map encode ts)) \<and>
     raw_serialize e s = Some (concat (map (raw_bytes e) ts))"
proof -
  have "\<forall>v \<in> set (m_stack s). \<exists>t. denotes 0 (m_store s) v t \<and>
      serialize_element (length (m_store s)) (m_store s) v = Some (encode t) \<and>
      raw_element (length (m_store s)) e (m_store s) v = Some (raw_bytes e t)"
    using assms serialize_total by (simp add: stack_ok_def)
  from those_map [OF this] show ?thesis
    by (auto simp: msgpack_serialize_def raw_serialize_def)
qed

end
