(* ===== verification/Metadata_Roundtrip.thy ===== *)
theory Metadata_Roundtrip
  imports Metadata_Trees
begin

text \<open>
  The MessagePack reader inverts the writer: for the trees that fit the format, reading the bytes of a
  stack gives a stack with values that stand for the same trees.
\<close>

section \<open>Round trip of values\<close>

text \<open>The trees that fit the format: 16-bit lengths, strings without zero bytes, and scalar keys.\<close>

fun scalar_tree :: "md_tree \<Rightarrow> bool" where
  "scalar_tree (T_array _) \<longleftrightarrow> False"
| "scalar_tree (T_hash _) \<longleftrightarrow> False"
| "scalar_tree (T_bytes _) \<longleftrightarrow> False"
| "scalar_tree _ \<longleftrightarrow> True"

primrec encodable :: "md_tree \<Rightarrow> bool" where
  "encodable (T_uint n) \<longleftrightarrow> True"
| "encodable (T_sint n) \<longleftrightarrow> True"
| "encodable (T_real n) \<longleftrightarrow> True"
| "encodable (T_zstr bs) \<longleftrightarrow> length bs < 2 ^ 16 \<and> 0 \<notin> set bs"
| "encodable (T_bytes bs) \<longleftrightarrow> length bs < 2 ^ 32"
| "encodable (T_array ts) \<longleftrightarrow> length ts < 2 ^ 16 \<and> list_all (\<lambda>b. b) (map encodable ts)"
| "encodable (T_hash tts) \<longleftrightarrow> length tts < 2 ^ 16 \<and> list_all (\<lambda>tt. scalar_tree (fst tt)) tts \<and>
     list_all (\<lambda>(b, b'). b \<and> b') (map (map_prod encodable encodable) tts)"

lemma denotes_cong:
  assumes "denotes b st v t" and "\<And>r. b \<le> r \<Longrightarrow> r < length st \<Longrightarrow> r < length st' \<and> st' ! r = st ! r"
  shows "denotes b st' v t"
proof -
  have typed: "get_typed st' v = Some d" if "b \<le> m_data v" "get_typed st v = Some d" for v d
    using that assms(2) [of "m_data v"] by (auto simp: get_typed_def get_data_def split: if_splits)
  show ?thesis
    using assms(1)
  proof induction
    case (array v vs ts)
    then show ?case by (auto intro!: denotes.array typed elim: list_all2_mono)
  next
    case (hash v kvs tts)
    then show ?case by (auto intro!: denotes.hash typed elim: list_all2_mono)
  qed (auto intro: denotes.intros typed)
qed

lemma denotes_lower:
  assumes "denotes b st v t" and "b' \<le> b"
  shows "denotes b' st v t"
  using assms(1)
proof induction
  case (array v vs ts)
  then show ?case using assms(2) by (auto intro!: denotes.array elim: list_all2_mono)
next
  case (hash v kvs tts)
  then show ?case using assms(2) by (auto intro!: denotes.hash elim: list_all2_mono)
qed (use assms(2) in \<open>auto intro: denotes.intros\<close>)

lemma denotes_extend: "denotes b st v t \<Longrightarrow> denotes b (st @ ds) v t"
  by (erule denotes_cong) (simp add: nth_append)

lemma denotes_update: "denotes b st v t \<Longrightarrow> a < b \<Longrightarrow> denotes b (st[a := d]) v t"
  by (erule denotes_cong) simp

lemma denotes_tag: "denotes b st v t \<Longrightarrow> scalar_tree t \<Longrightarrow> scalar_tag (m_type v)"
  by (cases rule: denotes.cases) (auto simp: get_typed_def scalar_tag_def split: option.splits if_splits)

text \<open>Reading back a length and the bytes that it counts.\<close>

lemma read_length:
  assumes "w \<le> 8" and "n < 2 ^ (8 * w)"
  shows "read_value w (serialize_number w (of_nat n) MD_ENDIAN_BIG @ rest) MD_ENDIAN_BIG = Some (of_nat n)"
proof -
  have "take_bit (8 * w) (of_nat n :: u64) = of_nat n"
    using assms by (simp add: take_bit_of_nat_small)
  then show ?thesis
    by (simp add: read_serialized_big assms(1))
qed

lemma read_sized_length:
  assumes "w \<le> 8" and "length bs < 2 ^ (8 * w)"
  shows "read_sized w (serialize_number w (of_nat (length bs)) MD_ENDIAN_BIG @ bs @ rest) = Some (bs, rest)"
proof -
  have "(2 :: nat) ^ (8 * w) \<le> 2 ^ 64"
    by (rule power_increasing) (use assms(1) in auto)
  then have "unat (of_nat (length bs) :: u64) = length bs"
    using assms(2) by (intro unat_of_nat_small) simp_all
  then show ?thesis
    by (simp add: read_sized_def read_length [OF assms])
qed

text \<open>The stack \<open>s'\<close> is \<open>s\<close> with one more value, which stands for the tree \<open>t\<close> and whose data are new.\<close>

definition pushed :: "basic_stack \<Rightarrow> md_tree \<Rightarrow> basic_stack \<Rightarrow> bool" where
  "pushed s t s' \<longleftrightarrow> (\<exists>v. m_stack s' = m_stack s @ [v] \<and> denotes (length (m_store s)) (m_store s') v t) \<and>
     (\<exists>ds. m_store s' = m_store s @ ds) \<and> finalized s' = finalized s \<and> out_fmt s' = out_fmt s"

lemma push_value_run:
  assumes "\<not> finalized s"
  shows "push_value ty d s = (Inr (length (m_stack s)), s\<lparr>m_store := m_store s @ [d],
     m_stack := m_stack s @ [\<lparr>m_type = ty, m_data = length (m_store s)\<rparr>]\<rparr>)"
  using assms by (simp add: push_value_def Let_def stack_top_def)

lemma pushed_value:
  assumes "\<not> finalized s"
    and "denotes (length (m_store s)) (m_store s @ [d]) \<lparr>m_type = ty, m_data = length (m_store s)\<rparr> t"
  shows "pushed s t (snd (push_value ty d s))"
  using assms by (simp add: push_value_run pushed_def)

lemma new_data: "data_tag d = ty \<Longrightarrow> get_typed (st @ [d]) \<lparr>m_type = ty, m_data = length st\<rparr> = Some d"
  by (simp add: get_typed_def get_data_def)

lemma pushed_scalar:
  assumes "\<not> finalized s"
  shows "pushed s (T_uint n) (snd (push_unsigned n s))" "pushed s (T_sint n) (snd (push_signed n s))"
    "pushed s (T_real n) (snd (push_real n s))" "pushed s (T_bytes bs) (snd (push_bytes bs s))"
    "0 \<notin> set bs \<Longrightarrow> pushed s (T_zstr bs) (snd (push_zstr bs s))"
proof -
  have "takeWhile (\<lambda>c. c \<noteq> 0) bs = bs" if "0 \<notin> set bs"
    using that by (auto simp: takeWhile_eq_all_conv)
  then show "0 \<notin> set bs \<Longrightarrow> pushed s (T_zstr bs) (snd (push_zstr bs s))"
    using assms by (simp add: push_defs pushed_value denotes.zstr new_data)
qed (use assms in \<open>simp_all add: push_defs pushed_value denotes.uint denotes.sint denotes.real denotes.bytes new_data\<close>)

text \<open>
  A container \<open>c\<close> at the top of the stack while its elements are read: its data are \<open>d\<close>, after the data \<open>st\<close>
  that were there before it.
\<close>

definition filling ::
  "md_storage list \<Rightarrow> basic_value list \<Rightarrow> basic_value \<Rightarrow> md_storage \<Rightarrow> basic_stack \<Rightarrow> bool" where
  "filling st base c d s \<longleftrightarrow> m_stack s = base @ [c] \<and> m_data c = length st \<and>
     (\<exists>ds. m_store s = st @ d # ds) \<and> \<not> finalized s"

lemma append_pushed:
  assumes "filling st base c (Array_data vs) s" and "m_type c = MD_TYPE_ARRAY" and "pushed s t s1"
  shows "\<exists>s2 v. append_top (length base) s1 = Some s2 \<and>
     (\<exists>n s'. arr_append (length base) (Suc (length base)) s1 = Some (Inr n, s') \<and> md_pop s' = (Inr (length base), s2)) \<and>
     filling st base c (Array_data (vs @ [v])) s2 \<and>
     out_fmt s2 = out_fmt s \<and> denotes (Suc (length st)) (m_store s2) v t \<and>
     (\<forall>v t. denotes (Suc (length st)) (m_store s) v t \<longrightarrow> denotes (Suc (length st)) (m_store s2) v t)"
proof -
  from assms(3) obtain v ds' where v: "m_stack s1 = m_stack s @ [v]"
    "denotes (length (m_store s)) (m_store s1) v t"
    "m_store s1 = m_store s @ ds'" "finalized s1 = finalized s" "out_fmt s1 = out_fmt s"
    by (auto simp: pushed_def)
  from assms(1) obtain ds where a: "m_store s = st @ Array_data vs # ds" "m_stack s = base @ [c]"
    "m_data c = length st" "\<not> finalized s"
    by (auto simp: filling_def)
  let ?s = "s1\<lparr>m_store := st @ Array_data (vs @ [v]) # ds @ ds'\<rparr>"
  let ?s2 = "?s\<lparr>m_stack := m_stack s\<rparr>"
  have app: "arr_append (length base) (Suc (length base)) s1 = Some (Inr (length vs), ?s)"
    using a assms(2) v by (simp add: arr_append_def stack_top_def Let_def get_data_def nth_append)
  have pop: "md_pop ?s = (Inr (length base), ?s2)"
    using a v(1,4) by (simp add: stack_top_def md_pop_def Let_def butlast_append)
  have "append_top (length base) s1 = Some ?s2"
    using a v(1) app pop by (simp add: append_top_def stack_top_def)
  moreover have "filling st base c (Array_data (vs @ [v])) ?s2"
    using a v(4) by (simp add: filling_def)
  moreover have upd: "m_store ?s2 = (m_store s1)[length st := Array_data (vs @ [v])]"
    by (simp add: a(1) v(3))
  moreover have "denotes (Suc (length st)) (m_store ?s2) v t"
    unfolding upd using denotes_lower [OF v(2), of "Suc (length st)"] a(1) by (simp add: denotes_update)
  moreover have "denotes (Suc (length st)) (m_store ?s2) v t" if "denotes (Suc (length st)) (m_store s) v t" for v t
    unfolding upd v(3) using denotes_extend [OF that] by (rule denotes_update) simp
  ultimately show ?thesis
    using v(5) app pop by (intro exI [of _ ?s2] exI [of _ v]) simp
qed

lemma denotes_bound: "denotes b st v t \<Longrightarrow> b \<le> m_data v \<and> m_data v < length st"
  by (cases rule: denotes.cases) (auto simp: get_typed_def get_data_def split: option.splits if_splits)

lemma set_pushed:
  assumes "filling st base c (Map_data kvs) s" and "m_type c = MD_TYPE_HASH"
    and "pushed s kt s1" and "pushed s1 t s2" and "scalar_tree kt"
    and "\<forall>kv \<in> set kvs. m_data (fst kv) < length (m_store s)"
  shows "\<exists>s3 k v. set_top (length base) s2 = Some s3 \<and>
     (\<exists>n s' s''. hash_set_kv (length base) (Suc (length base)) (Suc (Suc (length base))) s2 = Some (Inr n, s') \<and>
        md_pop s' = (Inr (Suc (length base)), s'') \<and> md_pop s'' = (Inr (length base), s3)) \<and>
     filling st base c (Map_data (kvs @ [(k, v)])) s3 \<and>
     out_fmt s3 = out_fmt s \<and> denotes (Suc (length st)) (m_store s3) k kt \<and>
     denotes (Suc (length st)) (m_store s3) v t \<and>
     (\<forall>v t. denotes (Suc (length st)) (m_store s) v t \<longrightarrow> denotes (Suc (length st)) (m_store s3) v t)"
proof -
  from assms(3) obtain k ds1 where k: "m_stack s1 = m_stack s @ [k]" "denotes (length (m_store s)) (m_store s1) k kt"
    "m_store s1 = m_store s @ ds1" "finalized s1 = finalized s" "out_fmt s1 = out_fmt s"
    by (auto simp: pushed_def)
  from assms(4) obtain v ds2 where v: "m_stack s2 = m_stack s1 @ [v]" "denotes (length (m_store s1)) (m_store s2) v t"
    "m_store s2 = m_store s1 @ ds2" "finalized s2 = finalized s1" "out_fmt s2 = out_fmt s1"
    by (auto simp: pushed_def)
  from assms(1) obtain ds where a: "m_store s = st @ Map_data kvs # ds" "m_stack s = base @ [c]"
    "m_data c = length st" "\<not> finalized s"
    by (auto simp: filling_def)
  let ?s = "s2\<lparr>m_store := st @ Map_data (kvs @ [(k, v)]) # ds @ ds1 @ ds2\<rparr>"
  let ?s3 = "?s\<lparr>m_stack := m_stack s\<rparr>"
  have "length (m_store s) \<le> m_data k"
    using denotes_bound [OF k(2)] by simp
  then have "find (\<lambda>kv. fst kv = k) kvs = None"
    using assms(6) by (auto simp: find_None_iff)
  then have fresh: "map_insert (k, v) kvs = Some (kvs @ [(k, v)])"
    by (simp add: map_insert_def map_find_def)
  have "scalar_tag (m_type k)"
    by (rule denotes_tag [OF k(2) assms(5)])
  then have set: "hash_set_kv (length base) (Suc (length base)) (Suc (Suc (length base))) s2 =
      Some (Inr (length kvs), ?s)"
    using a assms(2) v k fresh
    by (simp add: hash_set_kv_def stack_top_def Let_def get_data_def nth_append scalar_tag_def)
  have pop: "md_pop ?s = (Inr (Suc (length base)), ?s\<lparr>m_stack := m_stack s1\<rparr>)"
    "md_pop (?s\<lparr>m_stack := m_stack s1\<rparr>) = (Inr (length base), ?s3)"
    using a v(1,4) k(1,4) by (simp_all add: stack_top_def md_pop_def Let_def butlast_append)
  have "set_top (length base) s2 = Some ?s3"
    using a v(1) k(1) set pop by (simp add: set_top_def stack_top_def)
  moreover have "filling st base c (Map_data (kvs @ [(k, v)])) ?s3"
    using a k(4) v(4) by (simp add: filling_def)
  moreover have upd: "m_store ?s3 = (m_store s2)[length st := Map_data (kvs @ [(k, v)])]"
    by (simp add: a(1) v(3) k(3))
  moreover have "denotes (Suc (length st)) (m_store ?s3) v t"
    unfolding upd using denotes_lower [OF v(2), of "Suc (length st)"] a(1) k(3) by (simp add: denotes_update)
  moreover have "denotes (Suc (length st)) (m_store ?s3) k kt"
    unfolding upd v(3) using denotes_lower [OF k(2), of "Suc (length st)"] a(1)
    by (simp add: denotes_update denotes_extend)
  moreover have "denotes (Suc (length st)) (m_store ?s3) v t" if "denotes (Suc (length st)) (m_store s) v t" for v t
    unfolding upd v(3) k(3) using denotes_extend [OF denotes_extend [OF that]] by (rule denotes_update) simp
  ultimately show ?thesis
    using v(5) k(5) set pop by (intro exI [of _ ?s3] exI [of _ k] exI [of _ v]) simp
qed

text \<open>What a reader of elements has to do for the loops over arrays and maps.\<close>

definition reads_back ::
  "(u8 \<Rightarrow> u8 list \<Rightarrow> basic_stack \<Rightarrow> (u8 list \<times> basic_stack) option) \<Rightarrow> md_tree \<Rightarrow> bool" where
  "reads_back elem t \<longleftrightarrow> (\<forall>s rest. \<not> finalized s \<longrightarrow>
     (\<exists>s'. elem (hd (encode t)) (tl (encode t) @ rest) s = Some (rest, s') \<and> pushed s t s'))"

lemma encode_Cons: "encode t = hd (encode t) # tl (encode t)"
  by (cases t) simp_all

lemma reads_backE:
  assumes "reads_back elem t" and "\<not> finalized s"
  obtains x xs s' where "encode t = x # xs" and "elem x (xs @ rest) s = Some (rest, s')" and "pushed s t s'"
    and "\<not> finalized s'"
  using assms encode_Cons [of t] by (fastforce simp: reads_back_def pushed_def)

lemma decode_items:
  assumes "\<forall>t \<in> set ts. reads_back elem t" and "filling st base c (Array_data vs) s"
    and "m_type c = MD_TYPE_ARRAY" and "list_all2 (denotes (Suc (length st)) (m_store s)) vs ts0"
  shows "\<exists>s' vs'. deserialize_items elem (length base) (length ts) (concat (map encode ts) @ rest) s = Some (rest, s') \<and>
     filling st base c (Array_data vs') s' \<and> out_fmt s' = out_fmt s \<and>
     list_all2 (denotes (Suc (length st)) (m_store s')) vs' (ts0 @ ts)"
  using assms
proof (induction ts arbitrary: s vs ts0)
  case (Cons t ts)
  have "\<not> finalized s" using Cons.prems(2) by (simp add: filling_def)
  then obtain x xs s1 where x: "encode t = x # xs" "elem x (xs @ concat (map encode ts) @ rest) s
      = Some (concat (map encode ts) @ rest, s1)" "pushed s t s1"
    using reads_backE [of elem t s "concat (map encode ts) @ rest" thesis] Cons.prems(1) by simp
  obtain s2 v where s2: "append_top (length base) s1 = Some s2" "filling st base c (Array_data (vs @ [v])) s2"
    "out_fmt s2 = out_fmt s" "denotes (Suc (length st)) (m_store s2) v t"
    "\<And>v t. denotes (Suc (length st)) (m_store s) v t \<Longrightarrow> denotes (Suc (length st)) (m_store s2) v t"
    using append_pushed [OF Cons.prems(2,3) x(3)] by blast
  have "list_all2 (denotes (Suc (length st)) (m_store s2)) (vs @ [v]) (ts0 @ [t])"
    using s2(4) list_all2_mono [OF Cons.prems(4) s2(5)] by (simp add: list_all2_appendI)
  from Cons.IH [OF _ s2(2) Cons.prems(3) this] show ?case
    using Cons.prems(1) x s2(1,3) by simp
qed auto

lemma decode_pairs:
  assumes "\<forall>tt \<in> set tts. reads_back elem (fst tt) \<and> reads_back elem (snd tt) \<and> scalar_tree (fst tt)"
    and "filling st base c (Map_data kvs) s" and "m_type c = MD_TYPE_HASH"
    and "list_all2 (\<lambda>kv tt. denotes (Suc (length st)) (m_store s) (fst kv) (fst tt) \<and>
           denotes (Suc (length st)) (m_store s) (snd kv) (snd tt)) kvs tts0"
  shows "\<exists>s' kvs'. deserialize_pairs elem (length base) (length tts)
       (concat (map (\<lambda>(k, t). k @ t) (map (map_prod encode encode) tts)) @ rest) s = Some (rest, s') \<and>
     filling st base c (Map_data kvs') s' \<and> out_fmt s' = out_fmt s \<and>
     list_all2 (\<lambda>kv tt. denotes (Suc (length st)) (m_store s') (fst kv) (fst tt) \<and>
       denotes (Suc (length st)) (m_store s') (snd kv) (snd tt)) kvs' (tts0 @ tts)"
  using assms
proof (induction tts arbitrary: s kvs tts0)
  case (Cons tt tts)
  let ?rest = "concat (map (\<lambda>(k, t). k @ t) (map (map_prod encode encode) tts)) @ rest"
  have "\<not> finalized s" using Cons.prems(2) by (simp add: filling_def)
  then obtain x xs s1 where x: "encode (fst tt) = x # xs" "pushed s (fst tt) s1" "\<not> finalized s1"
    "elem x (xs @ encode (snd tt) @ ?rest) s = Some (encode (snd tt) @ ?rest, s1)"
    using reads_backE [of elem "fst tt" s "encode (snd tt) @ ?rest" thesis] Cons.prems(1) by simp
  then obtain y ys s2 where y: "encode (snd tt) = y # ys" "pushed s1 (snd tt) s2"
    "elem y (ys @ ?rest) s1 = Some (?rest, s2)"
    using reads_backE [of elem "snd tt" s1 ?rest thesis] Cons.prems(1) by simp
  have "scalar_tree (fst tt)" using Cons.prems(1) by simp
  moreover have "\<forall>kv \<in> set kvs. m_data (fst kv) < length (m_store s)"
  proof
    fix kv
    assume "kv \<in> set kvs"
    then obtain i where i: "i < length kvs" "kv = kvs ! i"
      by (auto simp: in_set_conv_nth)
    then show "m_data (fst kv) < length (m_store s)"
      using list_all2_nthD [OF Cons.prems(4) i(1)] denotes_bound by blast
  qed
  ultimately obtain s3 k v where s3: "set_top (length base) s2 = Some s3"
    "filling st base c (Map_data (kvs @ [(k, v)])) s3"
    "out_fmt s3 = out_fmt s" "denotes (Suc (length st)) (m_store s3) k (fst tt)"
    "denotes (Suc (length st)) (m_store s3) v (snd tt)"
    "\<And>v t. denotes (Suc (length st)) (m_store s) v t \<Longrightarrow> denotes (Suc (length st)) (m_store s3) v t"
    using set_pushed [OF Cons.prems(2,3) x(2) y(2)] by blast
  have "list_all2 (\<lambda>kv tt. denotes (Suc (length st)) (m_store s3) (fst kv) (fst tt) \<and>
      denotes (Suc (length st)) (m_store s3) (snd kv) (snd tt)) (kvs @ [(k, v)]) (tts0 @ [tt])"
    using s3(4,5) by (intro list_all2_appendI list_all2_mono [OF Cons.prems(4)]) (auto dest: s3(6))
  from Cons.IH [OF _ s3(2) Cons.prems(3) this] show ?case
    using Cons.prems(1) x(1,4) y(1,3) s3(1,3) by (cases tt) simp
qed auto

lemma filling_start:
  assumes "\<not> finalized s"
  shows "filling (m_store s) (m_stack s) \<lparr>m_type = ty, m_data = length (m_store s)\<rparr> d
    (snd (push_value ty d s))"
  using assms by (simp add: filling_def push_value_run)

lemma filling_pushed:
  assumes "filling (m_store s) (m_stack s) \<lparr>m_type = data_tag d, m_data = length (m_store s)\<rparr> d s'"
    and "\<not> finalized s" and "out_fmt s' = out_fmt s"
    and "\<And>v. get_typed (m_store s') v = Some d \<Longrightarrow> length (m_store s) \<le> m_data v
      \<Longrightarrow> denotes (length (m_store s)) (m_store s') v t"
  shows "pushed s t s'"
  using assms by (auto simp: filling_def pushed_def get_typed_def get_data_def nth_append)

lemma list_all2_denotes_lower:
  "list_all2 (denotes (Suc b) st) vs ts \<Longrightarrow> list_all2 (denotes b st) vs ts"
  by (erule list_all2_mono) (simp add: denotes_lower)

lemma decode_array:
  assumes "\<forall>t \<in> set ts. reads_back (deserialize_element k) t" and "length ts < 2 ^ 16"
  shows "reads_back (deserialize_element (Suc k)) (T_array ts)"
  unfolding reads_back_def
proof (intro allI impI)
  fix s :: basic_stack and rest
  assume s: "\<not> finalized s"
  let ?c = "\<lparr>m_type = MD_TYPE_ARRAY, m_data = length (m_store s)\<rparr>"
  let ?s1 = "snd (push_value MD_TYPE_ARRAY (Array_data []) s)"
  have "filling (m_store s) (m_stack s) ?c (Array_data []) ?s1"
    using s by (rule filling_start)
  from decode_items [OF assms(1) this, of "[]" rest] obtain s' vs where s':
    "deserialize_items (deserialize_element k) (length (m_stack s)) (length ts) (concat (map encode ts) @ rest) ?s1
      = Some (rest, s')"
    "filling (m_store s) (m_stack s) ?c (Array_data vs) s'" "out_fmt s' = out_fmt ?s1"
    "list_all2 (denotes (Suc (length (m_store s))) (m_store s')) vs ts"
    by auto
  have "pushed s (T_array ts) s'"
  proof (rule filling_pushed)
    show "denotes (length (m_store s)) (m_store s') v (T_array ts)"
      if "get_typed (m_store s') v = Some (Array_data vs)" and "length (m_store s) \<le> m_data v" for v
      using that s'(4) by (auto intro: denotes.array list_all2_denotes_lower)
  qed (use s s' in \<open>simp_all add: push_value_run\<close>)
  moreover have "deserialize_element (Suc k) MSG_PACK_ARR_16
      (serialize_number 2 (of_nat (length ts)) MD_ENDIAN_BIG @ concat (map encode ts) @ rest) s = Some (rest, s')"
    using s s'(1) assms(2) by (simp add: read_length push_arr_def push_value_run unat_of_nat_small)
  ultimately show "\<exists>s'. deserialize_element (Suc k) (hd (encode (T_array ts))) (tl (encode (T_array ts)) @ rest) s
      = Some (rest, s') \<and> pushed s (T_array ts) s'"
    by auto
qed

lemma decode_hash:
  assumes "\<forall>tt \<in> set tts. reads_back (deserialize_element k) (fst tt) \<and>
      reads_back (deserialize_element k) (snd tt) \<and> scalar_tree (fst tt)" and "length tts < 2 ^ 16"
  shows "reads_back (deserialize_element (Suc k)) (T_hash tts)"
  unfolding reads_back_def
proof (intro allI impI)
  fix s :: basic_stack and rest
  assume s: "\<not> finalized s"
  let ?c = "\<lparr>m_type = MD_TYPE_HASH, m_data = length (m_store s)\<rparr>"
  let ?s1 = "snd (push_value MD_TYPE_HASH (Map_data []) s)"
  let ?bytes = "concat (map (\<lambda>(k, t). k @ t) (map (map_prod encode encode) tts))"
  have "filling (m_store s) (m_stack s) ?c (Map_data []) ?s1"
    using s by (rule filling_start)
  from decode_pairs [OF assms(1) this, of "[]" rest] obtain s' kvs where s':
    "deserialize_pairs (deserialize_element k) (length (m_stack s)) (length tts) (?bytes @ rest) ?s1 = Some (rest, s')"
    "filling (m_store s) (m_stack s) ?c (Map_data kvs) s'" "out_fmt s' = out_fmt ?s1"
    "list_all2 (\<lambda>kv tt. denotes (Suc (length (m_store s))) (m_store s') (fst kv) (fst tt) \<and>
       denotes (Suc (length (m_store s))) (m_store s') (snd kv) (snd tt)) kvs tts"
    by auto
  have "pushed s (T_hash tts) s'"
  proof (rule filling_pushed)
    show "denotes (length (m_store s)) (m_store s') v (T_hash tts)"
      if "get_typed (m_store s') v = Some (Map_data kvs)" and "length (m_store s) \<le> m_data v" for v
    proof (rule denotes.hash [OF that(2,1)], rule list_all2_mono [OF s'(4)], elim conjE, intro conjI)
    qed (erule denotes_lower, simp)+
  qed (use s s' in \<open>simp_all add: push_value_run\<close>)
  moreover have "deserialize_element (Suc k) MSG_PACK_MAP_16
      (serialize_number 2 (of_nat (length tts)) MD_ENDIAN_BIG @ ?bytes @ rest) s = Some (rest, s')"
    using s s'(1) assms(2) by (simp add: read_length push_map_def push_value_run unat_of_nat_small)
  ultimately show "\<exists>s'. deserialize_element (Suc k) (hd (encode (T_hash tts))) (tl (encode (T_hash tts)) @ rest) s
      = Some (rest, s') \<and> pushed s (T_hash tts) s'"
    by auto
qed

text \<open>Every encodable tree is read back by the deserializer; the length of its encoding is enough fuel.\<close>

lemma decode_element:
  "encodable t \<Longrightarrow> length (encode t) \<le> k \<Longrightarrow> reads_back (deserialize_element k) t"
proof (induction k arbitrary: t)
  case 0
  then show ?case using encode_Cons [of t] by (metis le_zero_eq length_0_conv list.distinct(1))
next
  case (Suc k)
  show ?case
  proof (cases t)
    case (T_array ts)
    have "reads_back (deserialize_element k) u" if "u \<in> set ts" for u
    proof (rule Suc.IH)
      show "encodable u" using Suc.prems(1) that by (simp add: T_array list_all_iff)
      have "length (encode u) \<le> length (concat (map encode ts))"
        using that by (auto simp: in_set_conv_decomp)
      then show "length (encode u) \<le> k" using Suc.prems(2) by (simp add: T_array)
    qed
    then show ?thesis
      unfolding T_array using Suc.prems(1) by (intro decode_array) (simp_all add: T_array)
  next
    case (T_hash tts)
    have "reads_back (deserialize_element k) (fst tt) \<and> reads_back (deserialize_element k) (snd tt) \<and>
        scalar_tree (fst tt)" if "tt \<in> set tts" for tt
    proof -
      have "encodable (fst tt)" "encodable (snd tt)" "scalar_tree (fst tt)"
        using Suc.prems(1) that by (auto simp: T_hash list_all_iff map_prod_def case_prod_beta)
      moreover have "length (encode (fst tt)) + length (encode (snd tt)) \<le>
          length (concat (map (\<lambda>(k, t). k @ t) (map (map_prod encode encode) tts)))"
        using that by (auto simp: in_set_conv_decomp case_prod_beta)
      ultimately show ?thesis
        using Suc.prems(2) by (simp add: T_hash Suc.IH)
    qed
    then show ?thesis
      unfolding T_hash using Suc.prems(1) by (intro decode_hash) (simp_all add: T_hash)
  qed (use Suc.prems(1) in \<open>simp_all add: reads_back_def read_serialized_big pushed_scalar read_sized_length take_bit_word_eq_self\<close>)
qed

lemma decode_block:
  assumes "\<forall>t \<in> set ts. encodable t" and "\<not> finalized s" and "length ts \<le> k"
  shows "\<exists>s' vs ds. deserialize_block k (concat (map encode ts) @ rest)
       (int (length (concat (map encode ts)))) s = Some s' \<and>
     m_stack s' = m_stack s @ vs \<and> list_all2 (denotes 0 (m_store s')) vs ts \<and>
     m_store s' = m_store s @ ds \<and> finalized s' = finalized s \<and> out_fmt s' = out_fmt s"
  using assms
proof (induction ts arbitrary: s k)
  case Nil
  then show ?case by (cases k) auto
next
  case (Cons t ts)
  let ?rest = "concat (map encode ts) @ rest"
  obtain j where k: "k = Suc j" using Cons.prems(3) by (cases k) auto
  have "reads_back (deserialize_element (length (encode t @ ?rest))) t"
    using Cons.prems(1) by (intro decode_element) simp_all
  from reads_backE [OF this Cons.prems(2)] obtain x xs s1 where x: "encode t = x # xs"
    "deserialize_element (length (encode t @ ?rest)) x (xs @ ?rest) s = Some (?rest, s1)" "pushed s t s1"
    by metis
  from x(3) obtain v ds1 where v: "m_stack s1 = m_stack s @ [v]" "denotes (length (m_store s)) (m_store s1) v t"
    "m_store s1 = m_store s @ ds1" "finalized s1 = finalized s" "out_fmt s1 = out_fmt s"
    by (auto simp: pushed_def)
  have fin: "\<not> finalized s1" and "length ts \<le> j" and "\<forall>t \<in> set ts. encodable t"
    using Cons.prems k v(4) by simp_all
  from Cons.IH [OF this(3) fin this(2)] obtain s' vs ds where s':
    "deserialize_block j ?rest (int (length (concat (map encode ts)))) s1 = Some s'"
    "m_stack s' = m_stack s1 @ vs" "list_all2 (denotes 0 (m_store s')) vs ts"
    "m_store s' = m_store s1 @ ds" "finalized s' = finalized s1" "out_fmt s' = out_fmt s1"
    by blast
  have "denotes 0 (m_store s') v t"
    unfolding s'(4) by (rule denotes_extend [OF denotes_lower [OF v(2)]]) simp
  moreover have "deserialize_block k (encode t @ ?rest) (int (length (encode t @ concat (map encode ts)))) s = Some s'"
    using x(1,2) s'(1) by (simp add: k)
  ultimately show ?case
    using s' v by (intro exI [of _ s'] exI [of _ "v # vs"] exI [of _ "ds1 @ ds"]) simp
qed

lemma list_all2_unique:
  assumes "list_all2 (\<lambda>v t. \<forall>t'. P v t' \<longrightarrow> t' = t) vs ts" and "list_all2 P vs ts'"
  shows "ts' = ts"
  using assms by (induction arbitrary: ts' rule: list_all2_induct) (auto simp: list_all2_Cons1)

lemma denotes_unique: "denotes b st v t \<Longrightarrow> denotes b st v t' \<Longrightarrow> t' = t"
proof (induction arbitrary: t' rule: denotes.induct)
  case (array v vs ts)
  from array.prems array.hyps obtain ts' where "t' = T_array ts'" "list_all2 (denotes b st) vs ts'"
    by (cases rule: denotes.cases) auto
  then show ?case
    using list_all2_unique [of "denotes b st" vs ts ts'] list_all2_mono [OF array.IH] by fastforce
next
  case (hash v kvs tts)
  let ?P = "\<lambda>kv tt. denotes b st (fst kv) (fst tt) \<and> denotes b st (snd kv) (snd tt)"
  from hash.prems hash.hyps obtain tts' where "t' = T_hash tts'" "list_all2 ?P kvs tts'"
    by (cases rule: denotes.cases) auto
  moreover have "list_all2 (\<lambda>kv tt. \<forall>tt'. ?P kv tt' \<longrightarrow> tt' = tt) kvs tts"
    by (rule list_all2_mono [OF hash.IH]) (auto simp: prod_eq_iff)
  ultimately show ?case
    using list_all2_unique [of ?P kvs tts tts'] by simp
qed (cases rule: denotes.cases, auto)+

lemma list_all2_denotes_unique:
  assumes "list_all2 (denotes b st) vs ts" and "list_all2 (denotes b st) vs ts'"
  shows "ts' = ts"
  by (rule list_all2_unique [OF list_all2_mono [OF assms(1)] assms(2)]) (auto dest: denotes_unique)

lemma length_encodings: "length ts \<le> length (concat (map encode ts))"
proof (induction ts)
  case (Cons t ts)
  then show ?case using encode_Cons [of t] by (metis (no_types, lifting) concat.simps(2) length_Cons length_append
        list.simps(9) add_mono le_add1 plus_1_eq_Suc)
qed simp

text \<open>
  C10: the values of a stack survive being written in MessagePack format and read back: if the trees that
  they stand for fit the format, serializing ends, and reading the bytes into a new stack, with any bytes
  after them, ends with values that stand for the same trees.
\<close>

theorem msgpack_roundtrip:
  assumes "stack_ok s" and "list_all2 (denotes 0 (m_store s)) (m_stack s) ts" and "\<forall>t \<in> set ts. encodable t"
  shows "\<exists>bytes s'. msgpack_serialize s = Some bytes \<and>
     msgpack_deserialize (bytes @ rest) (length bytes) (basic_stack_construct fmt) = Some s' \<and>
     list_all2 (denotes 0 (m_store s')) (m_stack s') ts"
proof -
  let ?bytes = "concat (map encode ts)"
  have bytes: "msgpack_serialize s = Some ?bytes"
    using serialize_stack [OF assms(1)] list_all2_denotes_unique [OF assms(2)] by blast
  have "length ts \<le> length (?bytes @ rest)"
    using length_encodings [of ts] by simp
  from decode_block [OF assms(3) _ this, of "basic_stack_construct fmt" rest] bytes show ?thesis
    by (auto simp: msgpack_deserialize_def basic_stack_construct_def)
qed

definition demo_stack :: basic_stack where
  "demo_stack = the (md_run [Push_map, Push_zstr [0x6B], Push_arr, Push_unsigned 7, Arr_append 2 3, Pop,
     Hash_set_kv 0 1 2, Pop, Pop] (basic_stack_construct MD_FMT_MSGPACK))"

lemma demo_stack_ok: "stack_ok demo_stack"
  using md_run_ok [OF stack_ok_construct, of "[Push_map, Push_zstr [0x6B], Push_arr, Push_unsigned 7,
    Arr_append 2 3, Pop, Hash_set_kv 0 1 2, Pop, Pop]" MD_FMT_MSGPACK] by (auto simp: demo_stack_def)

lemmas stack_run = push_defs push_value_def md_pop_def arr_append_def hash_set_kv_def map_insert_def map_find_def
  stack_top_def get_data_def basic_stack_construct_def Let_def

lemma demo_stack_eq:
  "demo_stack = \<lparr>m_store = [Map_data [(\<lparr>m_type = MD_TYPE_ZSTR, m_data = 1\<rparr>, \<lparr>m_type = MD_TYPE_ARRAY, m_data = 2\<rparr>)],
       String_data [0x6B], Array_data [\<lparr>m_type = MD_TYPE_UINT, m_data = 3\<rparr>], Unsigned_data 7],
     m_stack = [\<lparr>m_type = MD_TYPE_HASH, m_data = 0\<rparr>], finalized = False, out_fmt = MD_FMT_MSGPACK\<rparr>"
  by (simp add: demo_stack_def stack_run)

theorem msgpack_roundtrip_witness:
  "\<exists>bytes s'. msgpack_serialize demo_stack = Some bytes \<and>
     msgpack_deserialize (bytes @ [0, 0]) (length bytes) (basic_stack_construct MD_FMT_MSGPACK) = Some s' \<and>
     list_all2 (denotes 0 (m_store s')) (m_stack s') [T_hash [(T_zstr [0x6B], T_array [T_uint 7])]]"
proof (rule msgpack_roundtrip [OF demo_stack_ok])
  show "list_all2 (denotes 0 (m_store demo_stack)) (m_stack demo_stack) [T_hash [(T_zstr [0x6B], T_array [T_uint 7])]]"
    by (auto simp: demo_stack_eq get_typed_def get_data_def intro!: denotes.intros)
qed simp

end
