(* ===== verification/Metadata_Context.thy ===== *)
theory Metadata_Context
  imports Metadata_Roundtrip
begin

unbundle bit_operations_syntax

text \<open>
  The metadata context, \<^verbatim>\<open>metadata/detail/md_ctx.h\<close> and \<^verbatim>\<open>metadata/source/metadata/utils.cpp\<close>: named stacks,
  the binary format with a header, a string table, a list of block infos and the blocks, and its reader.
  The target's hooks are parameters: whether they are present, and the bytes that \<^verbatim>\<open>map\<close> returns. \<^term>\<open>None\<close>
  is a read outside the binary or a failed assertion.
\<close>

section \<open>The binary format\<close>

record CAMD_Header =
  hdr_magic :: "u8 list"
  hdr_endianness :: u8
  hdr_version :: u8
  pad_unused :: "u8 list"
  block_list_offset :: u32
  n_blocks :: u32

record CAMD_BlockInfo =
  bi_offset :: u64
  bi_size :: u64
  bi_name_idx :: u32
  bi_flags :: u32

abbreviation (input) MD_BLOCK_INFO_SIZE :: nat where "MD_BLOCK_INFO_SIZE \<equiv> 24"
abbreviation (input) MD_HEADER_SIZE :: nat where "MD_HEADER_SIZE \<equiv> 16"
abbreviation (input) MD_MAGIC :: "u8 list" where "MD_MAGIC \<equiv> [0x43, 0x41, 0x4D, 0x44]"

definition fmt_code :: "md_fmt \<Rightarrow> u32" where
  "fmt_code fmt = (case fmt of MD_FMT_RAW_BYTES \<Rightarrow> 0 | MD_FMT_MSGPACK \<Rightarrow> 1 | MD_FMT_JSON \<Rightarrow> 2
     | MD_FMT_LLVM_BC_MD \<Rightarrow> 3 | MD_FMT_LLVM_TEXT_MD \<Rightarrow> 4)"

definition get_enc :: "u32 \<Rightarrow> u32 option" where
  "get_enc flags = (let enc = drop_bit 8 flags AND 0xff in if enc \<ge> 4 then None else Some enc)"

definition get_fmt :: "u32 \<Rightarrow> md_fmt option" where
  "get_fmt flags =
     find (\<lambda>fmt. fmt_code fmt = flags AND 0xff)
       [MD_FMT_RAW_BYTES, MD_FMT_MSGPACK, MD_FMT_JSON, MD_FMT_LLVM_BC_MD, MD_FMT_LLVM_TEXT_MD]"

definition get_flags :: "md_fmt \<Rightarrow> u32 \<Rightarrow> u32" where
  "get_flags fmt enc = (fmt_code fmt OR push_bit 8 enc) AND 0x0000ffff"

text \<open>The loop that appends zeros until the size is a multiple of 8.\<close>

function pad_to_alignment :: "u8 list \<Rightarrow> u8 list" where
  "pad_to_alignment binary = (if length binary mod 8 \<noteq> 0 then pad_to_alignment (binary @ [0]) else binary)"
  by auto
termination
proof (relation "measure (\<lambda>binary. (8 - length binary mod 8) mod 8)")
  fix binary :: "u8 list"
  assume "length binary mod 8 \<noteq> 0"
  moreover have "length binary mod 8 < 8"
    by simp
  ultimately have "(8 - Suc (length binary) mod 8) mod 8 < (8 - length binary mod 8) mod 8"
    unfolding mod_Suc by (simp only: mod_less split: if_split) auto
  then show "(binary @ [0], binary) \<in> measure (\<lambda>binary. (8 - length binary mod 8) mod 8)"
    by simp
qed simp

declare pad_to_alignment.simps [simp del]

definition serialize_int :: "nat \<Rightarrow> u64 \<Rightarrow> u8 \<Rightarrow> u8 list" where
  "serialize_int w v endianness = le_bytes w (if endianness = MD_ENDIAN_BIG then swap_bytes w v else v)"

definition serialize_md_header :: "CAMD_Header \<Rightarrow> u8 list" where
  "serialize_md_header h =
     (let e = hdr_endianness h
      in concat (map (\<lambda>b. serialize_int 1 (ucast b) e) (hdr_magic h)) @
         serialize_int 1 (ucast e) e @ serialize_int 1 (ucast (hdr_version h)) e @
         concat (map (\<lambda>b. serialize_int 1 (ucast b) e) (pad_unused h)) @
         serialize_int 4 (ucast (block_list_offset h)) e @ serialize_int 4 (ucast (n_blocks h)) e)"

definition serialize_block_info :: "CAMD_BlockInfo \<Rightarrow> u8 \<Rightarrow> u8 list" where
  "serialize_block_info bi e =
     serialize_int 8 (bi_offset bi) e @ serialize_int 8 (bi_size bi) e @
     serialize_int 4 (ucast (bi_name_idx bi)) e @ serialize_int 4 (ucast (bi_flags bi)) e"

text \<open>\<^term>\<open>None\<close> is an error result; every read lies inside a binary of the header's size.\<close>

definition decode_md_header :: "u8 list \<Rightarrow> CAMD_Header option" where
  "decode_md_header bin =
     (if length bin < MD_HEADER_SIZE \<or> take 4 bin \<noteq> MD_MAGIC then None
      else let endianness = bin ! 4; version = bin ! 5
        in if \<not> (endianness = MD_ENDIAN_LITTLE \<or> endianness = MD_ENDIAN_BIG) \<or> version \<noteq> 1 then None
           else case (read_value 4 (drop 8 bin) endianness, read_value 4 (drop 12 bin) endianness) of
               (Some list_offset, Some n) \<Rightarrow>
                 if list_offset < 16 \<or> list_offset \<ge> of_nat (length bin) then None
                 else Some \<lparr>hdr_magic = take 4 bin, hdr_endianness = endianness, hdr_version = version,
                        pad_unused = [0, 0], block_list_offset = ucast list_offset, n_blocks = ucast n\<rparr>
             | _ \<Rightarrow> None)"

text \<open>
  \<open>Some None\<close> is an error result. The least valid offset is computed in 32 bits, and the end of the
  block in 64 bits; the flags are refused only when both parts of them are invalid.
\<close>

definition decode_md_block_info :: "u8 list \<Rightarrow> CAMD_Header \<Rightarrow> u64 \<Rightarrow> CAMD_BlockInfo option option" where
  "decode_md_block_info start h bin_size =
     (let e = hdr_endianness h;
          min_valid_block_offset = (ucast (block_list_offset h + 24 * n_blocks h) :: u64)
      in case read_value 8 start e of None \<Rightarrow> None
         | Some offset \<Rightarrow>
             if offset < min_valid_block_offset then Some None
             else case read_value 8 (drop 8 start) e of None \<Rightarrow> None
               | Some sz \<Rightarrow>
                   if offset + sz > bin_size then Some None
                   else case read_value 4 (drop 16 start) e of None \<Rightarrow> None
                     | Some name_idx \<Rightarrow>
                         if name_idx > ucast (block_list_offset h) then Some None
                         else case read_value 4 (drop 20 start) e of None \<Rightarrow> None
                           | Some flags \<Rightarrow>
                               if get_enc (ucast flags) = None \<and> get_fmt (ucast flags) = None then Some None
                               else Some (Some \<lparr>bi_offset = offset, bi_size = sz, bi_name_idx = ucast name_idx,
                                      bi_flags = ucast flags\<rparr>))"

primrec decode_block_infos ::
  "nat \<Rightarrow> u8 list \<Rightarrow> CAMD_Header \<Rightarrow> u64 \<Rightarrow> CAMD_BlockInfo list option option" where
  "decode_block_infos 0 start h bin_size = Some (Some [])"
| "decode_block_infos (Suc n) start h bin_size =
     (case decode_md_block_info start h bin_size of None \<Rightarrow> None
      | Some None \<Rightarrow> Some None
      | Some (Some info) \<Rightarrow>
         map_option (map_option (\<lambda>infos. info # infos))
           (decode_block_infos n (drop MD_BLOCK_INFO_SIZE start) h bin_size))"

definition decode_md_block_info_list ::
  "u8 list \<Rightarrow> CAMD_Header \<Rightarrow> u64 \<Rightarrow> CAMD_BlockInfo list option option" where
  "decode_md_block_info_list start h bin_size = decode_block_infos (unat (n_blocks h)) start h bin_size"

definition get_block_info_name :: "u8 list \<Rightarrow> CAMD_BlockInfo \<Rightarrow> u8 list option" where
  "get_block_info_name bin bi =
     (let name = drop (unat (bi_name_idx bi)) bin
      in if 0 \<in> set name then Some (takeWhile (\<lambda>c. c \<noteq> 0) name) else None)"

section \<open>The context\<close>

record basic_context =
  stack_map :: "(u8 list \<times> basic_stack) list"
  ctx_endianness :: u8

definition basic_context_construct :: basic_context where
  "basic_context_construct = \<lparr>stack_map = [], ctx_endianness = MD_ENDIAN_LITTLE\<rparr>"

definition get_block :: "u8 list \<Rightarrow> basic_context \<Rightarrow> md_err + basic_stack" where
  "get_block name ctx =
     (case map_of (stack_map ctx) name of None \<Rightarrow> Inl MD_E_STACK_NOT_REGISTERED | Some s \<Rightarrow> Inr s)"

text \<open>\<^verbatim>\<open>insert\<close> of the map of stacks: \<^term>\<open>None\<close> when the name is taken.\<close>

definition register :: "u8 list \<Rightarrow> basic_stack \<Rightarrow> basic_context \<Rightarrow> basic_context option" where
  "register name s ctx =
     (case map_of (stack_map ctx) name of Some _ \<Rightarrow> None
      | None \<Rightarrow> Some (ctx\<lparr>stack_map := stack_map ctx @ [(name, s)]\<rparr>))"

definition create_block :: "u8 list \<Rightarrow> basic_context \<Rightarrow> (md_err + basic_stack) \<times> basic_context" where
  "create_block name ctx =
     (case register name (basic_stack_construct MD_FMT_RAW_BYTES) ctx of
        None \<Rightarrow> (Inl MD_E_STACK_ALREADY_REGISTERED, ctx)
      | Some ctx' \<Rightarrow> (Inr (basic_stack_construct MD_FMT_RAW_BYTES), ctx'))"

definition get_or_create_block :: "u8 list \<Rightarrow> basic_context \<Rightarrow> basic_stack option \<times> basic_context" where
  "get_or_create_block name ctx =
     (case get_block name ctx of Inr s \<Rightarrow> (Some s, ctx)
      | Inl _ \<Rightarrow> (case create_block name ctx of (Inr s, ctx') \<Rightarrow> (Some s, ctx') | (Inl _, ctx') \<Rightarrow> (None, ctx')))"

text \<open>
  The loop over the stacks of \<^verbatim>\<open>finalize\<close>: the bytes of the blocks in reverse order, the string table, and
  the infos with offsets counted from the end of the binary.
\<close>

fun finalize_blocks ::
  "u8 \<Rightarrow> (u8 list \<times> basic_stack) list \<Rightarrow> u8 list \<times> u8 list \<times> CAMD_BlockInfo list
    \<Rightarrow> (u8 list \<times> u8 list \<times> CAMD_BlockInfo list) option" where
  "finalize_blocks e [] acc = Some acc"
| "finalize_blocks e ((name, s) # items) (binary, string_table, infos) =
     (case stack_finalize e s of None \<Rightarrow> None
      | Some (stack_bytes, _) \<Rightarrow>
          let padded = pad_to_alignment stack_bytes;
              info = \<lparr>bi_offset = of_nat (length binary + length padded), bi_size = of_nat (length stack_bytes),
                bi_name_idx = 16 + of_nat (length string_table), bi_flags = get_flags (out_fmt s) 0\<rparr>
          in finalize_blocks e items (binary @ rev padded, string_table @ name @ [0], infos @ [info]))"

definition context_binary :: "basic_context \<Rightarrow> u8 list option" where
  "context_binary ctx =
     (let e = ctx_endianness ctx
      in case finalize_blocks e (stack_map ctx) ([], [], []) of None \<Rightarrow> None
         | Some (binary, string_table, infos) \<Rightarrow>
             let table = pad_to_alignment string_table;
                 length_of_binary = (of_nat (MD_HEADER_SIZE + length table + MD_BLOCK_INFO_SIZE * length infos
                   + length binary) :: u64);
                 infos' = map (\<lambda>bi. bi\<lparr>bi_offset := length_of_binary - bi_offset bi\<rparr>) infos;
                 header = \<lparr>hdr_magic = MD_MAGIC, hdr_endianness = e, hdr_version = 0x01, pad_unused = [0, 0],
                   block_list_offset = of_nat (MD_HEADER_SIZE + length table), n_blocks = of_nat (length infos)\<rparr>
             in Some (rev (binary @ concat (map (\<lambda>bi. rev (serialize_block_info bi e)) infos') @ rev table @
                       rev (serialize_md_header header))))"

text \<open>
  \<^verbatim>\<open>finalize\<close>: the result, the bytes given to the \<^verbatim>\<open>write\<close> hook, whose result is ignored, and the context,
  whose stacks are then empty.
\<close>

definition context_finalize ::
  "bool \<Rightarrow> bool \<Rightarrow> basic_context \<Rightarrow> (md_err \<times> u8 list option \<times> basic_context) option" where
  "context_finalize has_write has_finalize ctx =
     (if \<not> has_write \<or> \<not> has_finalize then Some (MD_E_NO_HOOKS, None, ctx)
      else map_option (\<lambda>bin. (MD_SUCCESS, Some bin,
             ctx\<lparr>stack_map := map (\<lambda>(name, s). (name, s\<lparr>m_stack := []\<rparr>)) (stack_map ctx)\<rparr>)) (context_binary ctx))"

definition add_block_from_block_info ::
  "CAMD_BlockInfo \<Rightarrow> u8 list \<Rightarrow> basic_context \<Rightarrow> (md_err \<times> basic_context) option" where
  "add_block_from_block_info info bin ctx =
     (case get_fmt (bi_flags info) of None \<Rightarrow> Some (MD_E_INVALID_BINARY, ctx)
      | Some fmt \<Rightarrow>
         (case get_block_info_name bin info of None \<Rightarrow> None
          | Some name \<Rightarrow>
              let start = drop (unat (bi_offset info)) bin; s = basic_stack_construct fmt
              in case (if fmt = MD_FMT_RAW_BYTES then raw_deserialize start (unat (bi_size info)) s
                       else if fmt = MD_FMT_MSGPACK then msgpack_deserialize start (unat (bi_size info)) s
                       else None) of None \<Rightarrow> None
                 | Some s' \<Rightarrow>
                    (case register name s' ctx of None \<Rightarrow> Some (MD_E_INVALID_BINARY, ctx)
                     | Some ctx' \<Rightarrow> Some (MD_SUCCESS, ctx'))))"

fun add_blocks ::
  "CAMD_BlockInfo list \<Rightarrow> u8 list \<Rightarrow> basic_context \<Rightarrow> (md_err \<times> basic_context) option" where
  "add_blocks [] bin ctx = Some (MD_SUCCESS, ctx)"
| "add_blocks (info # infos) bin ctx =
     (case add_block_from_block_info info bin ctx of None \<Rightarrow> None
      | Some (err, ctx') \<Rightarrow>
          if err \<noteq> MD_SUCCESS then Some (MD_E_INVALID_BINARY, ctx') else add_blocks infos bin ctx')"

definition decode_binary :: "u8 list option \<Rightarrow> basic_context \<Rightarrow> (md_err \<times> basic_context) option" where
  "decode_binary mapped ctx =
     (case mapped of None \<Rightarrow> Some (MD_E_NO_HOOKS, ctx)
      | Some bin \<Rightarrow>
         (case decode_md_header bin of None \<Rightarrow> Some (MD_E_INVALID_BINARY, ctx)
          | Some h \<Rightarrow>
              let ctx1 = ctx\<lparr>ctx_endianness := hdr_endianness h\<rparr>
              in case decode_md_block_info_list (drop (unat (block_list_offset h)) bin) h (of_nat (length bin)) of
                   None \<Rightarrow> None
                 | Some None \<Rightarrow> Some (MD_E_INVALID_BINARY, ctx1)
                 | Some (Some infos) \<Rightarrow> add_blocks infos bin ctx1))"

definition md_init :: "u8 list option \<Rightarrow> basic_context option option" where
  "md_init mapped =
     map_option (\<lambda>(err, ctx). if err = MD_E_INVALID_BINARY then None else Some ctx)
       (decode_binary mapped basic_context_construct)"

end
