(* ===== verification/Metadata_Binary.thy ===== *)
theory Metadata_Binary
  imports Metadata_Context
begin

text \<open>
  The layout of the binary that a metadata context writes, and that it is read back: the header, the block
  infos, the names and the blocks are where the reader looks for them, and each block is read into a stack
  that holds what the written one held. At the end stand two boundary cases of the reader.
\<close>

unbundle bit_operations_syntax

section \<open>Round trip of the format\<close>

abbreviation (input) endian_ok :: "u8 \<Rightarrow> bool" where
  "endian_ok e \<equiv> e = MD_ENDIAN_LITTLE \<or> e = MD_ENDIAN_BIG"

lemma pad_extends: "\<exists>zs. pad_to_alignment bs = bs @ zs"
proof (induction bs rule: pad_to_alignment.induct)
  case (1 bs)
  show ?case
  proof (cases "length bs mod 8 \<noteq> 0")
    case True
    from 1 [OF True] obtain zs where "pad_to_alignment (bs @ [0]) = bs @ 0 # zs" by auto
    then show ?thesis using True by (simp add: pad_to_alignment.simps [of bs])
  qed (simp add: pad_to_alignment.simps)
qed

lemma length_pad: "length bs \<le> length (pad_to_alignment bs)"
  using pad_extends [of bs] by auto

lemma swap_swap_bytes: "w \<le> 8 \<Longrightarrow> swap_bytes w (swap_bytes w v) = take_bit (8 * w) v"
  using le_bytes_value [of "rev (le_bytes w v)"] by (simp add: swap_bytes_def bytes_value_le_bytes)

lemma take_bit_swap_bytes: "w \<le> 8 \<Longrightarrow> take_bit (8 * w) (swap_bytes w v) = swap_bytes w v"
  using le_bytes_value [of "rev (le_bytes w v)"] bytes_value_le_bytes [of w "swap_bytes w v"]
  by (simp add: swap_bytes_def)

lemma length_serialize_int [simp]: "length (serialize_int w v e) = w"
  by (simp add: serialize_int_def)

lemma read_serialize_int:
  assumes "w \<le> 8"
  shows "read_value w (serialize_int w v e @ rest) e = Some (take_bit (8 * w) v)"
proof -
  have "swap_bytes w (take_bit (8 * w) v) = swap_bytes w v"
    by (metis assms swap_swap_bytes take_bit_swap_bytes)
  then show ?thesis
    using assms by (simp add: read_value_def serialize_int_def bytes_value_le_bytes take_bit_swap_bytes swap_swap_bytes)
qed

lemma byte_serialize_int: "serialize_int (Suc 0) (ucast (b :: u8)) e = [b]"
proof -
  have one: "le_bytes (Suc 0) v = [ucast v]" for v
    by (simp add: le_bytes_def byte_of_def)
  have b: "ucast (ucast b :: u64) = b"
    by (rule bit_word_eqI) (simp add: bit_unsigned_iff)
  then have "swap_bytes (Suc 0) (ucast b) = ucast b"
    by (simp add: swap_bytes_def one)
  then show ?thesis
    by (simp add: serialize_int_def one b)
qed

lemma ucast_32_64_32: "ucast (ucast (v :: u32) :: u64) = v"
  by (rule bit_word_eqI) (simp add: bit_unsigned_iff)

lemma take_bit_ucast32: "take_bit 32 (ucast (v :: u32) :: u64) = ucast v"
  by (rule bit_word_eqI) (auto simp: bit_take_bit_iff bit_unsigned_iff dest: bit_imp_le_length)

lemma read_serialize_int32:
  "read_value 4 (serialize_int 4 (ucast (v :: u32)) e @ rest) e = Some (ucast v)"
  using read_serialize_int [of 4 "ucast v" e rest] by (simp add: take_bit_ucast32)

lemma get_fmt_flags: "get_fmt (get_flags fmt 0) = Some fmt"
  by (cases fmt) (simp_all add: get_fmt_def get_flags_def fmt_code_def)

text \<open>The conditions under which an info is accepted.\<close>

definition info_valid :: "CAMD_Header \<Rightarrow> u64 \<Rightarrow> CAMD_BlockInfo \<Rightarrow> bool" where
  "info_valid h bin_size bi \<longleftrightarrow>
     ucast (block_list_offset h + 24 * n_blocks h) \<le> bi_offset bi \<and> bi_offset bi + bi_size bi \<le> bin_size \<and>
     bi_name_idx bi \<le> block_list_offset h \<and> get_fmt (bi_flags bi) \<noteq> None"

lemma decode_info:
  assumes "info_valid h bin_size bi"
  shows "decode_md_block_info (serialize_block_info bi (hdr_endianness h) @ rest) h bin_size = Some (Some bi)"
proof -
  have ge: "\<not> bi_offset bi < ucast (block_list_offset h + 24 * n_blocks h)" "\<not> bin_size < bi_offset bi + bi_size bi"
    and nm: "\<not> (ucast (block_list_offset h) :: u64) < ucast (bi_name_idx bi)"
    using assms by (auto simp: info_valid_def word_less_nat_alt word_le_nat_alt)
  show ?thesis
    using assms ge nm
    by (simp add: decode_md_block_info_def serialize_block_info_def Let_def read_serialize_int read_serialize_int32
        take_bit_word_eq_self ucast_32_64_32) (simp add: info_valid_def)
qed

lemma decode_infos:
  assumes "\<forall>bi \<in> set infos. info_valid h bin_size bi"
  shows "decode_block_infos (length infos)
     (concat (map (\<lambda>bi. serialize_block_info bi (hdr_endianness h)) infos) @ rest) h bin_size = Some (Some infos)"
  using assms
proof (induction infos)
  case (Cons bi infos)
  have "length (serialize_block_info bi (hdr_endianness h)) = 24"
    by (simp add: serialize_block_info_def)
  then show ?case using Cons by (simp add: decode_info)
qed simp

section \<open>The layout of the binary\<close>

text \<open>A block that is written: its name, its bytes without padding, and its format.\<close>

type_synonym md_block = "u8 list \<times> u8 list \<times> md_fmt"

definition blk_pad :: "md_block \<Rightarrow> u8 list" where
  "blk_pad b = pad_to_alignment (fst (snd b))"

definition blk_name :: "md_block \<Rightarrow> u8 list" where
  "blk_name b = fst b @ [0]"

text \<open>The info of a block that has \<open>p\<close> bytes of blocks and \<open>t\<close> bytes of names before it.\<close>

definition blk_info :: "nat \<Rightarrow> nat \<Rightarrow> md_block \<Rightarrow> CAMD_BlockInfo" where
  "blk_info p t b = \<lparr>bi_offset = of_nat (p + length (blk_pad b)), bi_size = of_nat (length (fst (snd b))),
     bi_name_idx = 16 + of_nat t, bi_flags = get_flags (snd (snd b)) 0\<rparr>"

fun blk_infos :: "nat \<Rightarrow> nat \<Rightarrow> md_block list \<Rightarrow> CAMD_BlockInfo list" where
  "blk_infos p t [] = []"
| "blk_infos p t (b # bs) =
     blk_info p t b # blk_infos (p + length (blk_pad b)) (t + length (blk_name b)) bs"

lemma length_blk_infos [simp]: "length (blk_infos p t bs) = length bs"
  by (induction p t bs rule: blk_infos.induct) simp_all

lemma nth_blk_infos:
  "i < length bs \<Longrightarrow> blk_infos p t bs ! i =
     blk_info (p + length (concat (map blk_pad (take i bs)))) (t + length (concat (map blk_name (take i bs)))) (bs ! i)"
proof (induction p t bs arbitrary: i rule: blk_infos.induct)
  case (2 p t b bs)
  then show ?case by (cases i) (simp_all add: add.assoc)
qed simp

text \<open>Which block a stack becomes.\<close>

definition block_of :: "u8 \<Rightarrow> u8 list \<times> basic_stack \<Rightarrow> md_block \<Rightarrow> bool" where
  "block_of e item b \<longleftrightarrow> fst b = fst item \<and> snd (snd b) = out_fmt (snd item) \<and>
     (\<exists>s'. stack_finalize e (snd item) = Some (fst (snd b), s'))"

lemma finalize_blocks_eq:
  assumes "list_all2 (block_of e) items bs"
  shows "finalize_blocks e items (binary, string_table, infos) =
     Some (binary @ concat (map (\<lambda>b. rev (blk_pad b)) bs), string_table @ concat (map blk_name bs),
       infos @ blk_infos (length binary) (length string_table) bs)"
  using assms
proof (induction arbitrary: binary string_table infos rule: list_all2_induct)
  case (Cons item items b bs)
  obtain name s where item: "item = (name, s)" by (cases item)
  from Cons.hyps(1) obtain s' where "stack_finalize e s = Some (fst (snd b), s')" "fst b = name" "snd (snd b) = out_fmt s"
    by (auto simp: block_of_def item)
  then show ?case
    by (simp add: item Cons.IH Let_def blk_pad_def blk_name_def blk_info_def)
qed simp

text \<open>The binary as the concatenation of its parts.\<close>

definition md_table :: "md_block list \<Rightarrow> u8 list" where
  "md_table bs = pad_to_alignment (concat (map blk_name bs))"

definition md_length :: "md_block list \<Rightarrow> nat" where
  "md_length bs = 16 + length (md_table bs) + 24 * length bs + length (concat (map blk_pad bs))"

definition md_infos :: "md_block list \<Rightarrow> CAMD_BlockInfo list" where
  "md_infos bs = map (\<lambda>bi. bi\<lparr>bi_offset := of_nat (md_length bs) - bi_offset bi\<rparr>) (blk_infos 0 0 bs)"

definition md_header :: "u8 \<Rightarrow> md_block list \<Rightarrow> CAMD_Header" where
  "md_header e bs = \<lparr>hdr_magic = MD_MAGIC, hdr_endianness = e, hdr_version = 0x01, pad_unused = [0, 0],
     block_list_offset = of_nat (16 + length (md_table bs)), n_blocks = of_nat (length bs)\<rparr>"

definition md_binary :: "u8 \<Rightarrow> md_block list \<Rightarrow> u8 list" where
  "md_binary e bs = serialize_md_header (md_header e bs) @ md_table bs @
     concat (map (\<lambda>bi. serialize_block_info bi e) (rev (md_infos bs))) @ concat (rev (map blk_pad bs))"

lemma length_concat_rev: "length (concat (map (\<lambda>b. rev (f b)) bs)) = length (concat (map f bs))"
  by (induction bs) simp_all

lemma rev_concat_rev: "rev (concat (map (\<lambda>b. rev (f b)) bs)) = concat (map f (rev bs))"
  by (induction bs) simp_all

lemma context_binary_eq:
  assumes "list_all2 (block_of (ctx_endianness ctx)) (stack_map ctx) bs"
  shows "context_binary ctx = Some (md_binary (ctx_endianness ctx) bs)"
  unfolding context_binary_def Let_def finalize_blocks_eq [OF assms]
  by (simp add: md_binary_def md_header_def md_infos_def md_length_def md_table_def rev_concat_rev length_concat_rev
      rev_map add.assoc o_def)

section \<open>Reading the binary\<close>

lemma length_header: "length (hdr_magic h) = 4 \<Longrightarrow> length (pad_unused h) = 2 \<Longrightarrow> length (serialize_md_header h) = 16"
  by (simp add: serialize_md_header_def Let_def length_concat o_def sum_list_triv)

lemma length_md_header: "length (serialize_md_header (md_header e bs)) = 16"
  by (rule length_header) (simp_all add: md_header_def)

lemma length_md_infos [simp]: "length (md_infos bs) = length bs"
  by (simp add: md_infos_def)

lemma length_md_binary: "length (md_binary e bs) = md_length bs"
proof -
  have "length (concat (map (\<lambda>bi. serialize_block_info bi e) infos)) = 24 * length infos" for infos
    by (induction infos) (simp_all add: serialize_block_info_def)
  moreover have "length (concat (rev (map blk_pad bs))) = length (concat (map blk_pad bs))"
    by (simp add: length_concat rev_map [symmetric] sum_list_rev)
  ultimately show ?thesis
    by (simp add: md_binary_def length_md_header md_length_def)
qed

lemma decode_header:
  assumes "md_length bs < 2 ^ 32" and "bs \<noteq> []" and "endian_ok e"
  shows "decode_md_header (md_binary e bs) = Some (md_header e bs)"
proof -
  let ?h = "md_header e bs"
  obtain rest where bin: "md_binary e bs = MD_MAGIC @ [e, 1, 0, 0] @
      serialize_int 4 (ucast (block_list_offset ?h)) e @ serialize_int 4 (ucast (n_blocks ?h)) e @ rest"
    by (simp add: md_binary_def serialize_md_header_def md_header_def byte_serialize_int
        byte_serialize_int [of 1, simplified])
  have "16 + length (md_table bs) < md_length bs"
    using assms(2) by (simp add: md_length_def)
  then have off: "unat (block_list_offset ?h) = 16 + length (md_table bs)"
    using assms(1) unat_of_nat_small [of "16 + length (md_table bs)", where 'a = 32] by (simp add: md_header_def)
  have "\<not> (ucast (block_list_offset ?h) :: u64) < 16" and
    "\<not> of_nat (md_length bs) \<le> (ucast (block_list_offset ?h) :: u64)"
    using off \<open>16 + length (md_table bs) < md_length bs\<close> assms(1)
    by (simp_all add: word_less_nat_alt word_le_nat_alt unat_of_nat_small)
  then show ?thesis
    unfolding decode_md_header_def length_md_binary Let_def
    using assms(3) unfolding bin
    by (auto simp: read_serialize_int32 ucast_32_64_32 md_length_def md_header_def)
qed

text \<open>What an info says of a binary: the name and the bytes of the block are where it points.\<close>

definition located :: "u8 list \<Rightarrow> CAMD_BlockInfo \<Rightarrow> md_block \<Rightarrow> bool" where
  "located bin bi b \<longleftrightarrow> (\<exists>rest. drop (unat (bi_name_idx bi)) bin = fst b @ 0 # rest) \<and>
     (\<exists>rest. drop (unat (bi_offset bi)) bin = fst (snd b) @ rest) \<and>
     unat (bi_size bi) = length (fst (snd b)) \<and> bi_flags bi = get_flags (snd (snd b)) 0"

lemma blk_split:
  assumes "i < length bs"
  shows "concat (map f bs) = concat (map f (take i bs)) @ f (bs ! i) @ concat (map f (drop (Suc i) bs))"
proof -
  have "map f bs = map f (take i bs) @ f (bs ! i) # map f (drop (Suc i) bs)"
    using id_take_nth_drop [OF assms] by (metis list.simps(9) map_append)
  then show ?thesis by simp
qed

lemma blk_split_rev:
  assumes "i < length bs"
  shows "concat (rev (map f bs)) =
    concat (rev (map f (drop (Suc i) bs))) @ f (bs ! i) @ concat (rev (map f (take i bs)))"
proof -
  have "map f bs = map f (take i bs) @ f (bs ! i) # map f (drop (Suc i) bs)"
    using id_take_nth_drop [OF assms] by (metis list.simps(9) map_append)
  then show ?thesis by simp
qed

lemma length_concat_map_rev: "length (concat (rev (map f bs))) = length (concat (map f bs))"
  by (simp add: length_concat rev_map [symmetric] sum_list_rev)

text \<open>Where the block at position \<open>i\<close> and its name lie.\<close>

lemma md_offsets:
  assumes "i < length bs" and "md_length bs < 2 ^ 32"
  defines "p \<equiv> length (concat (map blk_pad (take i bs))) + length (blk_pad (bs ! i))"
    and "t \<equiv> length (concat (map blk_name (take i bs)))"
  shows "unat (bi_offset (md_infos bs ! i)) = md_length bs - p"
    and "unat (bi_name_idx (md_infos bs ! i)) = 16 + t"
    and "unat (bi_size (md_infos bs ! i)) = length (fst (snd (bs ! i)))"
    and "p \<le> length (concat (map blk_pad bs))" and "t + length (blk_name (bs ! i)) \<le> length (md_table bs)"
    and "length (fst (snd (bs ! i))) \<le> p"
proof -
  show p: "p \<le> length (concat (map blk_pad bs))"
    unfolding p_def blk_split [OF assms(1), of blk_pad] by simp
  have "t + length (blk_name (bs ! i)) \<le> length (concat (map blk_name bs))"
    unfolding t_def blk_split [OF assms(1), of blk_name] by simp
  then show t: "t + length (blk_name (bs ! i)) \<le> length (md_table bs)"
    using length_pad [of "concat (map blk_name bs)"] by (simp add: md_table_def)
  show sz: "length (fst (snd (bs ! i))) \<le> p"
    using length_pad [of "fst (snd (bs ! i))"] by (simp add: p_def blk_pad_def)
  have le: "p \<le> md_length bs" and tl: "16 + t \<le> md_length bs"
    using p t by (simp_all add: md_length_def)
  have nth: "md_infos bs ! i = (blk_info (length (concat (map blk_pad (take i bs)))) t (bs ! i))
      \<lparr>bi_offset := of_nat (md_length bs) - of_nat p\<rparr>"
    using assms(1) by (simp add: md_infos_def nth_blk_infos t_def blk_info_def p_def)
  have "of_nat (md_length bs) - of_nat p = (of_nat (md_length bs - p) :: u64)"
    using le by (rule of_nat_diff [symmetric])
  then show "unat (bi_offset (md_infos bs ! i)) = md_length bs - p"
    using assms(2) by (simp add: nth unat_of_nat_small)
  show "unat (bi_name_idx (md_infos bs ! i)) = 16 + t"
    using assms(2) tl unat_of_nat_small [of "16 + t", where 'a = 32] by (simp add: nth blk_info_def)
  show "unat (bi_size (md_infos bs ! i)) = length (fst (snd (bs ! i)))"
    using assms(2) le sz by (simp add: nth blk_info_def unat_of_nat_small)
qed

lemma md_located:
  assumes "i < length bs" and "md_length bs < 2 ^ 32"
  shows "located (md_binary e bs) (md_infos bs ! i) (bs ! i)"
proof -
  note at = md_offsets [OF assms]
  let ?b = "bs ! i" and ?hdr = "serialize_md_header (md_header e bs)"
  let ?infos = "concat (map (\<lambda>bi. serialize_block_info bi e) (rev (md_infos bs)))"
  obtain zs where zs: "md_table bs = concat (map blk_name bs) @ zs"
    using pad_extends by (metis md_table_def)
  have "md_binary e bs = (?hdr @ concat (map blk_name (take i bs))) @ blk_name ?b @
      (concat (map blk_name (drop (Suc i) bs)) @ zs @ ?infos @ concat (rev (map blk_pad bs)))"
    by (simp add: md_binary_def zs blk_split [OF assms(1), of blk_name])
  moreover have "unat (bi_name_idx (md_infos bs ! i)) = length (?hdr @ concat (map blk_name (take i bs)))"
    by (simp add: at(2) length_md_header)
  ultimately have "\<exists>rest. drop (unat (bi_name_idx (md_infos bs ! i))) (md_binary e bs) = fst ?b @ 0 # rest"
    by (simp add: blk_name_def)
  moreover
  let ?pre = "?hdr @ md_table bs @ ?infos @ concat (rev (map blk_pad (drop (Suc i) bs)))"
  have bin: "md_binary e bs = ?pre @ blk_pad ?b @ concat (rev (map blk_pad (take i bs)))"
    by (simp add: md_binary_def blk_split_rev [OF assms(1), of blk_pad])
  have "length (md_binary e bs) = length ?pre + (length (concat (map blk_pad (take i bs))) + length (blk_pad ?b))"
    unfolding bin by (simp add: length_concat_map_rev)
  then have "unat (bi_offset (md_infos bs ! i)) = length ?pre"
    unfolding at(1) length_md_binary by linarith
  then have "drop (unat (bi_offset (md_infos bs ! i))) (md_binary e bs) =
      blk_pad ?b @ concat (rev (map blk_pad (take i bs)))"
    unfolding bin by simp
  moreover have "\<exists>zs. blk_pad ?b = fst (snd ?b) @ zs"
    using pad_extends by (simp add: blk_pad_def)
  ultimately show ?thesis
    using at(3) assms(1) by (auto simp: located_def md_infos_def nth_blk_infos blk_info_def)
qed

lemma md_info_valid:
  assumes "i < length bs" and "md_length bs < 2 ^ 32"
  shows "info_valid (md_header e bs) (of_nat (md_length bs)) (md_infos bs ! i)"
proof -
  note at = md_offsets [OF assms]
  let ?bi = "md_infos bs ! i" and ?h = "md_header e bs"
  let ?n = "16 + length (md_table bs) + 24 * length bs"
  have n: "?n < 2 ^ 32" using assms(2) by (simp add: md_length_def)
  have "block_list_offset ?h + 24 * n_blocks ?h = of_nat ?n"
    by (simp add: md_header_def)
  then have least: "unat (block_list_offset ?h + 24 * n_blocks ?h) = ?n"
    using unat_of_nat_small [of ?n, where 'a = 32] n by simp
  have offset: "unat (block_list_offset ?h) = 16 + length (md_table bs)"
    using n unat_of_nat_small [of "16 + length (md_table bs)", where 'a = 32] by (simp add: md_header_def)
  have total: "unat (of_nat (md_length bs) :: u64) = md_length bs"
    using assms(2) by (simp add: unat_of_nat_small)
  have "?n \<le> unat (bi_offset ?bi)"
    using at(1,4) by (simp add: md_length_def)
  moreover have "unat (bi_offset ?bi + bi_size ?bi) \<le> md_length bs"
  proof -
    have "unat (bi_offset ?bi) + unat (bi_size ?bi) \<le> md_length bs"
      using at(1,3,4,6) by (simp add: md_length_def)
    then show ?thesis
      using assms(2) by (subst unat_plus_no_wrap) simp_all
  qed
  moreover have "unat (bi_name_idx ?bi) \<le> unat (block_list_offset ?h)"
    using at(2,5) offset by simp
  moreover have "get_fmt (bi_flags ?bi) \<noteq> None"
    using assms(1) by (simp add: md_infos_def nth_blk_infos blk_info_def get_fmt_flags)
  ultimately show ?thesis
    unfolding info_valid_def word_le_nat_alt total by (simp add: least)
qed

section \<open>Round trip of a context\<close>

text \<open>
  What becomes of a stack: in MessagePack format its values stand for the same trees, and in the raw
  format it holds one byte string, the bytes of its values.
\<close>

definition survives :: "u8 \<Rightarrow> basic_stack \<Rightarrow> basic_stack \<Rightarrow> bool" where
  "survives e s s' \<longleftrightarrow> out_fmt s' = out_fmt s \<and>
     (\<exists>ts. list_all2 (denotes 0 (m_store s)) (m_stack s) ts \<and>
        list_all2 (denotes 0 (m_store s')) (m_stack s')
          (if out_fmt s = MD_FMT_RAW_BYTES then [T_bytes (concat (map (raw_bytes e) ts))] else ts))"

definition writable :: "basic_stack \<Rightarrow> bool" where
  "writable s \<longleftrightarrow> stack_ok s \<and> (out_fmt s = MD_FMT_RAW_BYTES \<or> out_fmt s = MD_FMT_MSGPACK \<and>
     (\<exists>ts. list_all2 (denotes 0 (m_store s)) (m_stack s) ts \<and> (\<forall>t \<in> set ts. encodable t)))"

text \<open>Reading the block of a stack.\<close>

definition read_block :: "md_fmt \<Rightarrow> u8 list \<Rightarrow> nat \<Rightarrow> basic_stack option" where
  "read_block fmt data n =
     (if fmt = MD_FMT_RAW_BYTES then raw_deserialize data n (basic_stack_construct fmt)
      else if fmt = MD_FMT_MSGPACK then msgpack_deserialize data n (basic_stack_construct fmt) else None)"

lemma msgpack_deserialize_trees:
  assumes "\<forall>t \<in> set ts. encodable t"
  shows "\<exists>s'. msgpack_deserialize (concat (map encode ts) @ rest) (length (concat (map encode ts)))
       (basic_stack_construct fmt) = Some s' \<and>
     list_all2 (denotes 0 (m_store s')) (m_stack s') ts \<and> out_fmt s' = fmt"
proof -
  have "length ts \<le> length (concat (map encode ts) @ rest)"
    using length_encodings [of ts] by simp
  from decode_block [OF assms _ this, of "basic_stack_construct fmt" rest] show ?thesis
    by (auto simp: msgpack_deserialize_def basic_stack_construct_def)
qed

lemma push_bytes_fresh:
  fixes bs fmt
  defines "s' \<equiv> snd (push_bytes bs (basic_stack_construct fmt))"
  shows "out_fmt s' = fmt" and "list_all2 (denotes 0 (m_store s')) (m_stack s') [T_bytes bs]"
proof -
  have "pushed (basic_stack_construct fmt) (T_bytes bs) s'"
    unfolding s'_def by (rule pushed_scalar(4)) (simp add: basic_stack_construct_def)
  then obtain v where "m_stack s' = [v]" "denotes 0 (m_store s') v (T_bytes bs)" "out_fmt s' = fmt"
    by (auto simp: pushed_def basic_stack_construct_def)
  then show "out_fmt s' = fmt" and "list_all2 (denotes 0 (m_store s')) (m_stack s') [T_bytes bs]"
    by simp_all
qed

text \<open>
  What the context relies on in a serializer: a stack that is \<open>ok\<close> is written, and reading its bytes back, whatever
  follows them, gives a stack whose values stand for the trees \<open>kept\<close> of those that were written.
\<close>

locale stack_serializer =
  fixes fmt :: md_fmt and wr :: "u8 \<Rightarrow> basic_stack \<Rightarrow> u8 list option"
    and rd :: "u8 list \<Rightarrow> nat \<Rightarrow> basic_stack \<Rightarrow> basic_stack option"
    and ok :: "basic_stack \<Rightarrow> bool" and kept :: "u8 \<Rightarrow> md_tree list \<Rightarrow> md_tree list"
  assumes written: "ok s \<Longrightarrow> \<exists>ts bytes. list_all2 (denotes 0 (m_store s)) (m_stack s) ts \<and> wr e s = Some bytes \<and>
      (\<forall>rest. \<exists>s'. rd (bytes @ rest) (length bytes) (basic_stack_construct fmt) = Some s' \<and> out_fmt s' = fmt \<and>
        list_all2 (denotes 0 (m_store s')) (m_stack s') (kept e ts))"
begin

lemma block_kept:
  assumes "ok s" and "list_all2 (denotes 0 (m_store s)) (m_stack s) ts"
  obtains bytes where "wr e s = Some bytes"
    and "\<And>rest. \<exists>s'. rd (bytes @ rest) (length bytes) (basic_stack_construct fmt) = Some s' \<and> out_fmt s' = fmt \<and>
      list_all2 (denotes 0 (m_store s')) (m_stack s') (kept e ts)"
proof -
  from written [OF assms(1), of e] obtain ts' bytes where ts': "list_all2 (denotes 0 (m_store s)) (m_stack s) ts'"
    "wr e s = Some bytes" and read: "\<forall>rest. \<exists>s'. rd (bytes @ rest) (length bytes) (basic_stack_construct fmt) = Some s' \<and>
      out_fmt s' = fmt \<and> list_all2 (denotes 0 (m_store s')) (m_stack s') (kept e ts')"
    by blast
  have "ts' = ts" by (rule list_all2_denotes_unique [OF assms(2) ts'(1)])
  with read show thesis by (intro that [OF ts'(2)]) blast
qed

lemma block_survives:
  assumes "ok s" and "out_fmt s = fmt" and "\<And>ts. (if fmt = MD_FMT_RAW_BYTES then [T_bytes (concat (map (raw_bytes e) ts))] else ts) = kept e ts"
  shows "\<exists>bytes. wr e s = Some bytes \<and>
     (\<forall>rest. \<exists>s'. rd (bytes @ rest) (length bytes) (basic_stack_construct fmt) = Some s' \<and> survives e s s')"
proof -
  from written [OF assms(1)] obtain ts where ts: "list_all2 (denotes 0 (m_store s)) (m_stack s) ts"
    by blast
  from block_kept [OF assms(1) ts, of e] obtain bytes where bytes: "wr e s = Some bytes"
    and read: "\<And>rest. \<exists>s'. rd (bytes @ rest) (length bytes) (basic_stack_construct fmt) = Some s' \<and> out_fmt s' = fmt \<and>
      list_all2 (denotes 0 (m_store s')) (m_stack s') (kept e ts)"
    by blast
  have "\<exists>s'. rd (bytes @ rest) (length bytes) (basic_stack_construct fmt) = Some s' \<and> survives e s s'" for rest
    using read [of rest] ts assms(2) unfolding survives_def assms(2) assms(3) by auto
  with bytes show ?thesis by blast
qed

end

interpretation raw: stack_serializer MD_FMT_RAW_BYTES raw_serialize raw_deserialize stack_ok
  "\<lambda>e ts. [T_bytes (concat (map (raw_bytes e) ts))]"
proof
  fix s :: basic_stack and e
  assume "stack_ok s"
  from serialize_stack [OF this] obtain ts where ts: "list_all2 (denotes 0 (m_store s)) (m_stack s) ts"
    "raw_serialize e s = Some (concat (map (raw_bytes e) ts))"
    by blast
  let ?bytes = "concat (map (raw_bytes e) ts)"
  let ?s' = "snd (push_bytes ?bytes (basic_stack_construct MD_FMT_RAW_BYTES))"
  have "raw_deserialize (?bytes @ rest) (length ?bytes) (basic_stack_construct MD_FMT_RAW_BYTES) = Some ?s'" for rest
    by (simp add: raw_deserialize_def)
  then show "\<exists>ts bytes. list_all2 (denotes 0 (m_store s)) (m_stack s) ts \<and> raw_serialize e s = Some bytes \<and>
      (\<forall>rest. \<exists>s'. raw_deserialize (bytes @ rest) (length bytes) (basic_stack_construct MD_FMT_RAW_BYTES) = Some s' \<and>
        out_fmt s' = MD_FMT_RAW_BYTES \<and>
        list_all2 (denotes 0 (m_store s')) (m_stack s') [T_bytes (concat (map (raw_bytes e) ts))])"
    using ts push_bytes_fresh by (intro exI [of _ ts] exI [of _ ?bytes]) auto
qed

interpretation msgpack: stack_serializer MD_FMT_MSGPACK "\<lambda>_. msgpack_serialize" msgpack_deserialize
  "\<lambda>s. stack_ok s \<and> (\<exists>ts. list_all2 (denotes 0 (m_store s)) (m_stack s) ts \<and> (\<forall>t \<in> set ts. encodable t))"
  "\<lambda>_ ts. ts"
proof
  fix s :: basic_stack and e :: u8
  assume "stack_ok s \<and> (\<exists>ts. list_all2 (denotes 0 (m_store s)) (m_stack s) ts \<and> (\<forall>t \<in> set ts. encodable t))"
  then obtain ts where ts: "stack_ok s" "list_all2 (denotes 0 (m_store s)) (m_stack s) ts" "\<forall>t \<in> set ts. encodable t"
    by blast
  have "msgpack_serialize s = Some (concat (map encode ts))"
    using serialize_stack [OF ts(1)] list_all2_denotes_unique [OF ts(2)] by blast
  then show "\<exists>ts bytes. list_all2 (denotes 0 (m_store s)) (m_stack s) ts \<and> msgpack_serialize s = Some bytes \<and>
      (\<forall>rest. \<exists>s'. msgpack_deserialize (bytes @ rest) (length bytes) (basic_stack_construct MD_FMT_MSGPACK) = Some s' \<and>
        out_fmt s' = MD_FMT_MSGPACK \<and> list_all2 (denotes 0 (m_store s')) (m_stack s') ts)"
    using ts(2) msgpack_deserialize_trees [OF ts(3), of _ MD_FMT_MSGPACK]
    by (intro exI [of _ ts] exI [of _ "concat (map encode ts)"]) (auto simp: conj_commute)
qed

lemma write_read_block:
  assumes "writable s"
  shows "\<exists>bytes s1. stack_finalize e s = Some (bytes, s1) \<and>
     (\<forall>rest. \<exists>s'. read_block (out_fmt s) (bytes @ rest) (length bytes) = Some s' \<and> survives e s s')"
proof (cases "out_fmt s = MD_FMT_RAW_BYTES")
  case True
  with assms have "\<exists>bytes. raw_serialize e s = Some bytes \<and> (\<forall>rest. \<exists>s'.
      raw_deserialize (bytes @ rest) (length bytes) (basic_stack_construct MD_FMT_RAW_BYTES) = Some s' \<and> survives e s s')"
    by (intro raw.block_survives) (simp_all add: writable_def)
  with True show ?thesis by (auto simp: stack_finalize_def read_block_def)
next
  case False
  with assms have fmt: "out_fmt s = MD_FMT_MSGPACK" by (auto simp: writable_def)
  with assms have "\<exists>bytes. msgpack_serialize s = Some bytes \<and> (\<forall>rest. \<exists>s'.
      msgpack_deserialize (bytes @ rest) (length bytes) (basic_stack_construct MD_FMT_MSGPACK) = Some s' \<and> survives e s s')"
    by (intro msgpack.block_survives) (auto simp: writable_def)
  with fmt show ?thesis by (auto simp: stack_finalize_def read_block_def)
qed

text \<open>The info \<open>bi\<close> adds the stack of \<open>item\<close> to every context that has no stack of its name.\<close>

definition adds :: "u8 \<Rightarrow> u8 list \<Rightarrow> CAMD_BlockInfo \<Rightarrow> u8 list \<times> basic_stack \<Rightarrow> bool" where
  "adds e bin bi item \<longleftrightarrow> (\<exists>s'. survives e (snd item) s' \<and>
     (\<forall>ctx. fst item \<notin> fst ` set (stack_map ctx) \<longrightarrow> add_block_from_block_info bi bin ctx =
        Some (MD_SUCCESS, ctx\<lparr>stack_map := stack_map ctx @ [(fst item, s')]\<rparr>)))"

lemma located_adds:
  assumes "located bin bi b" and "block_of e item b" and "0 \<notin> set (fst item)" and "writable (snd item)"
  shows "adds e bin bi item"
proof -
  obtain name s where item: "item = (name, s)" by (cases item)
  from assms(1) obtain r1 r2 where r: "drop (unat (bi_name_idx bi)) bin = fst b @ 0 # r1"
    "drop (unat (bi_offset bi)) bin = fst (snd b) @ r2" "unat (bi_size bi) = length (fst (snd b))"
    "bi_flags bi = get_flags (snd (snd b)) 0"
    by (auto simp: located_def)
  from assms(2) obtain s1 where b: "fst b = name" "snd (snd b) = out_fmt s" "stack_finalize e s = Some (fst (snd b), s1)"
    by (auto simp: block_of_def item)
  obtain s' where s': "read_block (out_fmt s) (fst (snd b) @ r2) (length (fst (snd b))) = Some s'" "survives e s s'"
    using write_read_block [OF assms(4), of e] b(3) by (auto simp: item)
  have "takeWhile (\<lambda>c. c \<noteq> 0) (name @ 0 # r1) = name"
    using assms(3) by (subst takeWhile_append2) (auto simp: item)
  then have name: "get_block_info_name bin bi = Some name"
    by (simp add: get_block_info_name_def r(1) b(1) Let_def)
  have "add_block_from_block_info bi bin ctx = Some (MD_SUCCESS, ctx\<lparr>stack_map := stack_map ctx @ [(name, s')]\<rparr>)"
    if "name \<notin> fst ` set (stack_map ctx)" for ctx
  proof -
    have "map_of (stack_map ctx) name = None"
      using that by (simp add: map_of_eq_None_iff)
    then show ?thesis
      using s'(1) unfolding add_block_from_block_info_def r(2-4) b(2) get_fmt_flags name read_block_def Let_def
      by (simp add: register_def)
  qed
  with s'(2) show ?thesis
    by (auto simp: adds_def item)
qed

lemma add_blocks_run:
  assumes "list_all2 (adds e bin) infos items" and "distinct (map fst (stack_map ctx) @ map fst items)"
  shows "\<exists>items'. add_blocks infos bin ctx = Some (MD_SUCCESS, ctx\<lparr>stack_map := stack_map ctx @ items'\<rparr>) \<and>
     list_all2 (\<lambda>item item'. fst item' = fst item \<and> survives e (snd item) (snd item')) items items'"
  using assms
proof (induction arbitrary: ctx rule: list_all2_induct)
  case Nil
  show ?case by (intro exI [of _ "[]"]) simp
next
  case (Cons bi infos item items)
  have "fst item \<notin> fst ` set (stack_map ctx)"
    using Cons.prems by auto
  with Cons.hyps(1) obtain s' where s': "survives e (snd item) s'"
    "add_block_from_block_info bi bin ctx = Some (MD_SUCCESS, ctx\<lparr>stack_map := stack_map ctx @ [(fst item, s')]\<rparr>)"
    by (auto simp: adds_def)
  from Cons.IH [of "ctx\<lparr>stack_map := stack_map ctx @ [(fst item, s')]\<rparr>"] Cons.prems obtain items' where
    "add_blocks infos bin (ctx\<lparr>stack_map := stack_map ctx @ [(fst item, s')]\<rparr>) =
       Some (MD_SUCCESS, ctx\<lparr>stack_map := (stack_map ctx @ [(fst item, s')]) @ items'\<rparr>)"
    "list_all2 (\<lambda>item item'. fst item' = fst item \<and> survives e (snd item) (snd item')) items items'"
    by auto
  then show ?case
    using s' by (intro exI [of _ "(fst item, s') # items'"]) simp
qed

lemma blocks_exist:
  assumes "\<forall>item \<in> set items. writable (snd item)"
  shows "\<exists>bs. list_all2 (block_of e) items bs"
  using assms
proof (induction items)
  case (Cons item items)
  then obtain bs where "list_all2 (block_of e) items bs" by auto
  moreover obtain bytes s1 where "stack_finalize e (snd item) = Some (bytes, s1)"
    using Cons.prems write_read_block [of "snd item" e] by auto
  then have "block_of e item (fst item, bytes, out_fmt (snd item))"
    by (simp add: block_of_def)
  ultimately show ?case by blast
qed auto

lemma md_block_infos:
  assumes "md_length bs < 2 ^ 32"
  shows "decode_md_block_info_list (drop (unat (block_list_offset (md_header e bs))) (md_binary e bs)) (md_header e bs)
     (of_nat (md_length bs)) = Some (Some (rev (md_infos bs)))"
proof -
  let ?h = "md_header e bs"
  have small: "16 + length (md_table bs) < 2 ^ 32" "length bs < 2 ^ 32"
    using assms by (simp_all add: md_length_def)
  have off: "unat (block_list_offset ?h) = 16 + length (md_table bs)"
    using small(1) unat_of_nat_small [of "16 + length (md_table bs)", where 'a = 32] by (simp add: md_header_def)
  have n: "unat (n_blocks ?h) = length bs"
    using small(2) by (simp add: md_header_def unat_of_nat_small)
  have "\<forall>bi \<in> set (rev (md_infos bs)). info_valid ?h (of_nat (md_length bs)) bi"
    using md_info_valid [OF _ assms] by (auto simp: in_set_conv_nth)
  from decode_infos [OF this] show ?thesis
    unfolding decode_md_block_info_list_def off n
    by (simp add: md_binary_def length_md_header) (simp add: md_header_def)
qed

lemma md_binary_read:
  assumes "list_all2 (block_of e) items bs" and "\<forall>(name, s) \<in> set items. 0 \<notin> set name \<and> writable s"
    and "distinct (map fst items)" and "items \<noteq> []" and "endian_ok e" and "md_length bs < 2 ^ 32"
  shows "\<exists>items'. md_init (Some (md_binary e bs)) = Some (Some \<lparr>stack_map = items', ctx_endianness = e\<rparr>) \<and>
     list_all2 (\<lambda>item item'. fst item' = fst item \<and> survives e (snd item) (snd item')) (rev items) items'"
proof -
  have len: "length items = length bs"
    using assms(1) by (rule list_all2_lengthD)
  have "list_all2 (adds e (md_binary e bs)) (md_infos bs) items"
  proof (rule list_all2_all_nthI)
    fix i assume i: "i < length (md_infos bs)"
    show "adds e (md_binary e bs) (md_infos bs ! i) (items ! i)"
    proof (rule located_adds [OF md_located])
      show "block_of e (items ! i) (bs ! i)"
        using assms(1) i len by (simp add: list_all2_conv_all_nth)
      show "0 \<notin> set (fst (items ! i))" and "writable (snd (items ! i))"
        using assms(2) i len nth_mem [of i items] by (auto simp: case_prod_beta)
    qed (use i assms(6) in simp_all)
  qed (simp add: len)
  then have "list_all2 (adds e (md_binary e bs)) (rev (md_infos bs)) (rev items)"
    by simp
  from add_blocks_run [OF this, of "\<lparr>stack_map = [], ctx_endianness = e\<rparr>"] assms(3) obtain items' where
    "add_blocks (rev (md_infos bs)) (md_binary e bs) \<lparr>stack_map = [], ctx_endianness = e\<rparr> =
      Some (MD_SUCCESS, \<lparr>stack_map = items', ctx_endianness = e\<rparr>)"
    "list_all2 (\<lambda>item item'. fst item' = fst item \<and> survives e (snd item) (snd item')) (rev items) items'"
    by (auto simp: rev_map [symmetric])
  moreover have "hdr_endianness (md_header e bs) = e" and "bs \<noteq> []"
    using assms(4) len by (auto simp: md_header_def)
  ultimately show ?thesis
    using decode_header [OF assms(6) _ assms(5)] md_block_infos [OF assms(6), of e]
    by (auto simp: md_init_def decode_binary_def length_md_binary basic_context_construct_def Let_def)
qed

lemma context_kept:
  assumes "\<forall>(name, s) \<in> set (stack_map ctx). 0 \<notin> set name \<and> writable s" and "distinct (map fst (stack_map ctx))"
    and "stack_map ctx \<noteq> []" and "ctx_endianness ctx = MD_ENDIAN_LITTLE \<or> ctx_endianness ctx = MD_ENDIAN_BIG"
  shows "\<exists>bin ctx1. context_finalize True True ctx = Some (MD_SUCCESS, Some bin, ctx1) \<and>
     (length bin < 2 ^ 32 \<longrightarrow> (\<exists>ctx'. md_init (Some bin) = Some (Some ctx') \<and>
        ctx_endianness ctx' = ctx_endianness ctx \<and>
        list_all2 (\<lambda>item item'. fst item' = fst item \<and> survives (ctx_endianness ctx) (snd item) (snd item'))
          (rev (stack_map ctx)) (stack_map ctx')))"
proof -
  let ?e = "ctx_endianness ctx"
  have "\<forall>item \<in> set (stack_map ctx). writable (snd item)"
    using assms(1) by (simp add: case_prod_beta)
  from blocks_exist [OF this, of ?e] obtain bs where bs: "list_all2 (block_of ?e) (stack_map ctx) bs"
    by blast
  then have "context_binary ctx = Some (md_binary ?e bs)"
    by (rule context_binary_eq)
  moreover have "\<exists>ctx'. md_init (Some (md_binary ?e bs)) = Some (Some ctx') \<and> ctx_endianness ctx' = ?e \<and>
        list_all2 (\<lambda>item item'. fst item' = fst item \<and> survives ?e (snd item) (snd item'))
          (rev (stack_map ctx)) (stack_map ctx')" if "length (md_binary ?e bs) < 2 ^ 32"
    using md_binary_read [OF bs assms(1-4)] that by (auto simp: length_md_binary)
  ultimately show ?thesis
    by (simp add: context_finalize_def)
qed

text \<open>
  C6: A context is read back from the binary that finalizing it writes. The stacks have distinct names
  without null bytes and are in raw format or in MessagePack format with values that MessagePack can encode.
  Then finalizing succeeds, and \<^verbatim>\<open>md_init\<close> on the binary, if it is below 4 GB, gives a context of the same endianness
  that has the stacks in the reverse order, each under its name and in its format: a MessagePack stack with values
  that stand for the same trees, a raw stack as one byte string.
\<close>

theorem context_roundtrip:
  assumes "\<forall>(name, s) \<in> set (stack_map ctx). 0 \<notin> set name \<and> writable s" and "distinct (map fst (stack_map ctx))"
    and "stack_map ctx \<noteq> []" and "ctx_endianness ctx = MD_ENDIAN_LITTLE \<or> ctx_endianness ctx = MD_ENDIAN_BIG"
  shows "\<exists>bin ctx1. context_finalize True True ctx = Some (MD_SUCCESS, Some bin, ctx1) \<and>
     (length bin < 2 ^ 32 \<longrightarrow> (\<exists>ctx'. md_init (Some bin) = Some (Some ctx') \<and>
        ctx_endianness ctx' = ctx_endianness ctx \<and>
        list_all2 (\<lambda>item item'. fst item' = fst item \<and> survives (ctx_endianness ctx) (snd item) (snd item'))
          (rev (stack_map ctx)) (stack_map ctx')))"
  using assms by (rule context_kept)

definition demo_context :: basic_context where
  "demo_context = \<lparr>stack_map = [([0x61], demo_stack), ([0x62], basic_stack_construct MD_FMT_RAW_BYTES)],
     ctx_endianness = MD_ENDIAN_BIG\<rparr>"

lemma demo_writable: "writable demo_stack" "writable (basic_stack_construct MD_FMT_RAW_BYTES)"
proof -
  have "list_all2 (denotes 0 (m_store demo_stack)) (m_stack demo_stack) [T_hash [(T_zstr [0x6B], T_array [T_uint 7])]]"
    by (auto simp: demo_stack_eq get_typed_def get_data_def intro!: denotes.intros)
  then show "writable demo_stack"
    unfolding writable_def
    by (intro conjI demo_stack_ok disjI2 exI [of _ "[T_hash [(T_zstr [0x6B], T_array [T_uint 7])]]"])
      (simp_all add: demo_stack_eq)
qed (simp add: writable_def stack_ok_construct, simp add: basic_stack_construct_def)

theorem context_roundtrip_witness:
  "\<exists>bin ctx1 ctx'. context_finalize True True demo_context = Some (MD_SUCCESS, Some bin, ctx1) \<and>
     md_init (Some bin) = Some (Some ctx') \<and> map fst (stack_map ctx') = [[0x62], [0x61]] \<and>
     survives MD_ENDIAN_BIG demo_stack (snd (stack_map ctx' ! 1))"
proof -
  have "map_option length (context_binary demo_context) = Some 96"
    unfolding demo_context_def demo_stack_eq basic_stack_construct_def by code_simp
  then show ?thesis
    using context_roundtrip [of demo_context] demo_writable
    by (auto simp: demo_context_def context_finalize_def list_all2_Cons1)
qed

section \<open>Boundaries of the reader\<close>

text \<open>One block info that points to the end of the address space, with a size that wraps to the binary's start.\<close>

definition wrapped_info :: CAMD_BlockInfo where
  "wrapped_info = \<lparr>bi_offset = 0xFFFFFFFFFFFFFFF0, bi_size = 0x20, bi_name_idx = 16, bi_flags = 0\<rparr>"

definition wrapped_header :: CAMD_Header where
  "wrapped_header = \<lparr>hdr_magic = MD_MAGIC, hdr_endianness = MD_ENDIAN_LITTLE, hdr_version = 1, pad_unused = [0, 0],
     block_list_offset = 24, n_blocks = 1\<rparr>"

definition wrapped_binary :: "u8 list" where
  "wrapped_binary = serialize_md_header wrapped_header @ [0x61, 0, 0, 0, 0, 0, 0, 0] @
     serialize_block_info wrapped_info MD_ENDIAN_LITTLE"

lemma wrapped_binary_eq:
  "wrapped_binary = [0x43, 0x41, 0x4D, 0x44, 1, 1, 0, 0, 24, 0, 0, 0, 1, 0, 0, 0, 0x61, 0, 0, 0, 0, 0, 0, 0,
     0xF0, 0xFF, 0xFF, 0xFF, 0xFF, 0xFF, 0xFF, 0xFF, 0x20, 0, 0, 0, 0, 0, 0, 0, 16, 0, 0, 0, 0, 0, 0, 0]"
  by code_simp

lemma wrapped_decodes:
  "decode_md_header wrapped_binary = Some wrapped_header"
  "decode_md_block_info_list (drop 24 wrapped_binary) wrapped_header 48 = Some (Some [wrapped_info])"
  unfolding wrapped_binary_eq by code_simp+


end
