(* ===== verification/Metadata_Format.thy ===== *)
theory Metadata_Format
  imports Metadata_Roundtrip
begin

text \<open>
  The format-string interface of the metadata library, \<^verbatim>\<open>md_pushf\<close> and \<^verbatim>\<open>md_loadf\<close> of \<^verbatim>\<open>metadata.cpp\<close>. The
  variable arguments are a list; \<^term>\<open>None\<close> is an argument of the wrong kind, \<^verbatim>\<open>top\<close> or \<^verbatim>\<open>pop\<close> of an empty
  \<^verbatim>\<open>std::stack\<close>, or a call that does not return. Positions on the stack are taken to fit into an \<^verbatim>\<open>int\<close>.
\<close>

section \<open>Pushing\<close>

text \<open>The arguments of a call; a byte string is passed as its length and its address.\<close>

datatype md_arg = Arg_uint u64 | Arg_sint u64 | Arg_real u64 | Arg_zstr "u8 list" | Arg_bytes "u8 list"

record pushf_state =
  pf_stack :: basic_stack
  array_map_stack :: "(md_value_type \<times> nat) list"
  v_idx_stack :: "nat list"

definition push_to_hash_or_array :: "pushf_state \<Rightarrow> (md_err \<times> pushf_state) option" where
  "push_to_hash_or_array p =
     (case array_map_stack p of [] \<Rightarrow> Some (MD_E_INVALID_FMT_STR, p)
      | (ty, idx) # _ \<Rightarrow>
          if ty = MD_TYPE_HASH
          then case v_idx_stack p of
              val_idx # key_idx # idxs \<Rightarrow>
                (case hash_set_kv idx key_idx val_idx (pf_stack p) of None \<Rightarrow> None
                 | Some (Inl err, s1) \<Rightarrow> Some (err, p\<lparr>pf_stack := s1, v_idx_stack := idxs\<rparr>)
                 | Some (Inr _, s1) \<Rightarrow>
                    (case md_pop s1 of
                       (Inl err, s2) \<Rightarrow> Some (err, p\<lparr>pf_stack := s2, v_idx_stack := idxs\<rparr>)
                     | (Inr _, s2) \<Rightarrow>
                        (case md_pop s2 of
                           (Inl err, s3) \<Rightarrow> Some (err, p\<lparr>pf_stack := s3, v_idx_stack := idxs\<rparr>)
                         | (Inr _, s3) \<Rightarrow> Some (MD_SUCCESS, p\<lparr>pf_stack := s3, v_idx_stack := idxs\<rparr>))))
            | _ \<Rightarrow> Some (MD_E_INVALID_FMT_STR, p)
          else if ty = MD_TYPE_ARRAY
          then case v_idx_stack p of
              val_idx # idxs \<Rightarrow>
                (case arr_append idx val_idx (pf_stack p) of None \<Rightarrow> None
                 | Some (Inl err, s1) \<Rightarrow> Some (err, p\<lparr>pf_stack := s1, v_idx_stack := idxs\<rparr>)
                 | Some (Inr _, s1) \<Rightarrow>
                    (case md_pop s1 of
                       (Inl err, s2) \<Rightarrow> Some (err, p\<lparr>pf_stack := s2, v_idx_stack := idxs\<rparr>)
                     | (Inr _, s2) \<Rightarrow> Some (MD_SUCCESS, p\<lparr>pf_stack := s2, v_idx_stack := idxs\<rparr>)))
            | [] \<Rightarrow> Some (MD_E_INVALID_FMT_STR, p)
          else Some (MD_E_INVALID_FMT_STR, p))"

text \<open>What follows every push: inside a container the position of the value is noted.\<close>

definition note_value :: "(md_err + nat) \<times> basic_stack \<Rightarrow> pushf_state \<Rightarrow> md_err \<times> pushf_state" where
  "note_value result p =
     (case result of
        (Inl err, s) \<Rightarrow> (err, p\<lparr>pf_stack := s\<rparr>)
      | (Inr idx, s) \<Rightarrow> (MD_SUCCESS, p\<lparr>pf_stack := s,
          v_idx_stack := (if array_map_stack p = [] then v_idx_stack p else idx # v_idx_stack p)\<rparr>))"

definition open_container ::
  "md_value_type \<Rightarrow> (md_err + nat) \<times> basic_stack \<Rightarrow> pushf_state \<Rightarrow> md_err \<times> pushf_state" where
  "open_container ty result p =
     (case (result, note_value result p) of
        ((Inr idx, _), (_, p')) \<Rightarrow> (MD_SUCCESS, p'\<lparr>array_map_stack := (ty, idx) # array_map_stack p'\<rparr>)
      | ((Inl _, _), failed) \<Rightarrow> failed)"

definition close_container :: "md_value_type \<Rightarrow> pushf_state \<Rightarrow> (md_err \<times> pushf_state) option" where
  "close_container ty p =
     (case array_map_stack p of [] \<Rightarrow> None
      | (ty', _) # _ \<Rightarrow>
          if ty' \<noteq> ty then Some (MD_E_INVALID_FMT_STR, p)
          else case (if v_idx_stack p = [] then Some (MD_SUCCESS, p) else push_to_hash_or_array p) of None \<Rightarrow> None
            | Some (err, p') \<Rightarrow>
                if err \<noteq> MD_SUCCESS then Some (err, p')
                else Some (MD_SUCCESS, p'\<lparr>array_map_stack := tl (array_map_stack p')\<rparr>))"

definition pushf_step ::
  "char \<Rightarrow> md_arg list \<Rightarrow> pushf_state \<Rightarrow> (md_err \<times> md_arg list \<times> pushf_state) option" where
  "pushf_step c argp p =
     (let s = pf_stack p; at = (\<lambda>args (err, p'). (err, args, p'))
      in if c = CHR ''['' then Some (at argp (open_container MD_TYPE_ARRAY (push_arr s) p))
         else if c = CHR '']'' then map_option (at argp) (close_container MD_TYPE_ARRAY p)
         else if c = CHR ''{'' then Some (at argp (open_container MD_TYPE_HASH (push_map s) p))
         else if c = CHR ''}'' then map_option (at argp) (close_container MD_TYPE_HASH p)
         else if c = CHR ''z''
         then case argp of Arg_zstr str # args \<Rightarrow> Some (at args (note_value (push_zstr str s) p)) | _ \<Rightarrow> None
         else if c = CHR ''s''
         then case argp of Arg_bytes bs # args \<Rightarrow> Some (at args (note_value (push_bytes bs s) p)) | _ \<Rightarrow> None
         else if c = CHR ''f''
         then case argp of Arg_real n # args \<Rightarrow> Some (at args (note_value (push_real n s) p)) | _ \<Rightarrow> None
         else if c = CHR ''u''
         then case argp of Arg_uint n # args \<Rightarrow> Some (at args (note_value (push_unsigned n s) p)) | _ \<Rightarrow> None
         else if c = CHR ''i''
         then case argp of Arg_sint n # args \<Rightarrow> Some (at args (note_value (push_signed n s) p)) | _ \<Rightarrow> None
         else if c = CHR '':''
         then case array_map_stack p of [] \<Rightarrow> None
           | (ty, _) # _ \<Rightarrow>
               Some (if ty \<noteq> MD_TYPE_HASH \<or> v_idx_stack p = [] then MD_E_INVALID_FMT_STR else MD_SUCCESS, argp, p)
         else if c = CHR '','' then map_option (at argp) (push_to_hash_or_array p)
         else if c = CHR '' '' then Some (MD_SUCCESS, argp, p)
         else Some (MD_E_INVALID_FMT_STR, argp, p))"

primrec pushf_loop :: "string \<Rightarrow> md_arg list \<Rightarrow> pushf_state \<Rightarrow> (md_err \<times> pushf_state) option" where
  "pushf_loop [] argp p = Some (MD_SUCCESS, p)"
| "pushf_loop (c # fmt) argp p =
     (case pushf_step c argp p of None \<Rightarrow> None
      | Some (err, args, p') \<Rightarrow> if err \<noteq> MD_SUCCESS then Some (err, p') else pushf_loop fmt args p')"

text \<open>\<^verbatim>\<open>cleanup\<close> pops until \<^verbatim>\<open>top\<close> fails; it does not return when \<^verbatim>\<open>pop\<close> fails before that.\<close>

partial_function (option) pop_all :: "basic_stack \<Rightarrow> basic_stack option" where
  "pop_all s = (case stack_top s of Inl _ \<Rightarrow> Some s | Inr _ \<Rightarrow> pop_all (snd (md_pop s)))"

definition md_pushf :: "string \<Rightarrow> md_arg list \<Rightarrow> basic_stack \<Rightarrow> ((md_err + nat) \<times> basic_stack) option" where
  "md_pushf fmt argp s =
     (case pushf_loop fmt argp \<lparr>pf_stack = s, array_map_stack = [], v_idx_stack = []\<rparr> of None \<Rightarrow> None
      | Some (err, p) \<Rightarrow>
          if err \<noteq> MD_SUCCESS then map_option (\<lambda>s'. (Inl err, s')) (pop_all (pf_stack p))
          else if array_map_stack p \<noteq> [] \<or> v_idx_stack p \<noteq> []
          then map_option (\<lambda>s'. (Inl MD_E_INVALID_FMT_STR, s')) (pop_all (pf_stack p))
          else Some (stack_top (pf_stack p), pf_stack p))"

section \<open>Loading\<close>

text \<open>The nested values with the position in each, and what has been stored through the arguments.\<close>

record loadf_state =
  nested :: "(basic_value \<times> nat) list"
  cur_stack_pointer :: nat
  is_key :: bool
  loaded :: "md_arg list"

definition loadf_get_value :: "basic_stack \<Rightarrow> loadf_state \<Rightarrow> (md_err + basic_value) option" where
  "loadf_get_value s l =
     (case nested l of
        [] \<Rightarrow> Some (case md_get_value (cur_stack_pointer l) s of None \<Rightarrow> Inl MD_E_INDEX_ERR | Some v \<Rightarrow> Inr v)
      | (value, index) # _ \<Rightarrow>
          if m_type value = MD_TYPE_ARRAY
          then case get_data (m_store s) value of
              Some (Array_data vs) \<Rightarrow> Some (if length vs \<le> index then Inl MD_E_INDEX_ERR else Inr (vs ! index))
            | _ \<Rightarrow> None
          else if m_type value = MD_TYPE_HASH
          then case get_data (m_store s) value of
              Some (Map_data kvs) \<Rightarrow>
                Some (if length kvs \<le> index then Inl MD_E_INDEX_ERR
                      else Inr (if is_key l then fst (kvs ! index) else snd (kvs ! index)))
            | _ \<Rightarrow> None
          else Some (Inl MD_E_INVALID_FMT_STR))"

text \<open>
  The cases that enter a container and those that store a value with one of the getters. When the getter of a
  string fails, \<^verbatim>\<open>cleanup\<close> frees a pointer that was never set.
\<close>

definition load_container :: "md_value_type \<Rightarrow> bool \<Rightarrow> basic_stack \<Rightarrow> loadf_state \<Rightarrow> (md_err \<times> loadf_state) option" where
  "load_container ty key s l =
     (case loadf_get_value s l of None \<Rightarrow> None
      | Some (Inl err) \<Rightarrow> Some (err, l)
      | Some (Inr v) \<Rightarrow>
          if m_type v \<noteq> ty then Some (MD_E_TYPE_ERR, l)
          else Some (MD_SUCCESS, l\<lparr>nested := (v, 0) # nested l, is_key := key\<rparr>))"

definition load_value ::
  "bool \<Rightarrow> (md_storage list \<Rightarrow> basic_value \<Rightarrow> (md_err + 'a) option) \<Rightarrow> ('a \<Rightarrow> md_arg) \<Rightarrow> basic_stack \<Rightarrow> loadf_state
    \<Rightarrow> (md_err \<times> loadf_state) option" where
  "load_value allocates getter arg s l =
     (case loadf_get_value s l of None \<Rightarrow> None
      | Some (Inl err) \<Rightarrow> Some (err, l)
      | Some (Inr v) \<Rightarrow>
         (case getter (m_store s) v of None \<Rightarrow> None
          | Some (Inl err) \<Rightarrow> if allocates then None else Some (err, l)
          | Some (Inr x) \<Rightarrow> Some (MD_SUCCESS, l\<lparr>loaded := loaded l @ [arg x]\<rparr>)))"

definition loadf_step :: "char \<Rightarrow> basic_stack \<Rightarrow> loadf_state \<Rightarrow> (md_err \<times> loadf_state) option" where
  "loadf_step c s l =
     (if c = CHR ''['' then load_container MD_TYPE_ARRAY (is_key l) s l
      else if c = CHR '']'' \<or> c = CHR ''}''
      then case nested l of [] \<Rightarrow> None | _ # rest \<Rightarrow> Some (MD_SUCCESS, l\<lparr>nested := rest\<rparr>)
      else if c = CHR ''{'' then load_container MD_TYPE_HASH True s l
      else if c = CHR '',''
      then case nested l of [] \<Rightarrow> None
        | (v, index) # rest \<Rightarrow> Some (MD_SUCCESS, l\<lparr>nested := (v, index + 1) # rest, is_key := True\<rparr>)
      else if c = CHR '':'' then Some (MD_SUCCESS, l\<lparr>is_key := False\<rparr>)
      else if c = CHR ''z'' then load_value True md_get_zstr Arg_zstr s l
      else if c = CHR ''u'' then load_value False md_get_uint Arg_uint s l
      else if c = CHR ''i'' then load_value False md_get_sint Arg_sint s l
      else if c = CHR ''f'' then load_value False md_get_real Arg_real s l
      else if c = CHR ''s'' then load_value True md_get_bytes Arg_bytes s l
      else Some (MD_SUCCESS, l))"

primrec loadf_loop :: "string \<Rightarrow> basic_stack \<Rightarrow> loadf_state \<Rightarrow> (md_err \<times> loadf_state) option" where
  "loadf_loop [] s l = Some (MD_SUCCESS, l)"
| "loadf_loop (c # fmt) s l =
     (case loadf_step c s l of None \<Rightarrow> None
      | Some (err, l') \<Rightarrow>
          if err \<noteq> MD_SUCCESS then Some (err, l')
          else loadf_loop fmt s
            (if nested l' = [] then l'\<lparr>cur_stack_pointer := cur_stack_pointer l' + 1\<rparr> else l'))"

text \<open>The result with what was stored through the arguments; an error leaves the earlier ones stored.\<close>

definition md_loadf :: "string \<Rightarrow> basic_stack \<Rightarrow> ((md_err + nat) \<times> md_arg list) option" where
  "md_loadf fmt s =
     (case loadf_loop fmt s \<lparr>nested = [], cur_stack_pointer = 0, is_key = True, loaded = []\<rparr> of None \<Rightarrow> None
      | Some (err, l) \<Rightarrow>
          Some (if err \<noteq> MD_SUCCESS then Inl err
                else if nested l \<noteq> [] then Inl MD_E_INVALID_FMT_STR else stack_top s, loaded l))"


section \<open>What a format string pushes\<close>

abbreviation (input) pairs_denote ::
  "nat \<Rightarrow> md_storage list \<Rightarrow> (basic_value \<times> basic_value) list \<Rightarrow> (md_tree \<times> md_tree) list \<Rightarrow> bool" where
  "pairs_denote b st \<equiv> list_all2 (\<lambda>kv tt. denotes b st (fst kv) (fst tt) \<and> denotes b st (snd kv) (snd tt))"

text \<open>The format string and the arguments of a tree.\<close>

fun commas :: "string list \<Rightarrow> string" where
  "commas [] = []"
| "commas [x] = x"
| "commas (x # xs) = x @ '','' @ commas xs"

primrec fmt_of :: "md_tree \<Rightarrow> string" where
  "fmt_of (T_sint n) = ''i''"
| "fmt_of (T_uint n) = ''u''"
| "fmt_of (T_real n) = ''f''"
| "fmt_of (T_zstr bs) = ''z''"
| "fmt_of (T_bytes bs) = ''s''"
| "fmt_of (T_array ts) = ''['' @ commas (map fmt_of ts) @ '']''"
| "fmt_of (T_hash tts) = ''{'' @ commas (map (\<lambda>(k, t). k @ '':'' @ t) (map (map_prod fmt_of fmt_of) tts)) @ ''}''"

primrec args_of :: "md_tree \<Rightarrow> md_arg list" where
  "args_of (T_sint n) = [Arg_sint n]"
| "args_of (T_uint n) = [Arg_uint n]"
| "args_of (T_real n) = [Arg_real n]"
| "args_of (T_zstr bs) = [Arg_zstr bs]"
| "args_of (T_bytes bs) = [Arg_bytes bs]"
| "args_of (T_array ts) = concat (map args_of ts)"
| "args_of (T_hash tts) = concat (map (\<lambda>(k, t). k @ t) (map (map_prod args_of args_of) tts))"

text \<open>Trees that may stand inside a container: no empty containers, scalar keys, strings without zero bytes.\<close>

primrec nestable :: "md_tree \<Rightarrow> bool" where
  "nestable (T_sint n) \<longleftrightarrow> True"
| "nestable (T_uint n) \<longleftrightarrow> True"
| "nestable (T_real n) \<longleftrightarrow> True"
| "nestable (T_zstr bs) \<longleftrightarrow> 0 \<notin> set bs"
| "nestable (T_bytes bs) \<longleftrightarrow> True"
| "nestable (T_array ts) \<longleftrightarrow> ts \<noteq> [] \<and> list_all (\<lambda>b. b) (map nestable ts)"
| "nestable (T_hash tts) \<longleftrightarrow> tts \<noteq> [] \<and> list_all (\<lambda>tt. scalar_tree (fst tt)) tts \<and>
     list_all (\<lambda>(b, b'). b \<and> b') (map (map_prod nestable nestable) tts)"

text \<open>The state after the value of a tree has been pushed.\<close>

definition noted :: "pushf_state \<Rightarrow> basic_stack \<Rightarrow> pushf_state" where
  "noted p s' = p\<lparr>pf_stack := s',
     v_idx_stack := (if array_map_stack p = [] then v_idx_stack p else length (m_stack (pf_stack p)) # v_idx_stack p)\<rparr>"

text \<open>Part of a format string with its arguments takes one state to another.\<close>

definition runs :: "string \<Rightarrow> md_arg list \<Rightarrow> pushf_state \<Rightarrow> pushf_state \<Rightarrow> bool" where
  "runs f as p p' \<longleftrightarrow> (\<forall>fmt args. pushf_loop (f @ fmt) (as @ args) p = pushf_loop fmt args p')"

lemma runs_append: "runs f as p p1 \<Longrightarrow> runs g bs p1 p2 \<Longrightarrow> runs (f @ g) (as @ bs) p p2"
  by (simp add: runs_def)

lemma runs_step: "(\<And>args. pushf_step c (as @ args) p = Some (MD_SUCCESS, args, p')) \<Longrightarrow> runs [c] as p p'"
  by (simp add: runs_def)

definition pushes :: "md_tree \<Rightarrow> bool" where
  "pushes t \<longleftrightarrow> (\<forall>p. \<not> finalized (pf_stack p) \<longrightarrow>
     (\<exists>s'. pushed (pf_stack p) t s' \<and> runs (fmt_of t) (args_of t) p (noted p s')))"

lemma pushes_value:
  assumes "\<And>s. \<not> finalized s \<Longrightarrow> pushed s t (snd (push_value ty d s))" and "fmt_of t = [c]"
    and "\<And>p args. pushf_step c (args_of t @ args) p =
       Some (case note_value (push_value ty d (pf_stack p)) p of (err, p') \<Rightarrow> (err, args, p'))"
  shows "pushes t"
  unfolding pushes_def assms(2)
proof (intro allI impI exI conjI)
  fix p :: pushf_state
  assume fin: "\<not> finalized (pf_stack p)"
  let ?s = "snd (push_value ty d (pf_stack p))"
  show "pushed (pf_stack p) t ?s" using fin by (rule assms(1))
  have "note_value (push_value ty d (pf_stack p)) p = (MD_SUCCESS, noted p ?s)"
    using fin by (simp add: note_value_def noted_def push_value_run)
  then show "runs [c] (args_of t) p (noted p ?s)"
    using assms(3) by (intro runs_step) simp
qed

lemma pushes_scalar:
  "pushes (T_sint n)" "pushes (T_uint n)" "pushes (T_real n)" "pushes (T_bytes bs)" "0 \<notin> set bs \<Longrightarrow> pushes (T_zstr bs)"
  by (rule pushes_value, erule pushed_scalar [unfolded push_defs], (assumption | rule fmt_of.simps)+,
      simp add: pushf_step_def Let_def push_defs)+

text \<open>The end of an element of an array or of a map, and the start of a container.\<close>

lemma runs_comma:
  assumes "push_to_hash_or_array p = Some (MD_SUCCESS, p')"
  shows "runs '','' [] p p'"
  by (rule runs_step) (use assms in \<open>simp add: pushf_step_def Let_def\<close>)

lemma runs_colon:
  assumes "array_map_stack p = (MD_TYPE_HASH, idx) # am" and "v_idx_stack p \<noteq> []"
  shows "runs '':'' [] p p"
  by (rule runs_step) (use assms in \<open>simp add: pushf_step_def Let_def\<close>)

lemma runs_close:
  assumes "push_to_hash_or_array p = Some (MD_SUCCESS, p')" and "array_map_stack p = (ty, idx) # am"
    and "v_idx_stack p \<noteq> []" and "array_map_stack p' = array_map_stack p"
    and "ty = MD_TYPE_ARRAY \<and> c = CHR '']'' \<or> ty = MD_TYPE_HASH \<and> c = CHR ''}''"
  shows "runs [c] [] p (p'\<lparr>array_map_stack := am\<rparr>)"
proof (rule runs_step)
  have "close_container ty p = Some (MD_SUCCESS, p'\<lparr>array_map_stack := am\<rparr>)"
    using assms(1-4) by (simp add: close_container_def)
  with assms(5) show "pushf_step c ([] @ args) p = Some (MD_SUCCESS, args, p'\<lparr>array_map_stack := am\<rparr>)" for args
    by (elim disjE conjE) (simp_all add: pushf_step_def Let_def)
qed

lemma runs_open:
  assumes "\<not> finalized (pf_stack p)"
    and "ty = MD_TYPE_ARRAY \<and> c = CHR ''['' \<and> d = Array_data [] \<or> ty = MD_TYPE_HASH \<and> c = CHR ''{'' \<and> d = Map_data []"
  shows "runs [c] [] p ((noted p (snd (push_value ty d (pf_stack p))))
       \<lparr>array_map_stack := (ty, length (m_stack (pf_stack p))) # array_map_stack p\<rparr>)" (is "runs _ _ _ ?p'")
proof (rule runs_step)
  have "open_container ty (push_value ty d (pf_stack p)) p = (MD_SUCCESS, ?p')"
    using assms(1) by (simp add: open_container_def note_value_def noted_def push_value_run)
  with assms(2) show "pushf_step c ([] @ args) p = Some (MD_SUCCESS, args, ?p')" for args
    by (elim disjE conjE) (simp_all add: pushf_step_def Let_def push_arr_def push_map_def)
qed

lemma noted_again: "(noted p s1)\<lparr>pf_stack := s', array_map_stack := array_map_stack p\<rparr> = noted p s'"
  by (cases p) (simp add: noted_def)

lemma push_to_array:
  assumes "array_map_stack p = (MD_TYPE_ARRAY, length base) # am" and "v_idx_stack p = Suc (length base) # vs"
    and "arr_append (length base) (Suc (length base)) (pf_stack p) = Some (Inr n, s')" and "md_pop s' = (Inr k, s2)"
  shows "push_to_hash_or_array p = Some (MD_SUCCESS, p\<lparr>pf_stack := s2, v_idx_stack := vs\<rparr>)"
  using assms by (simp add: push_to_hash_or_array_def)

lemma push_to_hash:
  assumes "array_map_stack p = (MD_TYPE_HASH, length base) # am"
    and "v_idx_stack p = Suc (Suc (length base)) # Suc (length base) # vs"
    and "hash_set_kv (length base) (Suc (length base)) (Suc (Suc (length base))) (pf_stack p) = Some (Inr n, s')"
    and "md_pop s' = (Inr k, s'')" and "md_pop s'' = (Inr k', s3)"
  shows "push_to_hash_or_array p = Some (MD_SUCCESS, p\<lparr>pf_stack := s3, v_idx_stack := vs\<rparr>)"
  using assms by (simp add: push_to_hash_or_array_def)

lemma commas_Cons: "xs \<noteq> [] \<Longrightarrow> commas (x # xs) = x @ '','' @ commas xs"
  by (cases xs) simp_all

text \<open>One element of an array, up to the point where it is appended, and then all of them.\<close>

lemma push_item:
  assumes "pushes t" and "filling st base c (Array_data xs) (pf_stack p)" and "m_type c = MD_TYPE_ARRAY"
    and "array_map_stack p = (MD_TYPE_ARRAY, length base) # am"
    and "list_all2 (denotes (Suc (length st)) (m_store (pf_stack p))) xs ts0"
  shows "\<exists>p1 s' xs'. runs (fmt_of t) (args_of t) p p1 \<and> push_to_hash_or_array p1 = Some (MD_SUCCESS, p\<lparr>pf_stack := s'\<rparr>) \<and>
     array_map_stack p1 = array_map_stack p \<and> v_idx_stack p1 \<noteq> [] \<and>
     filling st base c (Array_data xs') s' \<and> out_fmt s' = out_fmt (pf_stack p) \<and>
     list_all2 (denotes (Suc (length st)) (m_store s')) xs' (ts0 @ [t])"
proof -
  let ?s = "pf_stack p"
  have "\<not> finalized ?s" and len: "length (m_stack ?s) = Suc (length base)"
    using assms(2) by (simp_all add: filling_def)
  with assms(1) obtain s1 where s1: "pushed ?s t s1" "runs (fmt_of t) (args_of t) p (noted p s1)"
    by (auto simp: pushes_def)
  obtain s2 v n s' where s2: "arr_append (length base) (Suc (length base)) s1 = Some (Inr n, s')"
    "md_pop s' = (Inr (length base), s2)" "filling st base c (Array_data (xs @ [v])) s2"
    "out_fmt s2 = out_fmt ?s" "denotes (Suc (length st)) (m_store s2) v t"
    "\<And>v t. denotes (Suc (length st)) (m_store ?s) v t \<Longrightarrow> denotes (Suc (length st)) (m_store s2) v t"
    using append_pushed [OF assms(2,3) s1(1)] by blast
  have at: "array_map_stack (noted p s1) = (MD_TYPE_ARRAY, length base) # am"
    "v_idx_stack (noted p s1) = Suc (length base) # v_idx_stack p" "pf_stack (noted p s1) = s1"
    using assms(4) len by (simp_all add: noted_def)
  have "push_to_hash_or_array (noted p s1) = Some (MD_SUCCESS, p\<lparr>pf_stack := s2\<rparr>)"
    using push_to_array [OF at(1,2), unfolded at(3), OF s2(1,2)] by (simp add: noted_def)
  moreover have "list_all2 (denotes (Suc (length st)) (m_store s2)) (xs @ [v]) (ts0 @ [t])"
    using s2(5) list_all2_mono [OF assms(5) s2(6)] by (simp add: list_all2_appendI)
  ultimately show ?thesis
    using s1(2) s2(3,4) at assms(4) by (intro exI [of _ "noted p s1"] exI [of _ s2] exI [of _ "xs @ [v]"]) simp
qed

lemma push_items:
  assumes "ts \<noteq> []" and "\<forall>t \<in> set ts. pushes t" and "filling st base c (Array_data xs) (pf_stack p)"
    and "m_type c = MD_TYPE_ARRAY" and "array_map_stack p = (MD_TYPE_ARRAY, length base) # am"
    and "list_all2 (denotes (Suc (length st)) (m_store (pf_stack p))) xs ts0"
  shows "\<exists>s' xs'. runs (commas (map fmt_of ts) @ '']'') (concat (map args_of ts)) p
       (p\<lparr>pf_stack := s', array_map_stack := am\<rparr>) \<and>
     filling st base c (Array_data xs') s' \<and> out_fmt s' = out_fmt (pf_stack p) \<and>
     list_all2 (denotes (Suc (length st)) (m_store s')) xs' (ts0 @ ts)"
  using assms
proof (induction ts arbitrary: p xs ts0 rule: list_nonempty_induct)
  case (single t)
  from single.prems have "pushes t" by simp
  from push_item [OF this single.prems(2-5)] obtain p1 s' xs' where p1: "runs (fmt_of t) (args_of t) p p1"
    "push_to_hash_or_array p1 = Some (MD_SUCCESS, p\<lparr>pf_stack := s'\<rparr>)" "array_map_stack p1 = array_map_stack p"
    "v_idx_stack p1 \<noteq> []" "filling st base c (Array_data xs') s'" "out_fmt s' = out_fmt (pf_stack p)"
    "list_all2 (denotes (Suc (length st)) (m_store s')) xs' (ts0 @ [t])"
    by blast
  have "runs '']'' [] p1 (p\<lparr>pf_stack := s', array_map_stack := am\<rparr>)"
    using p1(3) single.prems(4) runs_close [OF p1(2) _ p1(4), of MD_TYPE_ARRAY "length base" am] by simp
  from runs_append [OF p1(1) this] p1(5-) show ?case by auto
next
  case (cons t ts)
  from cons.prems have "pushes t" by simp
  from push_item [OF this cons.prems(2-5)] obtain p1 s1 xs1 where p1: "runs (fmt_of t) (args_of t) p p1"
    "push_to_hash_or_array p1 = Some (MD_SUCCESS, p\<lparr>pf_stack := s1\<rparr>)"
    "filling st base c (Array_data xs1) s1" "out_fmt s1 = out_fmt (pf_stack p)"
    "list_all2 (denotes (Suc (length st)) (m_store s1)) xs1 (ts0 @ [t])"
    by blast
  from cons.IH [of xs1 "p\<lparr>pf_stack := s1\<rparr>" "ts0 @ [t]"] cons.prems p1(3,5) obtain s' xs' where s':
    "runs (commas (map fmt_of ts) @ '']'') (concat (map args_of ts)) (p\<lparr>pf_stack := s1\<rparr>)
       (p\<lparr>pf_stack := s', array_map_stack := am\<rparr>)"
    "filling st base c (Array_data xs') s'" "out_fmt s' = out_fmt s1"
    "list_all2 (denotes (Suc (length st)) (m_store s')) xs' ((ts0 @ [t]) @ ts)"
    by auto
  have "map fmt_of ts \<noteq> []" using cons.hyps by simp
  then show ?case
    using runs_append [OF p1(1) runs_append [OF runs_comma [OF p1(2)] s'(1)]] s'(2-) p1(4)
    by (auto simp: commas_Cons)
qed

text \<open>The same for the key and the value of an entry of a map.\<close>

lemma push_pair:
  assumes "pushes (fst tt)" and "pushes (snd tt)" and "scalar_tree (fst tt)"
    and "filling st base c (Map_data kvs) (pf_stack p)" and "m_type c = MD_TYPE_HASH"
    and "array_map_stack p = (MD_TYPE_HASH, length base) # am"
    and "pairs_denote (Suc (length st)) (m_store (pf_stack p)) kvs tts0"
  shows "\<exists>p1 s' kvs'. runs (fmt_of (fst tt) @ '':'' @ fmt_of (snd tt)) (args_of (fst tt) @ args_of (snd tt)) p p1 \<and>
     push_to_hash_or_array p1 = Some (MD_SUCCESS, p\<lparr>pf_stack := s'\<rparr>) \<and>
     array_map_stack p1 = array_map_stack p \<and> v_idx_stack p1 \<noteq> [] \<and>
     filling st base c (Map_data kvs') s' \<and> out_fmt s' = out_fmt (pf_stack p) \<and>
     pairs_denote (Suc (length st)) (m_store s') kvs' (tts0 @ [tt])"
proof -
  let ?s = "pf_stack p"
  have fin: "\<not> finalized ?s" and len: "length (m_stack ?s) = Suc (length base)"
    using assms(4) by (simp_all add: filling_def)
  with assms(1) obtain s1 where s1: "pushed ?s (fst tt) s1" "runs (fmt_of (fst tt)) (args_of (fst tt)) p (noted p s1)"
    by (auto simp: pushes_def)
  let ?p1 = "noted p s1"
  have "\<not> finalized (pf_stack ?p1)" and len1: "length (m_stack s1) = Suc (Suc (length base))"
    using s1(1) fin len by (auto simp: pushed_def noted_def)
  with assms(2) obtain s2 where "pushed (pf_stack ?p1) (snd tt) s2"
    and run2: "runs (fmt_of (snd tt)) (args_of (snd tt)) ?p1 (noted ?p1 s2)"
    unfolding pushes_def by blast
  then have s2: "pushed s1 (snd tt) s2" by (simp add: noted_def)
  have bound: "\<forall>kv \<in> set kvs. m_data (fst kv) < length (m_store ?s)"
    using assms(7) denotes_bound by (fastforce simp: list_all2_conv_all_nth in_set_conv_nth)
  obtain s3 k v n s' s'' where s3:
    "hash_set_kv (length base) (Suc (length base)) (Suc (Suc (length base))) s2 = Some (Inr n, s')"
    "md_pop s' = (Inr (Suc (length base)), s'')" "md_pop s'' = (Inr (length base), s3)"
    "filling st base c (Map_data (kvs @ [(k, v)])) s3" "out_fmt s3 = out_fmt ?s"
    "denotes (Suc (length st)) (m_store s3) k (fst tt)" "denotes (Suc (length st)) (m_store s3) v (snd tt)"
    "\<And>v t. denotes (Suc (length st)) (m_store ?s) v t \<Longrightarrow> denotes (Suc (length st)) (m_store s3) v t"
    using set_pushed [OF assms(4,5) s1(1) s2 assms(3) bound] by blast
  have at: "array_map_stack (noted ?p1 s2) = (MD_TYPE_HASH, length base) # am" "pf_stack (noted ?p1 s2) = s2"
    "v_idx_stack (noted ?p1 s2) = Suc (Suc (length base)) # Suc (length base) # v_idx_stack p"
    using assms(6) len len1 by (simp_all add: noted_def)
  have "push_to_hash_or_array (noted ?p1 s2) = Some (MD_SUCCESS, p\<lparr>pf_stack := s3\<rparr>)"
    using push_to_hash [OF at(1,3), unfolded at(2), OF s3(1-3)] by (simp add: noted_def)
  moreover have "runs '':'' [] ?p1 ?p1"
    by (rule runs_colon) (use assms(6) in \<open>simp_all add: noted_def\<close>)
  then have "runs (fmt_of (fst tt) @ '':'' @ fmt_of (snd tt)) (args_of (fst tt) @ [] @ args_of (snd tt)) p (noted ?p1 s2)"
    by (intro runs_append [OF s1(2)] runs_append [OF _ run2])
  moreover have "pairs_denote (Suc (length st)) (m_store s3) (kvs @ [(k, v)]) (tts0 @ [tt])"
    using s3(6,7) by (intro list_all2_appendI list_all2_mono [OF assms(7)]) (auto dest: s3(8))
  ultimately show ?thesis
    using s3(4,5) at assms(6)
    by (intro exI [of _ "noted ?p1 s2"] exI [of _ s3] exI [of _ "kvs @ [(k, v)]"]) simp
qed

definition pair_fmt :: "md_tree \<times> md_tree \<Rightarrow> string" where
  "pair_fmt tt = fmt_of (fst tt) @ '':'' @ fmt_of (snd tt)"

definition pair_args :: "md_tree \<times> md_tree \<Rightarrow> md_arg list" where
  "pair_args tt = args_of (fst tt) @ args_of (snd tt)"

lemma fmt_of_hash: "fmt_of (T_hash tts) = ''{'' @ commas (map pair_fmt tts) @ ''}''"
  "args_of (T_hash tts) = concat (map pair_args tts)"
proof -
  have "map (\<lambda>(k, t). k @ '':'' @ t) (map (map_prod fmt_of fmt_of) tts) = map pair_fmt tts"
    "map (\<lambda>(k, t). k @ t) (map (map_prod args_of args_of) tts) = map pair_args tts"
    by (auto simp: pair_fmt_def pair_args_def)
  then show "fmt_of (T_hash tts) = ''{'' @ commas (map pair_fmt tts) @ ''}''"
    "args_of (T_hash tts) = concat (map pair_args tts)"
    by (simp_all only: fmt_of.simps args_of.simps)
qed

lemma push_pairs:
  assumes "tts \<noteq> []" and "\<forall>tt \<in> set tts. pushes (fst tt) \<and> pushes (snd tt) \<and> scalar_tree (fst tt)"
    and "filling st base c (Map_data kvs) (pf_stack p)"
    and "m_type c = MD_TYPE_HASH" and "array_map_stack p = (MD_TYPE_HASH, length base) # am"
    and "pairs_denote (Suc (length st)) (m_store (pf_stack p)) kvs tts0"
  shows "\<exists>s' kvs'. runs (commas (map pair_fmt tts) @ ''}'') (concat (map pair_args tts)) p
       (p\<lparr>pf_stack := s', array_map_stack := am\<rparr>) \<and>
     filling st base c (Map_data kvs') s' \<and> out_fmt s' = out_fmt (pf_stack p) \<and>
     pairs_denote (Suc (length st)) (m_store s') kvs' (tts0 @ tts)"
  using assms
proof (induction tts arbitrary: p kvs tts0 rule: list_nonempty_induct)
  case (single tt)
  from single.prems have "pushes (fst tt)" "pushes (snd tt)" "scalar_tree (fst tt)" by simp_all
  from push_pair [OF this single.prems(2-5)] obtain p1 s' kvs' where p1: "runs (pair_fmt tt) (pair_args tt) p p1"
    "push_to_hash_or_array p1 = Some (MD_SUCCESS, p\<lparr>pf_stack := s'\<rparr>)" "array_map_stack p1 = array_map_stack p"
    "v_idx_stack p1 \<noteq> []" "filling st base c (Map_data kvs') s'" "out_fmt s' = out_fmt (pf_stack p)"
    "pairs_denote (Suc (length st)) (m_store s') kvs' (tts0 @ [tt])"
    unfolding pair_fmt_def pair_args_def by blast
  have "runs ''}'' [] p1 (p\<lparr>pf_stack := s', array_map_stack := am\<rparr>)"
    using p1(3) single.prems(4) runs_close [OF p1(2) _ p1(4), of MD_TYPE_HASH "length base" am] by simp
  from runs_append [OF p1(1) this] p1(5-) show ?case by auto
next
  case (cons tt tts)
  from cons.prems have "pushes (fst tt)" "pushes (snd tt)" "scalar_tree (fst tt)" by simp_all
  from push_pair [OF this cons.prems(2-5)] obtain p1 s1 kvs1 where p1: "runs (pair_fmt tt) (pair_args tt) p p1"
    "push_to_hash_or_array p1 = Some (MD_SUCCESS, p\<lparr>pf_stack := s1\<rparr>)"
    "filling st base c (Map_data kvs1) s1" "out_fmt s1 = out_fmt (pf_stack p)"
    "pairs_denote (Suc (length st)) (m_store s1) kvs1 (tts0 @ [tt])"
    unfolding pair_fmt_def pair_args_def by blast
  from cons.IH [of kvs1 "p\<lparr>pf_stack := s1\<rparr>" "tts0 @ [tt]"] cons.prems p1(3,5) obtain s' kvs' where s':
    "runs (commas (map pair_fmt tts) @ ''}'') (concat (map pair_args tts)) (p\<lparr>pf_stack := s1\<rparr>)
       (p\<lparr>pf_stack := s', array_map_stack := am\<rparr>)"
    "filling st base c (Map_data kvs') s'" "out_fmt s' = out_fmt s1"
    "pairs_denote (Suc (length st)) (m_store s') kvs' ((tts0 @ [tt]) @ tts)"
    by auto
  have "map pair_fmt tts \<noteq> []" using cons.hyps by simp
  then show ?case
    using runs_append [OF p1(1) runs_append [OF runs_comma [OF p1(2)] s'(1)]] s'(2-) p1(4)
    by (auto simp: commas_Cons)
qed

text \<open>A container at the start of its format string, and at the end of it.\<close>

lemma pushes_container:
  assumes "ty = MD_TYPE_ARRAY \<and> c = CHR ''['' \<and> d = Array_data [] \<or> ty = MD_TYPE_HASH \<and> c = CHR ''{'' \<and> d = Map_data []"
    and "fmt_of t = c # f"
    and "\<And>s am p. \<not> finalized s \<Longrightarrow> pf_stack p = snd (push_value ty d s)
      \<Longrightarrow> array_map_stack p = (ty, length (m_stack s)) # am
      \<Longrightarrow> \<exists>s'. pushed s t s' \<and> runs f (args_of t) p (p\<lparr>pf_stack := s', array_map_stack := am\<rparr>)"
  shows "pushes t"
  unfolding pushes_def
proof (intro allI impI)
  fix p :: pushf_state
  assume fin: "\<not> finalized (pf_stack p)"
  let ?s1 = "snd (push_value ty d (pf_stack p))"
  let ?p1 = "(noted p ?s1)\<lparr>array_map_stack := (ty, length (m_stack (pf_stack p))) # array_map_stack p\<rparr>"
  have "pf_stack ?p1 = ?s1" by (simp add: noted_def)
  from assms(3) [OF fin this] obtain s' where "pushed (pf_stack p) t s'" "runs f (args_of t) ?p1 (noted p s')"
    by (auto simp: noted_again)
  then show "\<exists>s'. pushed (pf_stack p) t s' \<and> runs (fmt_of t) (args_of t) p (noted p s')"
    using runs_append [OF runs_open [OF fin assms(1)]] unfolding assms(2) by auto
qed

lemma pushes_array:
  assumes "\<forall>t \<in> set ts. pushes t" and "ts \<noteq> []"
  shows "pushes (T_array ts)"
proof (rule pushes_container [where d = "Array_data []"])
  fix s :: basic_stack and am and p :: pushf_state
  let ?c = "\<lparr>m_type = MD_TYPE_ARRAY, m_data = length (m_store s)\<rparr>"
  assume fin: "\<not> finalized s" and p: "pf_stack p = snd (push_value MD_TYPE_ARRAY (Array_data []) s)"
    "array_map_stack p = (MD_TYPE_ARRAY, length (m_stack s)) # am"
  have "filling (m_store s) (m_stack s) ?c (Array_data []) (pf_stack p)"
    unfolding p by (rule filling_start [OF fin])
  from push_items [OF assms(2,1) this _ p(2), of "[]"] obtain s' xs where s':
    "runs (commas (map fmt_of ts) @ '']'') (concat (map args_of ts)) p (p\<lparr>pf_stack := s', array_map_stack := am\<rparr>)"
    "filling (m_store s) (m_stack s) ?c (Array_data xs) s'" "out_fmt s' = out_fmt (pf_stack p)"
    "list_all2 (denotes (Suc (length (m_store s))) (m_store s')) xs ts"
    by auto
  have "pushed s (T_array ts) s'"
  proof (rule filling_pushed)
    show "denotes (length (m_store s)) (m_store s') v (T_array ts)"
      if "get_typed (m_store s') v = Some (Array_data xs)" and "length (m_store s) \<le> m_data v" for v
      using that s'(4) by (auto intro: denotes.array list_all2_denotes_lower)
  qed (use fin s' p in \<open>simp_all add: push_value_run\<close>)
  then show "\<exists>s'. pushed s (T_array ts) s' \<and> runs (commas (map fmt_of ts) @ '']'') (args_of (T_array ts)) p
      (p\<lparr>pf_stack := s', array_map_stack := am\<rparr>)"
    using s'(1) by auto
qed simp_all

lemma pushes_hash:
  assumes "\<forall>tt \<in> set tts. pushes (fst tt) \<and> pushes (snd tt) \<and> scalar_tree (fst tt)" and "tts \<noteq> []"
  shows "pushes (T_hash tts)"
proof (rule pushes_container [where d = "Map_data []"])
  fix s :: basic_stack and am and p :: pushf_state
  let ?c = "\<lparr>m_type = MD_TYPE_HASH, m_data = length (m_store s)\<rparr>"
  assume fin: "\<not> finalized s" and p: "pf_stack p = snd (push_value MD_TYPE_HASH (Map_data []) s)"
    "array_map_stack p = (MD_TYPE_HASH, length (m_stack s)) # am"
  have "filling (m_store s) (m_stack s) ?c (Map_data []) (pf_stack p)"
    unfolding p by (rule filling_start [OF fin])
  from push_pairs [OF assms(2,1) this _ p(2), of "[]"] obtain s' kvs where s':
    "runs (commas (map pair_fmt tts) @ ''}'') (concat (map pair_args tts)) p (p\<lparr>pf_stack := s', array_map_stack := am\<rparr>)"
    "filling (m_store s) (m_stack s) ?c (Map_data kvs) s'" "out_fmt s' = out_fmt (pf_stack p)"
    "pairs_denote (Suc (length (m_store s))) (m_store s') kvs tts"
    by auto
  have "pushed s (T_hash tts) s'"
  proof (rule filling_pushed)
    show "denotes (length (m_store s)) (m_store s') v (T_hash tts)"
      if "get_typed (m_store s') v = Some (Map_data kvs)" and "length (m_store s) \<le> m_data v" for v
    proof (rule denotes.hash [OF that(2,1)], rule list_all2_mono [OF s'(4)], elim conjE, intro conjI)
    qed (erule denotes_lower, simp)+
  qed (use fin s' p in \<open>simp_all add: push_value_run\<close>)
  then show "\<exists>s'. pushed s (T_hash tts) s' \<and> runs (commas (map pair_fmt tts) @ ''}'') (args_of (T_hash tts)) p
      (p\<lparr>pf_stack := s', array_map_stack := am\<rparr>)"
    using s'(1) unfolding fmt_of_hash by auto
qed (simp, simp only: fmt_of_hash append.simps)

lemma nestable_pushes: "nestable t \<Longrightarrow> pushes t"
proof (induction t)
  case (T_array ts)
  then show ?case by (intro pushes_array) (auto simp: list_all_iff)
next
  case (T_hash tts)
  have "pushes (fst tt) \<and> pushes (snd tt) \<and> scalar_tree (fst tt)" if "tt \<in> set tts" for tt
  proof -
    have "nestable (fst tt)" "nestable (snd tt)" "scalar_tree (fst tt)"
      using T_hash.prems that by (auto simp: list_all_iff case_prod_beta)
    then show ?thesis
      using T_hash.IH [OF that] by (cases tt) (simp add: prod_set_simps)
  qed
  then show ?case using T_hash.prems by (intro pushes_hash) auto
qed (simp_all add: pushes_scalar)

end
