(* ===== verification/Metadata_Format_Roundtrip.thy ===== *)
theory Metadata_Format_Roundtrip
  imports Metadata_Format
begin

text \<open>
  \<^verbatim>\<open>md_loadf\<close> inverts \<^verbatim>\<open>md_pushf\<close>: what a format string pushes onto an empty stack, the same format string loads.
  At the end stand the ways in which the two calls fail, and that \<^verbatim>\<open>md_pushf\<close> keeps a stack well-typed.
\<close>

section \<open>Several values\<close>

lemma push_trees:
  assumes "\<forall>t \<in> set ts. nestable t" and "\<not> finalized (pf_stack p)" and "array_map_stack p = []"
  shows "\<exists>s' vs ds. runs (concat (map fmt_of ts)) (concat (map args_of ts)) p (p\<lparr>pf_stack := s'\<rparr>) \<and>
     m_stack s' = m_stack (pf_stack p) @ vs \<and> m_store s' = m_store (pf_stack p) @ ds \<and>
     list_all2 (denotes (length (m_store (pf_stack p))) (m_store s')) vs ts \<and> \<not> finalized s' \<and>
     out_fmt s' = out_fmt (pf_stack p)"
  using assms
proof (induction ts arbitrary: p)
  case Nil
  have "runs [] [] p p" by (simp add: runs_def)
  then show ?case using Nil.prems by (intro exI [of _ "pf_stack p"] exI [of _ "[]"]) simp
next
  case (Cons t ts)
  have "pushes t" using Cons.prems(1) nestable_pushes by simp
  with Cons.prems(2) obtain s1 where s1: "pushed (pf_stack p) t s1" "runs (fmt_of t) (args_of t) p (noted p s1)"
    by (auto simp: pushes_def)
  have p1: "noted p s1 = p\<lparr>pf_stack := s1\<rparr>"
    using Cons.prems(3) by (cases p) (simp add: noted_def)
  from s1(1) obtain v ds1 where v: "m_stack s1 = m_stack (pf_stack p) @ [v]" "m_store s1 = m_store (pf_stack p) @ ds1"
    "denotes (length (m_store (pf_stack p))) (m_store s1) v t" "finalized s1 = finalized (pf_stack p)"
    "out_fmt s1 = out_fmt (pf_stack p)"
    by (auto simp: pushed_def)
  from Cons.IH [of "p\<lparr>pf_stack := s1\<rparr>"] Cons.prems v(4) obtain s' vs ds where s':
    "runs (concat (map fmt_of ts)) (concat (map args_of ts)) (p\<lparr>pf_stack := s1\<rparr>) (p\<lparr>pf_stack := s'\<rparr>)"
    "m_stack s' = m_stack s1 @ vs" "m_store s' = m_store s1 @ ds"
    "list_all2 (denotes (length (m_store s1)) (m_store s')) vs ts" "\<not> finalized s'"
    "out_fmt s' = out_fmt s1"
    by auto
  have "list_all2 (denotes (length (m_store (pf_stack p))) (m_store s')) vs ts"
    using s'(4) by (rule list_all2_mono) (erule denotes_lower, simp add: v(2))
  moreover have "denotes (length (m_store (pf_stack p))) (m_store s') v t"
    unfolding s'(3) by (rule denotes_extend [OF v(3)])
  moreover have "runs (concat (map fmt_of (t # ts))) (concat (map args_of (t # ts))) p (p\<lparr>pf_stack := s'\<rparr>)"
    using runs_append [OF s1(2) [unfolded p1] s'(1)] by simp
  ultimately show ?case
    using s'(2,3,5,6) v(1,2,5) by (intro exI [of _ s'] exI [of _ "v # vs"]) simp
qed

lemma pushf_trees:
  assumes "\<forall>t \<in> set ts. nestable t" and "\<not> finalized s"
  shows "\<exists>s' vs. md_pushf (concat (map fmt_of ts)) (concat (map args_of ts)) s = Some (stack_top s', s') \<and>
     m_stack s' = m_stack s @ vs \<and> list_all2 (denotes (length (m_store s)) (m_store s')) vs ts \<and>
     (\<exists>ds. m_store s' = m_store s @ ds) \<and> out_fmt s' = out_fmt s"
proof -
  let ?p = "\<lparr>pf_stack = s, array_map_stack = [], v_idx_stack = []\<rparr>"
  from push_trees [OF assms(1), of ?p] assms(2) obtain s' vs ds where s':
    "runs (concat (map fmt_of ts)) (concat (map args_of ts)) ?p (?p\<lparr>pf_stack := s'\<rparr>)"
    "m_stack s' = m_stack s @ vs" "m_store s' = m_store s @ ds"
    "list_all2 (denotes (length (m_store s)) (m_store s')) vs ts" "out_fmt s' = out_fmt s"
    by auto
  from s'(1) have "pushf_loop (concat (map fmt_of ts) @ []) (concat (map args_of ts) @ []) ?p =
      pushf_loop [] [] (?p\<lparr>pf_stack := s'\<rparr>)"
    unfolding runs_def by blast
  then show ?thesis using s'(2-) by (simp add: md_pushf_def)
qed

section \<open>What a format string loads\<close>

text \<open>What is stored for an argument: strings come with their terminating zero.\<close>

fun terminated :: "md_arg \<Rightarrow> md_arg" where
  "terminated (Arg_zstr bs) = Arg_zstr (bs @ [0])"
| "terminated a = a"

definition outs :: "md_tree \<Rightarrow> md_arg list" where
  "outs t = map terminated (args_of t)"

definition bump :: "loadf_state \<Rightarrow> loadf_state" where
  "bump l = (if nested l = [] then l\<lparr>cur_stack_pointer := cur_stack_pointer l + 1\<rparr> else l)"

definition load_runs :: "string \<Rightarrow> basic_stack \<Rightarrow> loadf_state \<Rightarrow> loadf_state \<Rightarrow> bool" where
  "load_runs f s l l' \<longleftrightarrow> (\<forall>fmt. loadf_loop (f @ fmt) s l = loadf_loop fmt s l')"

lemma load_append: "load_runs f s l l1 \<Longrightarrow> load_runs g s l1 l2 \<Longrightarrow> load_runs (f @ g) s l l2"
  by (simp add: load_runs_def)

lemma load_step: "loadf_step c s l = Some (MD_SUCCESS, l') \<Longrightarrow> load_runs [c] s l (bump l')"
  by (simp add: load_runs_def bump_def)

definition loads :: "md_tree \<Rightarrow> bool" where
  "loads t \<longleftrightarrow> (\<forall>s l v b. denotes b (m_store s) v t \<longrightarrow> loadf_get_value s l = Some (Inr v) \<longrightarrow>
     (\<exists>k. load_runs (fmt_of t) s l (bump (l\<lparr>is_key := k, loaded := loaded l @ outs t\<rparr>)) \<and>
        (scalar_tree t \<longrightarrow> k = is_key l)))"

lemma loads_value:
  assumes "\<And>st b v. denotes b st v t \<Longrightarrow> getter st v = Some (Inr x)" and "fmt_of t = [c]" and "outs t = [arg x]"
    and "\<And>s l. loadf_step c s l = load_value a getter arg s l"
  shows "loads t"
  unfolding loads_def
proof (intro allI impI exI conjI)
  fix s l v b
  assume "denotes b (m_store s) v t" and "loadf_get_value s l = Some (Inr v)"
  then have "loadf_step c s l = Some (MD_SUCCESS, l\<lparr>is_key := is_key l, loaded := loaded l @ outs t\<rparr>)"
    using assms(1,3,4) by (simp add: load_value_def)
  then show "load_runs (fmt_of t) s l (bump (l\<lparr>is_key := is_key l, loaded := loaded l @ outs t\<rparr>))"
    unfolding assms(2) by (rule load_step)
qed simp

lemma getters:
  "denotes b st v (T_uint n) \<Longrightarrow> md_get_uint st v = Some (Inr n)"
  "denotes b st v (T_sint n) \<Longrightarrow> md_get_sint st v = Some (Inr n)"
  "denotes b st v (T_real n) \<Longrightarrow> md_get_real st v = Some (Inr n)"
  "denotes b st v (T_zstr bs) \<Longrightarrow> md_get_zstr st v = Some (Inr (bs @ [0]))"
  "denotes b st v (T_bytes bs) \<Longrightarrow> md_get_bytes st v = Some (Inr bs)"
  by (cases rule: denotes.cases, auto simp: get_typed_def md_get_uint_def md_get_sint_def md_get_real_def
      md_get_zstr_def md_get_bytes_def split: option.splits if_splits)+

lemma loads_scalar:
  "loads (T_sint n)" "loads (T_uint n)" "loads (T_real n)" "loads (T_bytes bs)" "loads (T_zstr bs)"
  by (rule loads_value, erule getters, rule fmt_of.simps, simp add: outs_def, simp add: loadf_step_def)+

lemma load_comma:
  assumes "nested l = (v, i) # rest"
  shows "load_runs '','' s l (l\<lparr>nested := (v, Suc i) # rest, is_key := True\<rparr>)"
  using load_step [of "CHR '',''" s l] assms by (simp add: loadf_step_def bump_def)

lemma load_same:
  "nested l = n \<Longrightarrow> l\<lparr>nested := n, is_key := k, loaded := xs\<rparr> = l\<lparr>is_key := k, loaded := xs\<rparr>"
  "is_key l \<Longrightarrow> l\<lparr>is_key := True, loaded := xs\<rparr> = l\<lparr>loaded := xs\<rparr>"
  by (cases l; simp)+

text \<open>One value inside a container, one entry of a map, and all of them.\<close>

lemma load_one:
  assumes "loads t" and "denotes b (m_store s) u t" and "loadf_get_value s l = Some (Inr u)" and "nested l \<noteq> []"
  shows "\<exists>k. load_runs (fmt_of t) s l (l\<lparr>is_key := k, loaded := loaded l @ outs t\<rparr>) \<and> (scalar_tree t \<longrightarrow> k = is_key l)"
proof -
  from assms(1-3) obtain k where "load_runs (fmt_of t) s l (bump (l\<lparr>is_key := k, loaded := loaded l @ outs t\<rparr>))"
    "scalar_tree t \<longrightarrow> k = is_key l"
    unfolding loads_def by blast
  with assms(4) show ?thesis by (auto simp: bump_def)
qed

lemma load_item:
  assumes "loads t" and "denotes b (m_store s) u t" and "m_type v = MD_TYPE_ARRAY"
    and "get_data (m_store s) v = Some (Array_data (us @ u # vs))" and "nested l = (v, length us) # rest"
  shows "\<exists>k. load_runs (fmt_of t) s l (l\<lparr>is_key := k, loaded := loaded l @ outs t\<rparr>)"
proof -
  have "loadf_get_value s l = Some (Inr u)"
    using assms(3-5) by (simp add: loadf_get_value_def nth_append)
  from load_one [OF assms(1,2) this] assms(5) show ?thesis by auto
qed

definition pair_outs :: "md_tree \<times> md_tree \<Rightarrow> md_arg list" where
  "pair_outs tt = outs (fst tt) @ outs (snd tt)"

lemma load_pair:
  assumes "loads (fst tt)" and "loads (snd tt)" and "scalar_tree (fst tt)" and "m_type v = MD_TYPE_HASH"
    and "denotes b (m_store s) (fst kv) (fst tt)" and "denotes b (m_store s) (snd kv) (snd tt)"
    and "get_data (m_store s) v = Some (Map_data (us @ kv # kvs))" and "nested l = (v, length us) # rest" and "is_key l"
  shows "\<exists>k. load_runs (pair_fmt tt) s l (l\<lparr>is_key := k, loaded := loaded l @ pair_outs tt\<rparr>)"
proof -
  let ?l1 = "l\<lparr>loaded := loaded l @ outs (fst tt)\<rparr>" and ?l2 = "l\<lparr>loaded := loaded l @ outs (fst tt), is_key := False\<rparr>"
  have key: "loadf_get_value s l = Some (Inr (fst kv))" and val: "loadf_get_value s ?l2 = Some (Inr (snd kv))"
    using assms(4,7-9) by (simp_all add: loadf_get_value_def nth_append)
  have "load_runs (fmt_of (fst tt)) s l ?l1"
    using load_one [OF assms(1,5) key] assms(3,8,9) by (auto simp: load_same)
  moreover have "load_runs '':'' s ?l1 ?l2"
    using load_step [of "CHR '':''" s ?l1] assms(8) by (simp add: loadf_step_def bump_def)
  moreover from load_one [OF assms(2,6) val] obtain k where
    "load_runs (fmt_of (snd tt)) s ?l2 (?l2\<lparr>is_key := k, loaded := loaded ?l2 @ outs (snd tt)\<rparr>)"
    using assms(8) by auto
  ultimately show ?thesis
    unfolding pair_fmt_def pair_outs_def using load_append [OF _ load_append] by (intro exI [of _ k]) fastforce
qed

lemma load_items:
  assumes "ts \<noteq> []" and "\<forall>t \<in> set ts. loads t" and "m_type v = MD_TYPE_ARRAY"
    and "get_data (m_store s) v = Some (Array_data (us @ vs))" and "list_all2 (denotes b (m_store s)) vs ts"
    and "nested l = (v, length us) # rest"
  shows "\<exists>i k. load_runs (commas (map fmt_of ts)) s l
     (l\<lparr>nested := (v, i) # rest, is_key := k, loaded := loaded l @ concat (map outs ts)\<rparr>)"
  using assms
proof (induction ts arbitrary: us vs l rule: list_nonempty_induct)
  case (single t)
  then obtain u where vs: "vs = [u]" "denotes b (m_store s) u t"
    by (auto simp: list_all2_Cons2)
  have "loads t" using single.prems(1) by simp
  from load_item [OF this vs(2) single.prems(2) single.prems(3) [unfolded vs(1)] single.prems(5)] single.prems(5)
  show ?case by (intro exI [of _ "length us"]) (simp add: load_same)
next
  case (cons t ts)
  from cons.prems(4) obtain u vs' where vs: "vs = u # vs'" "denotes b (m_store s) u t" "list_all2 (denotes b (m_store s)) vs' ts"
    by (auto simp: list_all2_Cons2)
  have "loads t" using cons.prems(1) by simp
  from load_item [OF this vs(2) cons.prems(2) cons.prems(3) [unfolded vs(1)] cons.prems(5)] obtain k where
    run: "load_runs (fmt_of t) s l (l\<lparr>is_key := k, loaded := loaded l @ outs t\<rparr>)" (is "load_runs _ _ _ ?l1")
    by blast
  let ?l2 = "?l1\<lparr>nested := (v, Suc (length us)) # rest, is_key := True\<rparr>"
  have "load_runs '','' s ?l1 ?l2"
    by (rule load_comma) (use cons.prems(5) in simp)
  from load_append [OF run this] obtain i k' where
    "load_runs (fmt_of t @ '','') s l ?l2"
    "load_runs (commas (map fmt_of ts)) s ?l2
      (?l2\<lparr>nested := (v, i) # rest, is_key := k', loaded := loaded ?l2 @ concat (map outs ts)\<rparr>)"
    using cons.IH [of "us @ [u]" vs' ?l2] cons.prems(1-3) vs by auto
  from load_append [OF this] have "load_runs (fmt_of t @ '','' @ commas (map fmt_of ts)) s l
      (?l2\<lparr>nested := (v, i) # rest, is_key := k', loaded := loaded ?l2 @ concat (map outs ts)\<rparr>)"
    by simp
  moreover have "map fmt_of ts \<noteq> []" using cons.hyps by simp
  ultimately show ?case
    by (intro exI [of _ i] exI [of _ k']) (simp add: commas_Cons)
qed

lemma load_pairs:
  assumes "tts \<noteq> []" and "\<forall>tt \<in> set tts. loads (fst tt) \<and> loads (snd tt) \<and> scalar_tree (fst tt)"
    and "m_type v = MD_TYPE_HASH" and "get_data (m_store s) v = Some (Map_data (us @ kvs))"
    and "pairs_denote b (m_store s) kvs tts" and "nested l = (v, length us) # rest" and "is_key l"
  shows "\<exists>i k. load_runs (commas (map pair_fmt tts)) s l
     (l\<lparr>nested := (v, i) # rest, is_key := k, loaded := loaded l @ concat (map pair_outs tts)\<rparr>)"
  using assms
proof (induction tts arbitrary: us kvs l rule: list_nonempty_induct)
  case (single tt)
  then obtain kv where kvs: "kvs = [kv]" "denotes b (m_store s) (fst kv) (fst tt)" "denotes b (m_store s) (snd kv) (snd tt)"
    by (auto simp: list_all2_Cons2)
  have "loads (fst tt)" "loads (snd tt)" "scalar_tree (fst tt)" using single.prems(1) by simp_all
  from load_pair [OF this single.prems(2) kvs(2,3) single.prems(3) [unfolded kvs(1)] single.prems(5,6)] single.prems(5)
  show ?case by (intro exI [of _ "length us"]) (simp add: load_same)
next
  case (cons tt tts)
  from cons.prems(4) obtain kv kvs' where kvs: "kvs = kv # kvs'" "denotes b (m_store s) (fst kv) (fst tt)"
    "denotes b (m_store s) (snd kv) (snd tt)" "pairs_denote b (m_store s) kvs' tts"
    by (auto simp: list_all2_Cons2)
  have "loads (fst tt)" "loads (snd tt)" "scalar_tree (fst tt)" using cons.prems(1) by simp_all
  from load_pair [OF this cons.prems(2) kvs(2,3) cons.prems(3) [unfolded kvs(1)] cons.prems(5,6)] obtain k where
    run: "load_runs (pair_fmt tt) s l (l\<lparr>is_key := k, loaded := loaded l @ pair_outs tt\<rparr>)" (is "load_runs _ _ _ ?l1")
    by blast
  let ?l2 = "?l1\<lparr>nested := (v, Suc (length us)) # rest, is_key := True\<rparr>"
  have "load_runs '','' s ?l1 ?l2"
    by (rule load_comma) (use cons.prems(5) in simp)
  from load_append [OF run this] obtain i k' where
    "load_runs (pair_fmt tt @ '','') s l ?l2"
    "load_runs (commas (map pair_fmt tts)) s ?l2
      (?l2\<lparr>nested := (v, i) # rest, is_key := k', loaded := loaded ?l2 @ concat (map pair_outs tts)\<rparr>)"
    using cons.IH [of "us @ [kv]" kvs' ?l2] cons.prems(1-3) kvs by auto
  from load_append [OF this] have "load_runs (pair_fmt tt @ '','' @ commas (map pair_fmt tts)) s l
      (?l2\<lparr>nested := (v, i) # rest, is_key := k', loaded := loaded ?l2 @ concat (map pair_outs tts)\<rparr>)"
    by simp
  moreover have "map pair_fmt tts \<noteq> []" using cons.hyps by simp
  ultimately show ?case
    by (intro exI [of _ i] exI [of _ k']) (simp add: commas_Cons)
qed

lemma loads_container:
  assumes "ty = MD_TYPE_ARRAY \<and> c = CHR ''['' \<and> c' = CHR '']'' \<or> ty = MD_TYPE_HASH \<and> c = CHR ''{'' \<and> c' = CHR ''}''"
    and "fmt_of t = c # f @ [c']" and "\<not> scalar_tree t"
    and "\<And>s v b l rest. denotes b (m_store s) v t \<Longrightarrow> nested l = (v, 0) # rest \<Longrightarrow> ty = MD_TYPE_HASH \<longrightarrow> is_key l
      \<Longrightarrow> m_type v = ty \<and> (\<exists>i k. load_runs f s l (l\<lparr>nested := (v, i) # rest, is_key := k, loaded := loaded l @ outs t\<rparr>))"
  shows "loads t"
  unfolding loads_def assms(2)
proof (intro allI impI)
  fix s l v b
  assume v: "denotes b (m_store s) v t" and get: "loadf_get_value s l = Some (Inr v)"
  let ?l1 = "l\<lparr>nested := (v, 0) # nested l, is_key := (ty = MD_TYPE_HASH \<or> is_key l)\<rparr>"
  from assms(4) [OF v, of ?l1 "nested l"] obtain i k where ty: "m_type v = ty" and
    run: "load_runs f s ?l1 (?l1\<lparr>nested := (v, i) # nested l, is_key := k, loaded := loaded l @ outs t\<rparr>)"
      (is "load_runs _ _ _ ?l2")
    by auto
  have "loadf_step c s l = Some (MD_SUCCESS, ?l1)"
    using assms(1) ty get by (elim disjE conjE) (simp_all add: loadf_step_def load_container_def)
  from load_step [OF this] have "load_runs [c] s l ?l1" by (simp add: bump_def)
  moreover have "loadf_step c' s ?l2 = Some (MD_SUCCESS, ?l2\<lparr>nested := nested l\<rparr>)"
    using assms(1) by (elim disjE conjE) (simp_all add: loadf_step_def)
  then have "load_runs [c'] s ?l2 (bump (?l2\<lparr>nested := nested l\<rparr>))" by (rule load_step)
  moreover have "?l2\<lparr>nested := nested l\<rparr> = l\<lparr>is_key := k, loaded := loaded l @ outs t\<rparr>"
    by (cases l) simp
  ultimately have "load_runs ([c] @ f @ [c']) s l (bump (l\<lparr>is_key := k, loaded := loaded l @ outs t\<rparr>))"
    using load_append [OF _ load_append [OF run]] by metis
  then show "\<exists>k. load_runs (c # f @ [c']) s l (bump (l\<lparr>is_key := k, loaded := loaded l @ outs t\<rparr>)) \<and>
      (scalar_tree t \<longrightarrow> k = is_key l)"
    using assms(3) by auto
qed

lemma loads_array:
  assumes "\<forall>t \<in> set ts. loads t" and "ts \<noteq> []"
  shows "loads (T_array ts)"
proof (rule loads_container [where c = "CHR ''[''"])
  fix s :: basic_stack and v b and l :: loadf_state and rest
  assume "denotes b (m_store s) v (T_array ts)" and l: "nested l = (v, 0) # rest"
  then obtain vs where v: "m_type v = MD_TYPE_ARRAY" "get_data (m_store s) v = Some (Array_data ([] @ vs))"
    "list_all2 (denotes b (m_store s)) vs ts"
    by (cases rule: denotes.cases) (auto simp: get_typed_def split: option.splits if_splits)
  from load_items [where us = "[]", OF assms(2,1) v] l v(1)
  show "m_type v = MD_TYPE_ARRAY \<and> (\<exists>i k. load_runs (commas (map fmt_of ts)) s l
      (l\<lparr>nested := (v, i) # rest, is_key := k, loaded := loaded l @ outs (T_array ts)\<rparr>))"
    by (simp add: outs_def [abs_def] map_concat o_def)
qed simp_all

lemma loads_hash:
  assumes "\<forall>tt \<in> set tts. loads (fst tt) \<and> loads (snd tt) \<and> scalar_tree (fst tt)" and "tts \<noteq> []"
  shows "loads (T_hash tts)"
proof (rule loads_container [where c = "CHR ''{''"])
  fix s :: basic_stack and v b and l :: loadf_state and rest
  assume "denotes b (m_store s) v (T_hash tts)" and l: "nested l = (v, 0) # rest" "MD_TYPE_HASH = MD_TYPE_HASH \<longrightarrow> is_key l"
  then obtain kvs where v: "m_type v = MD_TYPE_HASH" "get_data (m_store s) v = Some (Map_data ([] @ kvs))"
    "pairs_denote b (m_store s) kvs tts"
    by (cases rule: denotes.cases) (auto simp: get_typed_def split: option.splits if_splits)
  have "outs (T_hash tts) = concat (map pair_outs tts)"
    unfolding outs_def fmt_of_hash by (simp add: map_concat o_def pair_outs_def [abs_def] pair_args_def outs_def)
  with load_pairs [where us = "[]", OF assms(2,1) v] l v(1)
  show "m_type v = MD_TYPE_HASH \<and> (\<exists>i k. load_runs (commas (map pair_fmt tts)) s l
      (l\<lparr>nested := (v, i) # rest, is_key := k, loaded := loaded l @ outs (T_hash tts)\<rparr>))"
    by simp
qed (simp, simp only: fmt_of_hash append.simps append_assoc, simp)

lemma nestable_loads: "nestable t \<Longrightarrow> loads t"
proof (induction t)
  case (T_array ts)
  then show ?case by (intro loads_array) (auto simp: list_all_iff)
next
  case (T_hash tts)
  have "loads (fst tt) \<and> loads (snd tt) \<and> scalar_tree (fst tt)" if "tt \<in> set tts" for tt
  proof -
    have "nestable (fst tt)" "nestable (snd tt)" "scalar_tree (fst tt)"
      using T_hash.prems that by (auto simp: list_all_iff case_prod_beta)
    then show ?thesis
      using T_hash.IH [OF that] by (cases tt) (simp add: prod_set_simps)
  qed
  then show ?case using T_hash.prems by (intro loads_hash) auto
qed (simp_all add: loads_scalar)

lemma load_trees:
  assumes "\<forall>t \<in> set ts. nestable t" and "m_stack s = us @ vs" and "list_all2 (denotes b (m_store s)) vs ts"
    and "nested l = []" and "cur_stack_pointer l = length us"
  shows "\<exists>i k. load_runs (concat (map fmt_of ts)) s l
     (l\<lparr>cur_stack_pointer := i, is_key := k, loaded := loaded l @ concat (map outs ts)\<rparr>)"
  using assms
proof (induction ts arbitrary: us vs l)
  case Nil
  have "load_runs [] s l (l\<lparr>cur_stack_pointer := cur_stack_pointer l, is_key := is_key l, loaded := loaded l\<rparr>)"
    by (simp add: load_runs_def)
  then show ?case by (metis append_Nil2 concat.simps(1) list.simps(8))
next
  case (Cons t ts)
  from Cons.prems(3) obtain u vs' where vs: "vs = u # vs'" "denotes b (m_store s) u t" "list_all2 (denotes b (m_store s)) vs' ts"
    by (auto simp: list_all2_Cons2)
  have "loadf_get_value s l = Some (Inr u)"
    using Cons.prems(2,4,5) vs(1) by (simp add: loadf_get_value_def md_get_value_def stack_top_def nth_append)
  moreover have "loads t" using Cons.prems(1) nestable_loads by simp
  ultimately obtain k where "load_runs (fmt_of t) s l (bump (l\<lparr>is_key := k, loaded := loaded l @ outs t\<rparr>))"
    using vs(2) unfolding loads_def by blast
  then have run: "load_runs (fmt_of t) s l (l\<lparr>is_key := k, loaded := loaded l @ outs t, cur_stack_pointer := Suc (length us)\<rparr>)"
    (is "load_runs _ _ _ ?l1")
    using Cons.prems(4,5) by (simp add: bump_def)
  from Cons.IH [of "us @ [u]" vs' ?l1] Cons.prems vs obtain i k' where
    "load_runs (concat (map fmt_of ts)) s ?l1
      (?l1\<lparr>cur_stack_pointer := i, is_key := k', loaded := loaded ?l1 @ concat (map outs ts)\<rparr>)"
    by auto
  from load_append [OF run this] show ?case
    by (intro exI [of _ i] exI [of _ k']) simp
qed

lemma loadf_trees:
  assumes "\<forall>t \<in> set ts. nestable t" and "list_all2 (denotes b (m_store s)) (m_stack s) ts"
  shows "md_loadf (concat (map fmt_of ts)) s = Some (stack_top s, map terminated (concat (map args_of ts)))"
proof -
  let ?l = "\<lparr>nested = [], cur_stack_pointer = 0, is_key = True, loaded = []\<rparr>"
  from load_trees [OF assms(1) _ assms(2), of "[]" ?l] obtain i k where
    "load_runs (concat (map fmt_of ts)) s ?l (?l\<lparr>cur_stack_pointer := i, is_key := k, loaded := concat (map outs ts)\<rparr>)"
    by auto
  then have "loadf_loop (concat (map fmt_of ts) @ []) s ?l =
      loadf_loop [] s (?l\<lparr>cur_stack_pointer := i, is_key := k, loaded := concat (map outs ts)\<rparr>)"
    unfolding load_runs_def by blast
  moreover have "concat (map outs ts) = map terminated (concat (map args_of ts))"
    by (simp add: map_concat o_def outs_def [abs_def])
  ultimately show ?thesis
    by (simp add: md_loadf_def)
qed



section \<open>Failing calls\<close>

lemma pop_all_open: "\<not> finalized s \<Longrightarrow> pop_all s = Some (s\<lparr>m_stack := []\<rparr>)"
proof (induction "m_stack s" arbitrary: s rule: rev_induct)
  case Nil
  then show ?case by (subst pop_all.simps) (simp add: stack_top_def)
next
  case (snoc v vs)
  have "m_stack s \<noteq> []" using snoc.hyps(2) by (metis snoc_eq_iff_butlast)
  then have "pop_all s = pop_all (s\<lparr>m_stack := vs\<rparr>)"
    using snoc.prems snoc.hyps(2) [symmetric]
    by (subst pop_all.simps) (simp add: stack_top_def md_pop_def Let_def)
  also have "\<dots> = Some (s\<lparr>m_stack := []\<rparr>)"
    using snoc.hyps(1) [of "s\<lparr>m_stack := vs\<rparr>"] snoc.prems by simp
  finally show ?case .
qed

lemma pop_all_finalized: "pop_all s = Some s' \<Longrightarrow> finalized s \<longrightarrow> m_stack s = []"
proof (rule pop_all.raw_induct [where P = "\<lambda>s s'. finalized s \<longrightarrow> m_stack s = []"])
  fix pop :: "basic_stack \<Rightarrow> basic_stack option" and s s'
  assume "\<And>s s'. pop s = Some s' \<Longrightarrow> finalized s \<longrightarrow> m_stack s = []"
    and "(case stack_top s of Inl _ \<Rightarrow> Some s | Inr _ \<Rightarrow> pop (snd (md_pop s))) = Some s'"
  then show "finalized s \<longrightarrow> m_stack s = []"
    by (auto simp: stack_top_def md_pop_def split: if_splits)
qed

lemma pop_all_empties: "pop_all s = Some s' \<Longrightarrow> m_stack s' = []"
proof (rule pop_all.raw_induct [where P = "\<lambda>s s'. m_stack s' = []"])
  fix pop :: "basic_stack \<Rightarrow> basic_stack option" and s s'
  assume "\<And>s s'. pop s = Some s' \<Longrightarrow> m_stack s' = []"
    and "(case stack_top s of Inl _ \<Rightarrow> Some s | Inr _ \<Rightarrow> pop (snd (md_pop s))) = Some s'"
  then show "m_stack s' = []"
    by (auto simp: stack_top_def split: if_splits)
qed

text \<open>A call that fails leaves an empty stack, whatever was on it before the call.\<close>

lemma failed_pushf_empties: "md_pushf fmt argp s = Some (Inl err, s') \<Longrightarrow> m_stack s' = []"
  by (auto simp: md_pushf_def stack_top_def dest: pop_all_empties split: option.splits if_splits)

text \<open>
  On a finalized stack that is not empty a failing call does not return, because every pop fails. A container inside a
  container may not be empty. A space, which \<^verbatim>\<open>md_pushf\<close> skips, moves \<^verbatim>\<open>md_loadf\<close> to the next value.
\<close>

lemma finalized_pushf_hangs:
  assumes "finalized s" and "m_stack s \<noteq> []"
  shows "md_pushf ''u'' [Arg_uint n] s = None"
proof -
  have "pop_all s = None"
    using pop_all_finalized assms by (cases "pop_all s") auto
  then show ?thesis
    using assms(1) by (simp add: md_pushf_def pushf_step_def Let_def push_defs push_value_def note_value_def)
qed

lemma format_strings_differ:
  "\<exists>s'. md_pushf ''[[]]'' [] (basic_stack_construct MD_FMT_MSGPACK) = Some (Inl MD_E_INDEX_ERR, s')"
  "\<exists>s'. md_pushf ''u u'' [Arg_uint 1, Arg_uint 2] (basic_stack_construct MD_FMT_MSGPACK) = Some (Inr 1, s') \<and>
     md_loadf ''u u'' s' = Some (Inl MD_E_INDEX_ERR, [Arg_uint 1])"
  by (simp_all add: md_pushf_def md_loadf_def stack_run pushf_step_def open_container_def close_container_def
      note_value_def push_to_hash_or_array_def pop_all_open loadf_step_def load_value_def loadf_get_value_def
      md_get_value_def md_get_uint_def)

section \<open>Well-typed stacks\<close>

lemma push_value_ok:
  assumes "stack_ok s"
  shows "stack_ok (snd (push_unsigned n s))" "stack_ok (snd (push_signed n s))" "stack_ok (snd (push_real n s))"
    "stack_ok (snd (push_zstr bs s))" "stack_ok (snd (push_bytes bs s))" "stack_ok (snd (push_map s))" "stack_ok (snd (push_arr s))"
  using md_exec_ok [OF assms, of "Push_unsigned n"] md_exec_ok [OF assms, of "Push_signed n"]
    md_exec_ok [OF assms, of "Push_real n"] md_exec_ok [OF assms, of "Push_zstr bs"] md_exec_ok [OF assms, of "Push_bytes bs"]
    md_exec_ok [OF assms, of "Push_map"] md_exec_ok [OF assms, of "Push_arr"]
  by simp_all

lemma note_value_ok: "stack_ok (snd r) \<Longrightarrow> note_value r p = (err, p') \<Longrightarrow> stack_ok (pf_stack p')"
  by (auto simp: note_value_def split: prod.splits sum.splits)

lemma open_container_ok: "stack_ok (snd r) \<Longrightarrow> open_container ty r p = (err, p') \<Longrightarrow> stack_ok (pf_stack p')"
  by (auto simp: open_container_def note_value_def split: prod.splits sum.splits)

lemma stack_okD:
  "arr_append i j s = Some (r, s') \<Longrightarrow> stack_ok s \<Longrightarrow> stack_ok s'"
  "hash_set_kv i j k s = Some (r, s') \<Longrightarrow> stack_ok s \<Longrightarrow> stack_ok s'"
  "md_pop s = (r', s') \<Longrightarrow> stack_ok s \<Longrightarrow> stack_ok s'"
  using arr_append_ok [of s i j] hash_set_kv_ok [of s i j k] stack_ok_pop [of s] by auto

lemma push_to_ok:
  assumes "push_to_hash_or_array p = Some (err, p')" and "stack_ok (pf_stack p)"
  shows "stack_ok (pf_stack p')"
  using assms by (auto simp: push_to_hash_or_array_def dest!: stack_okD
      split: list.splits prod.splits if_splits option.splits sum.splits)

lemma close_container_ok:
  "close_container ty p = Some (err, p') \<Longrightarrow> stack_ok (pf_stack p) \<Longrightarrow> stack_ok (pf_stack p')"
  by (auto simp: close_container_def dest: push_to_ok split: list.splits prod.splits if_splits option.splits)

lemma pushf_step_ok:
  assumes "pushf_step c argp p = Some (err, args, p')" and "stack_ok (pf_stack p)"
  shows "stack_ok (pf_stack p')"
  using assms unfolding pushf_step_def Let_def
  by (auto split: if_splits list.splits md_arg.splits prod.splits
      dest: note_value_ok [rotated] open_container_ok [rotated] close_container_ok push_to_ok simp: push_value_ok)

lemma pushf_loop_ok: "pushf_loop fmt argp p = Some (err, p') \<Longrightarrow> stack_ok (pf_stack p) \<Longrightarrow> stack_ok (pf_stack p')"
  by (induction fmt arbitrary: argp p)
    (auto split: option.splits prod.splits if_splits dest: pushf_step_ok)

lemma pushf_ok: "md_pushf fmt argp s = Some (Inr n, s') \<Longrightarrow> stack_ok s \<Longrightarrow> stack_ok s'"
  by (auto simp: md_pushf_def split: option.splits prod.splits if_splits dest: pushf_loop_ok)

end
