(* ===== verification/Spec2Isabelle.thy ===== *)
theory Spec2Isabelle
  imports Mux_Commands Mux_Device Mux_Helpers Host_Scheduler Host_Objects Host_Kernel
    Host_Completion Hal_Allocator Hal_Arg_Pack Loader_AArch64 Metadata_Binary Metadata_Format_Roundtrip
begin

text \<open>Header.\<close>

section \<open>Metadata from the format string to the binary and back\<close>


lemma demo_pushf:
  "md_pushf ''{z:[u]}'' [Arg_zstr [0x6B], Arg_uint 7] (basic_stack_construct MD_FMT_MSGPACK) = Some (Inr 0, demo_stack)"
  unfolding demo_stack_eq
  by (simp add: md_pushf_def stack_run pushf_step_def open_container_def close_container_def note_value_def
      push_to_hash_or_array_def)


end
